(* ===== verification/Prelude.thy ===== *)
theory Prelude
  imports Main "HOL-Library.Word" "HOL-Library.AList"
begin

text \<open>
  What every component of the development shares: the Rust result type with its
  panics, fixed-width unsigned arithmetic on natural numbers, \<open>HashMap\<close> as an
  association list with distinct keys, and the fact collections that the proofs of the
  components draw on.
\<close>

section \<open>Fact collections\<close>

named_theorems hmap_simps \<open>lookups in association lists after the map operations\<close>
named_theorems inv_intros \<open>operations that keep a component's invariant\<close>

section \<open>Machine types\<close>

type_synonym byte = "8 word"
type_synonym bytes = "byte list"
type_synonym u16 = "16 word"
type_synonym u32 = "32 word"
type_synonym u64 = "64 word"
type_synonym i64 = "64 word"

text \<open>
  Counters and sizes that are compared and summed are natural numbers with the wrap-around
  of the release build written out (\<open>usize\<close> and \<open>u64\<close> are 64 bits wide).
\<close>

definition u64_max :: nat where
  "u64_max = 2 ^ 64 - 1"

definition u64_add :: "nat \<Rightarrow> nat \<Rightarrow> nat" where
  "u64_add a b = (a + b) mod 2 ^ 64"

definition u64_sub :: "nat \<Rightarrow> nat \<Rightarrow> nat" where
  "u64_sub a b = (a + 2 ^ 64 - b mod 2 ^ 64) mod 2 ^ 64"

definition u128_add :: "nat \<Rightarrow> nat \<Rightarrow> nat" where
  "u128_add a b = (a + b) mod 2 ^ 128"

lemma u64_add_exact: "a + b < 2 ^ 64 \<Longrightarrow> u64_add a b = a + b"
  by (simp add: u64_add_def)

lemma u64_sub_exact: "b \<le> a \<Longrightarrow> a < 2 ^ 64 \<Longrightarrow> u64_sub a b = a - b"
proof -
  assume ba: "b \<le> a" and a: "a < 2 ^ 64"
  then have "a + 2 ^ 64 - b mod 2 ^ 64 = (a - b) + 2 ^ 64" by simp
  then have "u64_sub a b = ((a - b) + 2 ^ 64) mod 2 ^ 64" by (simp only: u64_sub_def)
  also have "\<dots> = a - b" using a by simp
  finally show ?thesis .
qed

lemma u64_add_less [simp]: "u64_add a b < 2 ^ 64"
  by (simp add: u64_add_def)

section \<open>Results\<close>

text \<open>
  A Rust function returns \<open>Ok\<close> or \<open>Err\<close>, or it does not return because it panics
  (\<open>unwrap\<close>, \<open>expect\<close>, \<open>panic!\<close>, \<open>todo!\<close>).
\<close>

datatype ('a, 'e) result = Ok 'a | Err 'e | Panic

fun bind_res :: "('a, 'e) result \<Rightarrow> ('a \<Rightarrow> ('b, 'e) result) \<Rightarrow> ('b, 'e) result" where
  "bind_res (Ok x) f = f x"
| "bind_res (Err e) f = Err e"
| "bind_res Panic f = Panic"

fun map_err :: "('e \<Rightarrow> 'f) \<Rightarrow> ('a, 'e) result \<Rightarrow> ('a, 'f) result" where
  "map_err g (Ok x) = Ok x"
| "map_err g (Err e) = Err (g e)"
| "map_err g Panic = Panic"

fun unwrap :: "('a, 'e) result \<Rightarrow> ('a, 'f) result" where
  "unwrap (Ok x) = Ok x"
| "unwrap (Err e) = Panic"
| "unwrap Panic = Panic"

fun is_ok :: "('a, 'e) result \<Rightarrow> bool" where
  "is_ok (Ok x) = True"
| "is_ok _ = False"

fun ok_or :: "'e \<Rightarrow> 'a option \<Rightarrow> ('a, 'e) result" where
  "ok_or e None = Err e"
| "ok_or e (Some x) = Ok x"

fun unwrap_or :: "'a \<Rightarrow> 'a option \<Rightarrow> 'a" where
  "unwrap_or d None = d"
| "unwrap_or d (Some x) = x"

lemma bind_res_Ok_iff: "bind_res r f = Ok y \<longleftrightarrow> (\<exists>x. r = Ok x \<and> f x = Ok y)"
  by (cases r) auto

lemma is_ok_iff: "is_ok r \<longleftrightarrow> (\<exists>x. r = Ok x)"
  by (cases r) auto

section \<open>Hash maps\<close>

text \<open>
  A \<open>HashMap\<close> is an association list whose keys are distinct. The order of the list
  carries no meaning: only lookup, insertion, removal and size are used, except where a
  component iterates, and there it says so.
\<close>

type_synonym ('k, 'v) hmap = "('k \<times> 'v) list"

definition hm_get :: "('k, 'v) hmap \<Rightarrow> 'k \<Rightarrow> 'v option" where
  "hm_get m k = map_of m k"

definition hm_insert :: "'k \<Rightarrow> 'v \<Rightarrow> ('k, 'v) hmap \<Rightarrow> ('k, 'v) hmap" where
  "hm_insert k v m = AList.update k v m"

definition hm_remove :: "'k \<Rightarrow> ('k, 'v) hmap \<Rightarrow> ('k, 'v) hmap" where
  "hm_remove k m = AList.delete k m"

definition hm_contains :: "('k, 'v) hmap \<Rightarrow> 'k \<Rightarrow> bool" where
  "hm_contains m k = (hm_get m k \<noteq> None)"

definition hm_inv :: "('k, 'v) hmap \<Rightarrow> bool" where
  "hm_inv m = distinct (map fst m)"

lemma hm_get_Nil [hmap_simps, simp]: "hm_get [] k = None"
  by (simp add: hm_get_def)

lemma hm_get_insert [hmap_simps]:
  "hm_get (hm_insert k v m) j = (if j = k then Some v else hm_get m j)"
  by (simp add: hm_get_def hm_insert_def update_conv')

lemma hm_get_remove [hmap_simps]:
  "hm_get (hm_remove k m) j = (if j = k then None else hm_get m j)"
  by (simp add: hm_get_def hm_remove_def delete_conv')

lemma hm_get_insert_same [simp]: "hm_get (hm_insert k v m) k = Some v"
  by (simp add: hm_get_insert)

lemma hm_get_remove_same [simp]: "hm_get (hm_remove k m) k = None"
  by (simp add: hm_get_remove)

lemma hm_inv_Nil [simp]: "hm_inv []"
  by (simp add: hm_inv_def)

lemma hm_inv_insert [inv_intros, simp]: "hm_inv m \<Longrightarrow> hm_inv (hm_insert k v m)"
  by (simp add: hm_inv_def hm_insert_def distinct_update)

lemma hm_inv_remove [inv_intros, simp]: "hm_inv m \<Longrightarrow> hm_inv (hm_remove k m)"
  by (simp add: hm_inv_def hm_remove_def distinct_delete)

lemma hm_get_eq_Some_iff: "hm_inv m \<Longrightarrow> hm_get m k = Some v \<longleftrightarrow> (k, v) \<in> set m"
  by (simp add: hm_inv_def hm_get_def)

lemma hm_get_None_iff: "hm_get m k = None \<longleftrightarrow> k \<notin> fst ` set m"
  by (simp add: hm_get_def map_of_eq_None_iff)

lemma hm_get_Some_in: "hm_get m k = Some v \<Longrightarrow> (k, v) \<in> set m"
  by (simp add: hm_get_def map_of_SomeD)

lemma set_hm_remove: "set (hm_remove k m) = {(a, b) \<in> set m. a \<noteq> k}"
  by (auto simp: hm_remove_def AList.delete_eq)

lemma hm_insert_fresh: "hm_get m k = None \<Longrightarrow> hm_insert k v m = m @ [(k, v)]"
  by (induction m) (auto simp: hm_get_def hm_insert_def split: if_splits)

lemma length_hm_remove:
  assumes "hm_inv m" and "hm_get m k = Some v"
  shows "length m = Suc (length (hm_remove k m))"
  using assms
proof (induction m)
  case Nil
  then show ?case by simp
next
  case (Cons p m)
  obtain a b where p: "p = (a, b)" by (cases p)
  show ?case
  proof (cases "a = k")
    case True
    with Cons.prems p have "k \<notin> fst ` set m" by (auto simp: hm_inv_def)
    then have "AList.delete k m = m" by (rule delete_id)
    with p True show ?thesis by (simp add: hm_remove_def)
  next
    case False
    with Cons p show ?thesis by (auto simp: hm_remove_def hm_inv_def hm_get_def)
  qed
qed

lemma length_hm_remove_less:
  assumes "hm_get m k = Some v"
  shows "length (hm_remove k m) < length m"
proof -
  have "(k, v) \<in> set m" using assms by (rule hm_get_Some_in)
  then have "length (filter (\<lambda>p. k \<noteq> fst p) m) < length m"
    by (intro length_filter_less) auto
  then show ?thesis by (simp add: hm_remove_def AList.delete_eq case_prod_unfold)
qed

text \<open>The sum of a measure over the values, used for the bytes that a cache holds.\<close>

definition hm_sum :: "('v \<Rightarrow> nat) \<Rightarrow> ('k, 'v) hmap \<Rightarrow> nat" where
  "hm_sum f m = sum_list (map (f \<circ> snd) m)"

lemma hm_sum_Nil [simp]: "hm_sum f [] = 0"
  by (simp add: hm_sum_def)

lemma hm_sum_fresh: "hm_get m k = None \<Longrightarrow> hm_sum f (hm_insert k v m) = hm_sum f m + f v"
  by (simp add: hm_insert_fresh hm_sum_def)

lemma hm_sum_remove:
  "hm_inv m \<Longrightarrow> hm_get m k = Some v \<Longrightarrow> hm_sum f m = hm_sum f (hm_remove k m) + f v"
proof (induction m)
  case Nil
  then show ?case by simp
next
  case (Cons p m)
  obtain a b where p: "p = (a, b)" by (cases p)
  show ?case
  proof (cases "a = k")
    case True
    with Cons.prems p have "k \<notin> fst ` set m" by (auto simp: hm_inv_def)
    then have "AList.delete k m = m" by (rule delete_id)
    with Cons.prems p True show ?thesis by (simp add: hm_remove_def hm_sum_def hm_get_def)
  next
    case False
    with Cons p show ?thesis by (auto simp: hm_remove_def hm_sum_def hm_inv_def hm_get_def)
  qed
qed

lemma hm_sum_update:
  "hm_get m k = Some v \<Longrightarrow> f w = f v \<Longrightarrow> hm_inv m \<Longrightarrow> hm_sum f (hm_insert k w m) = hm_sum f m"
  by (induction m) (auto simp: hm_get_def hm_insert_def hm_sum_def hm_inv_def split: if_splits)

lemma length_hm_insert_old: "hm_get m k = Some v \<Longrightarrow> length (hm_insert k w m) = length m"
  by (induction m) (auto simp: hm_get_def hm_insert_def split: if_splits)

end
