(* ===== verification/Lru.thy ===== *)
theory Lru
  imports Prelude
begin

text \<open>
  The doubly linked LRU list of the gateway (\<open>ursa-gateway/src/cache/lru.rs\<close>). The code
  links reference-counted nodes and keeps a hash map from keys to nodes; the model keeps
  the nodes in an explicit store of addresses, so that the pointer updates of insertion and
  removal are the ones of the code. The refinement lemmas show that the pointer structure
  implements a queue of key/value pairs; the locale \<open>lru_queue\<close> states what the
  frequency cache relies on.
\<close>

section \<open>State\<close>

record 'k node =
  nd_next :: "nat option"
  nd_prev :: "nat option"
  nd_data :: 'k

record 'v lru_data =
  ld_value :: 'v
  ld_node :: nat

record ('k, 'v) lru =
  lru_heap :: "nat \<Rightarrow> 'k node option"
  lru_fresh :: nat
  lru_store :: "('k, 'v lru_data) hmap"
  lru_head :: "nat option"
  lru_tail :: "nat option"
  lru_cap :: "nat option"

datatype 'k lru_error = LruKeyExisted 'k | LruNoFirstKey

section \<open>Operations\<close>

definition lru_new :: "nat option \<Rightarrow> ('k, 'v) lru" where
  "lru_new c = \<lparr>lru_heap = (\<lambda>_. None), lru_fresh = 0, lru_store = [],
                lru_head = None, lru_tail = None, lru_cap = c\<rparr>"

definition lru_node_key :: "('k, 'v) lru \<Rightarrow> nat option \<Rightarrow> 'k option" where
  "lru_node_key l p = (case p of None \<Rightarrow> None | Some a \<Rightarrow> map_option nd_data (lru_heap l a))"

definition lru_get_tail_key :: "('k, 'v) lru \<Rightarrow> 'k option" where
  "lru_get_tail_key l = lru_node_key l (lru_tail l)"

definition lru_is_empty :: "('k, 'v) lru \<Rightarrow> bool" where
  "lru_is_empty l = (lru_store l = [])"

definition lru_len :: "('k, 'v) lru \<Rightarrow> nat" where
  "lru_len l = length (lru_store l)"

definition lru_get :: "('k, 'v) lru \<Rightarrow> 'k \<Rightarrow> 'v option" where
  "lru_get l k = map_option ld_value (hm_get (lru_store l) k)"

definition lru_get_first_key :: "('k, 'v) lru \<Rightarrow> 'k option" where
  "lru_get_first_key l = lru_node_key l (lru_head l)"

definition lru_contains :: "('k, 'v) lru \<Rightarrow> 'k \<Rightarrow> bool" where
  "lru_contains l k = hm_contains (lru_store l) k"

text \<open>Writing through the lock of one link of a node.\<close>

definition set_next :: "nat \<Rightarrow> nat option \<Rightarrow> ('k, 'v) lru \<Rightarrow> ('k, 'v) lru" where
  "set_next a n l = l\<lparr>lru_heap := (lru_heap l)(a := map_option (\<lambda>nd. nd\<lparr>nd_next := n\<rparr>) (lru_heap l a))\<rparr>"

definition set_prev :: "nat \<Rightarrow> nat option \<Rightarrow> ('k, 'v) lru \<Rightarrow> ('k, 'v) lru" where
  "set_prev a p l = l\<lparr>lru_heap := (lru_heap l)(a := map_option (\<lambda>nd. nd\<lparr>nd_prev := p\<rparr>) (lru_heap l a))\<rparr>"

definition lru_unlink :: "'k node \<Rightarrow> ('k, 'v) lru \<Rightarrow> ('k, 'v) lru" where
  "lru_unlink nd l =
     (let p = nd_prev nd;
          n = nd_next nd;
          l1 = (case n of Some a \<Rightarrow> set_prev a p l | None \<Rightarrow> l\<lparr>lru_tail := p\<rparr>)
      in (case p of Some a \<Rightarrow> set_next a n l1 | None \<Rightarrow> l1\<lparr>lru_head := n\<rparr>))"

definition lru_remove :: "('k, 'v) lru \<Rightarrow> 'k \<Rightarrow> 'v option \<times> ('k, 'v) lru" where
  "lru_remove l k =
     (case hm_get (lru_store l) k of
        None \<Rightarrow> (None, l)
      | Some d \<Rightarrow>
          (let l1 = l\<lparr>lru_store := hm_remove k (lru_store l)\<rparr>
           in (Some (ld_value d),
               (case lru_heap l1 (ld_node d) of
                  None \<Rightarrow> l1
                | Some nd \<Rightarrow> lru_unlink nd l1))))"

definition lru_remove_head ::
  "('k, 'v) lru \<Rightarrow> ('v option, 'k lru_error) result \<times> ('k, 'v) lru" where
  "lru_remove_head l =
     (case lru_get_first_key l of
        None \<Rightarrow> (Err LruNoFirstKey, l)
      | Some k \<Rightarrow> (let (r, l') = lru_remove l k in (Ok r, l')))"

definition lru_push :: "('k, 'v) lru \<Rightarrow> 'k \<Rightarrow> 'v \<Rightarrow> ('k, 'v) lru" where
  "lru_push l k v =
     (let a = lru_fresh l;
          l1 = l\<lparr>lru_heap := (lru_heap l)(a \<mapsto> \<lparr>nd_next = None, nd_prev = lru_tail l, nd_data = k\<rparr>),
                 lru_fresh := Suc a\<rparr>;
          l2 = (case lru_tail l of None \<Rightarrow> l1 | Some t \<Rightarrow> set_next t (Some a) l1);
          l3 = l2\<lparr>lru_store := hm_insert k \<lparr>ld_value = v, ld_node = a\<rparr> (lru_store l2),
                  lru_tail := Some a\<rparr>
      in (if lru_head l3 = None then l3\<lparr>lru_head := Some a\<rparr> else l3))"

definition lru_make_room ::
  "('k, 'v) lru \<Rightarrow> ('v option, 'k lru_error) result \<times> ('k, 'v) lru" where
  "lru_make_room l =
     (case lru_cap l of
        None \<Rightarrow> (Ok None, l)
      | Some c \<Rightarrow> (if c \<le> length (lru_store l) then lru_remove_head l else (Ok None, l)))"

definition lru_insert ::
  "('k, 'v) lru \<Rightarrow> 'k \<Rightarrow> 'v \<Rightarrow> (unit, 'k lru_error) result \<times> ('k, 'v) lru" where
  "lru_insert l k v =
     (if lru_contains l k then (Err (LruKeyExisted k), l)
      else (case lru_make_room l of
              (Ok _, l1) \<Rightarrow> (Ok (), lru_push l1 k v)
            | (Err e, l1) \<Rightarrow> (Err e, l1)
            | (Panic, l1) \<Rightarrow> (Panic, l1)))"

text \<open>
  The two walks over the links that the unit tests of \<open>lru.rs\<close> use to observe the list;
  the bound on the number of steps is the number of stored keys.
\<close>

fun walk_next :: "nat \<Rightarrow> (nat \<Rightarrow> 'k node option) \<Rightarrow> nat option \<Rightarrow> 'k list" where
  "walk_next 0 h p = []"
| "walk_next (Suc n) h None = []"
| "walk_next (Suc n) h (Some a) =
     (case h a of None \<Rightarrow> [] | Some nd \<Rightarrow> nd_data nd # walk_next n h (nd_next nd))"

fun walk_prev :: "nat \<Rightarrow> (nat \<Rightarrow> 'k node option) \<Rightarrow> nat option \<Rightarrow> 'k list" where
  "walk_prev 0 h p = []"
| "walk_prev (Suc n) h None = []"
| "walk_prev (Suc n) h (Some a) =
     (case h a of None \<Rightarrow> [] | Some nd \<Rightarrow> nd_data nd # walk_prev n h (nd_prev nd))"

definition ref_from_head :: "('k, 'v) lru \<Rightarrow> 'k list" where
  "ref_from_head l = walk_next (Suc (length (lru_store l))) (lru_heap l) (lru_head l)"

definition ref_from_tail :: "('k, 'v) lru \<Rightarrow> 'k list" where
  "ref_from_tail l = walk_prev (Suc (length (lru_store l))) (lru_heap l) (lru_tail l)"

text \<open>The abstract value: the stored pairs in list order.\<close>

definition lru_items :: "('k, 'v) lru \<Rightarrow> ('k \<times> 'v) list" where
  "lru_items l = map (\<lambda>k. (k, the (lru_get l k))) (ref_from_head l)"

section \<open>Linked segments\<close>

type_synonym ('k, 'v) cell = "nat \<times> 'k \<times> 'v"

abbreviation adr :: "('k, 'v) cell \<Rightarrow> nat" where "adr c \<equiv> fst c"
abbreviation ckey :: "('k, 'v) cell \<Rightarrow> 'k" where "ckey c \<equiv> fst (snd c)"
abbreviation cval :: "('k, 'v) cell \<Rightarrow> 'v" where "cval c \<equiv> snd (snd c)"

fun first_or :: "('k, 'v) cell list \<Rightarrow> nat option \<Rightarrow> nat option" where
  "first_or [] n = n"
| "first_or (c # cs) n = Some (adr c)"

fun last_or :: "('k, 'v) cell list \<Rightarrow> nat option \<Rightarrow> nat option" where
  "last_or [] p = p"
| "last_or (c # cs) p = last_or cs (Some (adr c))"

text \<open>
  \<open>seg h p cs n\<close>: in the store \<open>h\<close> the cells \<open>cs\<close> are linked in both directions;
  \<open>p\<close> is the backward link of the first, \<open>n\<close> the forward link of the last.
\<close>

fun seg :: "(nat \<Rightarrow> 'k node option) \<Rightarrow> nat option \<Rightarrow> ('k, 'v) cell list \<Rightarrow> nat option \<Rightarrow> bool" where
  "seg h p [] n = True"
| "seg h p (c # cs) n =
     (h (adr c) = Some \<lparr>nd_next = first_or cs n, nd_prev = p, nd_data = ckey c\<rparr> \<and>
      seg h (Some (adr c)) cs n)"

lemma first_or_append [simp]: "first_or (cs @ ds) n = first_or cs (first_or ds n)"
  by (cases cs) auto

lemma last_or_append [simp]: "last_or (cs @ ds) p = last_or ds (last_or cs p)"
  by (induction cs arbitrary: p) auto

lemma seg_append:
  "seg h p (cs @ ds) n \<longleftrightarrow> seg h p cs (first_or ds n) \<and> seg h (last_or cs p) ds n"
  by (induction cs arbitrary: p) auto

lemma seg_frame: "x \<notin> adr ` set cs \<Longrightarrow> seg (h(x := y)) p cs n = seg h p cs n"
  by (induction cs arbitrary: p) auto

lemma first_or_mem: "cs \<noteq> [] \<Longrightarrow> \<exists>c \<in> set cs. first_or cs n = Some (adr c)"
  by (cases cs) auto

lemma last_or_mem: "cs \<noteq> [] \<Longrightarrow> \<exists>c \<in> set cs. last_or cs n = Some (adr c)"
  by (induction cs arbitrary: n rule: rev_induct) auto

lemma last_or_snoc_cases:
  obtains (Nil) "cs = []" | (snoc) ds c where "cs = ds @ [c]"
  by (cases cs rule: rev_cases) auto

text \<open>Redirecting the outer links of a segment.\<close>

lemma seg_new_next:
  assumes "seg h p (cs @ [c]) n" and "adr c \<notin> adr ` set cs"
  shows "seg (h(adr c := map_option (\<lambda>nd. nd\<lparr>nd_next := n'\<rparr>) (h (adr c)))) p (cs @ [c]) n'"
  using assms by (auto simp: seg_append seg_frame)

lemma seg_new_prev:
  assumes "seg h p (c # cs) n" and "adr c \<notin> adr ` set cs"
  shows "seg (h(adr c := map_option (\<lambda>nd. nd\<lparr>nd_prev := p'\<rparr>) (h (adr c)))) p' (c # cs) n"
  using assms by (auto simp: seg_frame)

lemma walk_next_seg:
  "seg h p cs None \<Longrightarrow> length cs < n \<Longrightarrow> walk_next n h (first_or cs None) = map ckey cs"
proof (induction cs arbitrary: p n)
  case Nil
  then show ?case by (cases n) auto
next
  case (Cons c cs)
  then obtain m where "n = Suc m" by (cases n) auto
  with Cons show ?case by auto
qed

lemma walk_prev_seg:
  "seg h None cs n \<Longrightarrow> length cs < m \<Longrightarrow> walk_prev m h (last_or cs None) = rev (map ckey cs)"
proof (induction cs arbitrary: m n rule: rev_induct)
  case Nil
  then show ?case by (cases m) auto
next
  case (snoc c cs)
  then obtain m' where "m = Suc m'" by (cases m) auto
  with snoc show ?case by (auto simp: seg_append)
qed

lemma cells_filter: "k \<notin> ckey ` set cs \<Longrightarrow> filter (\<lambda>p. fst p \<noteq> k) (map snd cs) = map snd cs"
  by (induction cs) auto

lemma cells_lookup_None: "k \<notin> ckey ` set cs \<Longrightarrow> map_of (map snd cs) k = None"
  by (induction cs) auto

lemma cells_keys: "fst ` set (map snd cs) = ckey ` set cs"
  by (simp add: image_image)

section \<open>Invariant and abstraction\<close>

definition lru_rep :: "('k, 'v) lru \<Rightarrow> ('k, 'v) cell list \<Rightarrow> bool" where
  "lru_rep l cs \<longleftrightarrow>
     seg (lru_heap l) None cs None \<and>
     distinct (map adr cs) \<and> distinct (map ckey cs) \<and>
     (\<forall>c \<in> set cs. adr c < lru_fresh l) \<and>
     lru_head l = first_or cs None \<and> lru_tail l = last_or cs None \<and>
     hm_inv (lru_store l) \<and>
     (\<forall>c \<in> set cs. hm_get (lru_store l) (ckey c) = Some \<lparr>ld_value = cval c, ld_node = adr c\<rparr>) \<and>
     (\<forall>k. hm_get (lru_store l) k = None \<longleftrightarrow> k \<notin> ckey ` set cs)"

definition lru_inv :: "('k, 'v) lru \<Rightarrow> bool" where
  "lru_inv l \<longleftrightarrow> (\<exists>cs. lru_rep l cs)"

lemma lru_repD:
  assumes "lru_rep l cs"
  shows "seg (lru_heap l) None cs None"
    and "distinct (map adr cs)" and "distinct (map ckey cs)"
    and "\<And>c. c \<in> set cs \<Longrightarrow> adr c < lru_fresh l"
    and "lru_head l = first_or cs None" and "lru_tail l = last_or cs None"
    and "hm_inv (lru_store l)"
    and "\<And>c. c \<in> set cs \<Longrightarrow>
           hm_get (lru_store l) (ckey c) = Some \<lparr>ld_value = cval c, ld_node = adr c\<rparr>"
    and "\<And>k. hm_get (lru_store l) k = None \<longleftrightarrow> k \<notin> ckey ` set cs"
  using assms by (auto simp: lru_rep_def)

lemma lru_rep_length: "lru_rep l cs \<Longrightarrow> length (lru_store l) = length cs"
proof -
  assume r: "lru_rep l cs"
  have "fst ` set (lru_store l) = ckey ` set cs"
    using lru_repD(9) [OF r] by (auto simp: hm_get_None_iff)
  then have "set (map fst (lru_store l)) = set (map ckey cs)" by simp
  then have "length (map fst (lru_store l)) = length (map ckey cs)"
    using lru_repD(3,7) [OF r] by (metis distinct_card hm_inv_def)
  then show ?thesis by simp
qed

lemma lru_rep_walk: "lru_rep l cs \<Longrightarrow> ref_from_head l = map ckey cs"
  by (simp add: ref_from_head_def lru_rep_length lru_repD(5) del: walk_next.simps)
     (rule walk_next_seg, erule lru_repD, simp)

lemma lru_rep_walk_back: "lru_rep l cs \<Longrightarrow> ref_from_tail l = rev (map ckey cs)"
  by (simp add: ref_from_tail_def lru_rep_length lru_repD(6) del: walk_prev.simps)
     (rule walk_prev_seg, erule lru_repD, simp)

lemma lru_rep_get: "lru_rep l cs \<Longrightarrow> c \<in> set cs \<Longrightarrow> lru_get l (ckey c) = Some (cval c)"
  by (simp add: lru_get_def lru_repD(8))

lemma lru_rep_items: "lru_rep l cs \<Longrightarrow> lru_items l = map snd cs"
  by (auto simp: lru_items_def lru_rep_walk lru_rep_get prod_eq_iff)

lemma lru_rep_lookup: "lru_rep l cs \<Longrightarrow> lru_get l k = map_of (map snd cs) k"
proof (cases "k \<in> ckey ` set cs")
  case True
  assume r: "lru_rep l cs"
  from True obtain c where c: "c \<in> set cs" "k = ckey c" by auto
  with lru_repD(3) [OF r] have "map_of (map snd cs) k = Some (cval c)"
    by (intro map_of_is_SomeI) (auto simp: comp_def)
  with lru_rep_get [OF r c(1)] c(2) show ?thesis by simp
next
  case False
  assume r: "lru_rep l cs"
  with False have "hm_get (lru_store l) k = None" by (simp add: lru_repD(9))
  moreover from False have "map_of (map snd cs) k = None" by (rule cells_lookup_None)
  ultimately show ?thesis by (simp add: lru_get_def)
qed

section \<open>The operations on the representation\<close>

lemma lru_rep_new: "lru_rep (lru_new c) []"
  by (simp add: lru_rep_def lru_new_def)

lemma lru_rep_first_key:
  "lru_rep l cs \<Longrightarrow> lru_get_first_key l = (case cs of [] \<Rightarrow> None | c # _ \<Rightarrow> Some (ckey c))"
  by (cases cs) (auto simp: lru_rep_def lru_get_first_key_def lru_node_key_def)

lemma lru_rep_tail_key:
  "lru_rep l cs \<Longrightarrow> lru_get_tail_key l = (if cs = [] then None else Some (ckey (last cs)))"
  by (cases cs rule: rev_cases)
     (auto simp: lru_rep_def lru_get_tail_key_def lru_node_key_def seg_append)

lemma lru_rep_empty: "lru_rep l cs \<Longrightarrow> lru_is_empty l \<longleftrightarrow> cs = []"
  using lru_rep_length [of l cs] by (auto simp: lru_is_empty_def)

lemma lru_rep_contains: "lru_rep l cs \<Longrightarrow> lru_contains l k \<longleftrightarrow> k \<in> ckey ` set cs"
  by (simp add: lru_contains_def hm_contains_def lru_repD(9))

lemma lru_push_rep:
  assumes r: "lru_rep l cs" and k: "k \<notin> ckey ` set cs"
  shows "lru_rep (lru_push l k v) (cs @ [(lru_fresh l, k, v)])"
proof -
  let ?a = "lru_fresh l"
  have fresh: "?a \<notin> adr ` set cs" using lru_repD(4) [OF r] by (metis imageE less_irrefl)
  note d = lru_repD [OF r]
  show ?thesis
  proof (cases cs rule: rev_cases)
    case Nil
    with d k show ?thesis
      by (auto simp: lru_rep_def lru_push_def Let_def hm_get_insert)
  next
    case (snoc ds c)
    let ?h = "(lru_heap l)(adr c := map_option (\<lambda>nd. nd\<lparr>nd_next := Some ?a\<rparr>) (lru_heap l (adr c)))"
    have "seg ?h None cs (Some ?a)"
      unfolding snoc by (rule seg_new_next) (use d(1,2) snoc in auto)
    with fresh have s: "seg (?h(?a \<mapsto> nd)) None cs (Some ?a)" for nd by (simp add: seg_frame)
    have ne: "adr c \<noteq> ?a" using fresh snoc by auto
    have heap: "lru_heap (lru_push l k v) =
        ?h(?a \<mapsto> \<lparr>nd_next = None, nd_prev = Some (adr c), nd_data = k\<rparr>)"
      using d(5,6) snoc ne
      by (cases ds) (auto simp: lru_push_def Let_def set_next_def fun_eq_iff)
    have rest: "lru_head (lru_push l k v) = lru_head l" "lru_tail (lru_push l k v) = Some ?a"
      "lru_store (lru_push l k v) = hm_insert k \<lparr>ld_value = v, ld_node = ?a\<rparr> (lru_store l)"
      "lru_fresh (lru_push l k v) = Suc ?a"
      using d(5,6) snoc by (cases ds; auto simp: lru_push_def Let_def set_next_def)+
    have seg: "seg (lru_heap (lru_push l k v)) None (cs @ [(?a, k, v)]) None"
      using s unfolding heap by (simp add: seg_append snoc)
    have st: "\<And>c'. c' \<in> set cs \<Longrightarrow> ckey c' \<noteq> k" using k by auto
    have hd: "first_or (cs @ [(?a, k, v)]) None = first_or cs None"
      unfolding snoc by (cases ds) auto
    show ?thesis
      unfolding lru_rep_def rest hd
      using seg d fresh k st by (auto simp: hm_get_insert less_Suc_eq)
  qed
qed

lemma lru_push_cap [simp]: "lru_cap (lru_push l k v) = lru_cap l"
  by (simp add: lru_push_def Let_def set_next_def split: option.split)

lemma lru_unlink_fields [simp]:
  "lru_fresh (lru_unlink nd l) = lru_fresh l" "lru_store (lru_unlink nd l) = lru_store l"
  "lru_cap (lru_unlink nd l) = lru_cap l"
  by (simp_all add: lru_unlink_def Let_def set_next_def set_prev_def split: option.split)

lemma lru_unlink_ends:
  "lru_head (lru_unlink nd l) = (if nd_prev nd = None then nd_next nd else lru_head l)"
  "lru_tail (lru_unlink nd l) = (if nd_next nd = None then nd_prev nd else lru_tail l)"
  by (auto simp: lru_unlink_def Let_def set_next_def set_prev_def split: option.split)

text \<open>The relinked store, from the neighbours' point of view.\<close>

definition relink_prev :: "nat option \<Rightarrow> nat option \<Rightarrow> (nat \<Rightarrow> 'k node option) \<Rightarrow> nat \<Rightarrow> 'k node option" where
  "relink_prev x p h = (case x of None \<Rightarrow> h | Some a \<Rightarrow> h(a := map_option (\<lambda>nd. nd\<lparr>nd_prev := p\<rparr>) (h a)))"

definition relink_next :: "nat option \<Rightarrow> nat option \<Rightarrow> (nat \<Rightarrow> 'k node option) \<Rightarrow> nat \<Rightarrow> 'k node option" where
  "relink_next x n h = (case x of None \<Rightarrow> h | Some a \<Rightarrow> h(a := map_option (\<lambda>nd. nd\<lparr>nd_next := n\<rparr>) (h a)))"

lemma lru_unlink_heap:
  "lru_heap (lru_unlink nd l) =
     relink_next (nd_prev nd) (nd_next nd) (relink_prev (nd_next nd) (nd_prev nd) (lru_heap l))"
  by (simp add: lru_unlink_def Let_def set_next_def set_prev_def relink_next_def relink_prev_def
      split: option.split)

lemma seg_relink_prev:
  assumes "seg h p cs n" and "distinct (map adr cs)"
  shows "seg (relink_prev (first_or cs None) p' h) p' cs n"
  using assms by (cases cs) (auto simp: relink_prev_def seg_frame)

lemma seg_relink_next:
  assumes "seg h None cs n" and "distinct (map adr cs)"
  shows "seg (relink_next (last_or cs None) n' h) None cs n'"
  using assms by (cases cs rule: rev_cases) (auto simp: relink_next_def seg_append seg_frame)

lemma seg_relink_frame:
  assumes "\<And>a. x = Some a \<Longrightarrow> a \<notin> adr ` set cs"
  shows "seg (relink_prev x q h) p cs n = seg h p cs n"
    and "seg (relink_next x q h) p cs n = seg h p cs n"
  using assms by (cases x; simp add: relink_prev_def relink_next_def seg_frame)+

lemma seg_unlink:
  assumes s: "seg h None (us @ c # vs) None" and d: "distinct (map adr (us @ c # vs))"
  shows "seg (relink_next (last_or us None) (first_or vs None)
               (relink_prev (first_or vs None) (last_or us None) h)) None (us @ vs) None"
proof -
  let ?p = "last_or us None" and ?n = "first_or vs None"
  from s have su: "seg h None us (Some (adr c))" and sv: "seg h (Some (adr c)) vs None"
    by (auto simp: seg_append)
  have nu: "a \<notin> adr ` set us" if "?n = Some a" for a
    using d that by (cases vs) auto
  have pv: "a \<notin> adr ` set vs" if "?p = Some a" for a
    using d that by (cases us rule: rev_cases) auto
  have "seg (relink_prev ?n ?p h) ?p vs None"
    using seg_relink_prev [OF sv] d by auto
  then have v: "seg (relink_next ?p ?n (relink_prev ?n ?p h)) ?p vs None"
    using pv by (subst seg_relink_frame) auto
  have "seg (relink_prev ?n ?p h) None us (Some (adr c))"
    using su nu by (subst seg_relink_frame) auto
  then have u: "seg (relink_next ?p ?n (relink_prev ?n ?p h)) None us ?n"
    using d by (intro seg_relink_next) auto
  show ?thesis using u v by (simp add: seg_append)
qed

lemma lru_remove_rep:
  assumes r: "lru_rep l (us @ c # vs)"
  shows "fst (lru_remove l (ckey c)) = Some (cval c)"
    and "lru_rep (snd (lru_remove l (ckey c))) (us @ vs)"
proof -
  let ?nd = "\<lparr>nd_next = first_or vs None, nd_prev = last_or us None, nd_data = ckey c\<rparr>"
  note d = lru_repD [OF r]
  have g: "hm_get (lru_store l) (ckey c) = Some \<lparr>ld_value = cval c, ld_node = adr c\<rparr>"
    using d(8) by simp
  have h: "lru_heap l (adr c) = Some ?nd" using d(1) by (simp add: seg_append)
  have rem: "lru_remove l (ckey c) =
      (Some (cval c), lru_unlink ?nd (l\<lparr>lru_store := hm_remove (ckey c) (lru_store l)\<rparr>))"
    using g h by (simp add: lru_remove_def)
  show "fst (lru_remove l (ckey c)) = Some (cval c)" by (simp add: rem)
  have seg: "seg (lru_heap (snd (lru_remove l (ckey c)))) None (us @ vs) None"
    using seg_unlink [OF d(1,2)] by (simp add: rem lru_unlink_heap)
  have hd: "first_or (us @ vs) None =
      (if last_or us None = None then first_or vs None else first_or (us @ c # vs) None)"
    by (cases us) (use last_or_mem [of us None] in auto)
  have tl: "last_or (us @ vs) None =
      (if first_or vs None = None then last_or us None else last_or (us @ c # vs) None)"
    by (cases vs) auto
  have "ckey c \<notin> ckey ` set (us @ vs)" using d(3) by auto
  then have keys: "\<And>c'. c' \<in> set (us @ vs) \<Longrightarrow> ckey c' \<noteq> ckey c" by (metis image_eqI)
  show "lru_rep (snd (lru_remove l (ckey c))) (us @ vs)"
    unfolding lru_rep_def
    using seg d keys hd tl by (auto simp: rem lru_unlink_ends hm_get_remove)
qed

lemma lru_remove_absent: "lru_rep l cs \<Longrightarrow> k \<notin> ckey ` set cs \<Longrightarrow> lru_remove l k = (None, l)"
  using lru_repD(9) [of l cs k] by (simp add: lru_remove_def)

lemma lru_remove_cap [simp]: "lru_cap (snd (lru_remove l k)) = lru_cap l"
  by (simp add: lru_remove_def Let_def split: option.split)

lemma lru_insert_rep:
  assumes r: "lru_rep l cs" and k: "k \<notin> ckey ` set cs" and c: "lru_cap l = None"
  shows "fst (lru_insert l k v) = Ok ()"
    and "lru_rep (snd (lru_insert l k v)) (cs @ [(lru_fresh l, k, v)])"
  using lru_push_rep [OF r k] k c lru_rep_contains [OF r, of k]
  by (simp_all add: lru_insert_def lru_make_room_def)

section \<open>The operations on the abstract queue\<close>

lemma lru_items_distinct: "lru_inv l \<Longrightarrow> distinct (map fst (lru_items l))"
  by (auto simp: lru_inv_def lru_rep_items comp_def dest: lru_repD(3))

lemma lru_new_items [simp]: "lru_items (lru_new c) = []"
  using lru_rep_items [OF lru_rep_new] by simp

lemma lru_new_inv [inv_intros, simp]: "lru_inv (lru_new c)"
  using lru_rep_new by (auto simp: lru_inv_def)

lemma lru_new_cap [simp]: "lru_cap (lru_new c) = c"
  by (simp add: lru_new_def)

lemma lru_remove_items:
  assumes "lru_inv l"
  shows "fst (lru_remove l k) = map_of (lru_items l) k"
    and "lru_inv (snd (lru_remove l k))"
    and "lru_items (snd (lru_remove l k)) = filter (\<lambda>p. fst p \<noteq> k) (lru_items l)"
proof -
  from assms obtain cs where r: "lru_rep l cs" by (auto simp: lru_inv_def)
  have "fst (lru_remove l k) = map_of (lru_items l) k \<and> lru_inv (snd (lru_remove l k)) \<and>
      lru_items (snd (lru_remove l k)) = filter (\<lambda>p. fst p \<noteq> k) (lru_items l)"
  proof (cases "k \<in> ckey ` set cs")
    case True
    then obtain c where "c \<in> set cs" and k: "k = ckey c" by auto
    then obtain us vs where cs: "cs = us @ c # vs" by (auto simp: in_set_conv_decomp)
    note rem = lru_remove_rep [OF r [unfolded cs]]
    have notin: "ckey c \<notin> ckey ` set (us @ vs)" using lru_repD(3) [OF r] cs by auto
    then have "filter (\<lambda>p. fst p \<noteq> k) (map snd (us @ vs)) = map snd (us @ vs)"
      unfolding k by (rule cells_filter)
    moreover have "map_of (lru_items l) k = Some (cval c)"
      using lru_rep_lookup [OF r, of k] lru_rep_get [OF r \<open>c \<in> set cs\<close>] k
      by (simp add: lru_rep_items [OF r])
    ultimately show ?thesis
      using rem k lru_rep_items [OF rem(2)] lru_rep_items [OF r] cs by (auto simp: lru_inv_def)
  next
    case False
    then have "filter (\<lambda>p. fst p \<noteq> k) (map snd cs) = map snd cs"
      by (rule cells_filter)
    moreover from False have "map_of (map snd cs) k = None"
      by (rule cells_lookup_None)
    ultimately show ?thesis
      using lru_remove_absent [OF r False] r assms by (simp add: lru_rep_items)
  qed
  then show "fst (lru_remove l k) = map_of (lru_items l) k"
    and "lru_inv (snd (lru_remove l k))"
    and "lru_items (snd (lru_remove l k)) = filter (\<lambda>p. fst p \<noteq> k) (lru_items l)" by auto
qed

lemma lru_insert_items:
  assumes "lru_inv l" and "k \<notin> fst ` set (lru_items l)" and "lru_cap l = None"
  shows "fst (lru_insert l k v) = Ok ()"
    and "lru_inv (snd (lru_insert l k v))"
    and "lru_items (snd (lru_insert l k v)) = lru_items l @ [(k, v)]"
    and "lru_cap (snd (lru_insert l k v)) = None"
proof -
  from assms(1) obtain cs where r: "lru_rep l cs" by (auto simp: lru_inv_def)
  have k: "k \<notin> ckey ` set cs" using assms(2) r by (simp add: lru_rep_items image_image)
  note ins = lru_insert_rep [OF r k assms(3)]
  show "fst (lru_insert l k v) = Ok ()" by (rule ins)
  show "lru_inv (snd (lru_insert l k v))" using ins(2) by (auto simp: lru_inv_def)
  show "lru_items (snd (lru_insert l k v)) = lru_items l @ [(k, v)]"
    using lru_rep_items [OF ins(2)] lru_rep_items [OF r] by simp
  show "lru_cap (snd (lru_insert l k v)) = None"
    using assms(3) lru_rep_contains [OF r, of k] k by (simp add: lru_insert_def lru_make_room_def)
qed

lemma lru_first_key_items:
  "lru_inv l \<Longrightarrow> lru_get_first_key l = (case lru_items l of [] \<Rightarrow> None | p # _ \<Rightarrow> Some (fst p))"
  by (auto simp: lru_inv_def lru_rep_first_key lru_rep_items split: list.split)

lemma lru_tail_key_items:
  "lru_inv l \<Longrightarrow>
   lru_get_tail_key l = (if lru_items l = [] then None else Some (fst (last (lru_items l))))"
  by (auto simp: lru_inv_def lru_rep_tail_key lru_rep_items last_map)

lemma lru_is_empty_items: "lru_inv l \<Longrightarrow> lru_is_empty l \<longleftrightarrow> lru_items l = []"
  by (auto simp: lru_inv_def lru_rep_empty lru_rep_items)

lemma lru_len_items: "lru_inv l \<Longrightarrow> length (lru_store l) = length (lru_items l)"
  by (auto simp: lru_inv_def lru_rep_length lru_rep_items)

lemma lru_contains_items: "lru_inv l \<Longrightarrow> lru_contains l k \<longleftrightarrow> k \<in> fst ` set (lru_items l)"
  by (metis cells_keys lru_inv_def lru_rep_contains lru_rep_items)

lemma lru_remove_head_items:
  assumes "lru_inv l" and "lru_items l = (k, v) # xs"
  shows "fst (lru_remove_head l) = Ok (Some v)"
    and "lru_inv (snd (lru_remove_head l))"
    and "lru_items (snd (lru_remove_head l)) = xs"
    and "lru_cap (snd (lru_remove_head l)) = lru_cap l"
proof -
  have "filter (\<lambda>p. fst p \<noteq> k) xs = xs"
    using lru_items_distinct [OF assms(1)] assms(2) by (force simp: filter_id_conv)
  then show "fst (lru_remove_head l) = Ok (Some v)"
    and "lru_inv (snd (lru_remove_head l))"
    and "lru_items (snd (lru_remove_head l)) = xs"
    using assms lru_remove_items [OF assms(1), of k]
    by (auto simp: lru_remove_head_def lru_first_key_items split: prod.split)
  show "lru_cap (snd (lru_remove_head l)) = lru_cap l"
    using lru_remove_cap [of l k] assms
    by (simp add: lru_remove_head_def lru_first_key_items Let_def case_prod_unfold)
qed

lemma lru_remove_head_empty:
  "lru_inv l \<Longrightarrow> lru_items l = [] \<Longrightarrow> lru_remove_head l = (Err LruNoFirstKey, l)"
  by (simp add: lru_remove_head_def lru_first_key_items)

section \<open>Interface to the frequency cache\<close>

text \<open>
  What \<open>tlrfu.rs\<close> relies on: an unbounded queue with removal by key, whose keys are
  distinct. The operations return the new queue beside their result.
\<close>

locale lru_queue =
  fixes new :: "'q"
    and insert :: "'q \<Rightarrow> 'k \<Rightarrow> 'v \<Rightarrow> (unit, 'e) result \<times> 'q"
    and remove :: "'q \<Rightarrow> 'k \<Rightarrow> 'v option \<times> 'q"
    and remove_head :: "'q \<Rightarrow> ('v option, 'e) result \<times> 'q"
    and tail_key :: "'q \<Rightarrow> 'k option"
    and is_empty :: "'q \<Rightarrow> bool"
    and items :: "'q \<Rightarrow> ('k \<times> 'v) list"
    and invar :: "'q \<Rightarrow> bool"
  assumes invar_new: "invar new"
    and items_new: "items new = []"
    and keys_distinct: "invar q \<Longrightarrow> distinct (map fst (items q))"
    and insert_ok: "invar q \<Longrightarrow> k \<notin> fst ` set (items q) \<Longrightarrow> fst (insert q k v) = Ok ()"
    and insert_inv: "invar q \<Longrightarrow> k \<notin> fst ` set (items q) \<Longrightarrow> invar (snd (insert q k v))"
    and insert_items: "invar q \<Longrightarrow> k \<notin> fst ` set (items q) \<Longrightarrow>
           items (snd (insert q k v)) = items q @ [(k, v)]"
    and remove_res: "invar q \<Longrightarrow> fst (remove q k) = map_of (items q) k"
    and remove_inv: "invar q \<Longrightarrow> invar (snd (remove q k))"
    and remove_items: "invar q \<Longrightarrow> items (snd (remove q k)) = filter (\<lambda>p. fst p \<noteq> k) (items q)"
    and remove_head_eq: "invar q \<Longrightarrow> items q = (k, v) # xs \<Longrightarrow>
           remove_head q = (Ok (Some v), snd (remove q k))"
    and tail_key_eq: "invar q \<Longrightarrow>
           tail_key q = (if items q = [] then None else Some (fst (last (items q))))"
    and is_empty_eq: "invar q \<Longrightarrow> is_empty q \<longleftrightarrow> items q = []"
begin

lemma remove_found:
  assumes "invar q" and "(k, v) \<in> set (items q)"
  shows "fst (remove q k) = Some v"
  using assms keys_distinct by (simp add: remove_res)

lemma remove_first: "invar q \<Longrightarrow> items q = (k, v) # xs \<Longrightarrow> items (snd (remove q k)) = xs"
  using keys_distinct [of q] by (force simp: remove_items filter_id_conv)

lemma remove_mem:
  "invar q \<Longrightarrow> (i, k) \<in> set (items (snd (remove q j))) \<longleftrightarrow> (i, k) \<in> set (items q) \<and> i \<noteq> j"
  by (auto simp: remove_items)

end

text \<open>
  The cache numbers the entries of a queue: the next number is one more than the one at
  the tail. Under that discipline the numbers ascend and an insertion never fails.
\<close>

locale numbered_queue = lru_queue new insert remove remove_head tail_key is_empty items invar
  for new :: "'q"
    and insert :: "'q \<Rightarrow> nat \<Rightarrow> 'v \<Rightarrow> (unit, 'e) result \<times> 'q"
    and remove remove_head tail_key is_empty items invar
begin

lemma ascending_last:
  "sorted_wrt (<) (map fst xs) \<Longrightarrow> (i, v) \<in> set xs \<Longrightarrow> i \<le> fst (last (xs :: (nat \<times> 'v) list))"
proof (induction xs rule: rev_induct)
  case Nil
  then show ?case by simp
next
  case (snoc x xs)
  then show ?case by (auto simp: sorted_wrt_append)
qed

lemma next_fresh:
  assumes "invar q" and "sorted_wrt (<) (map fst (items q))"
    and n: "n = (case tail_key q of None \<Rightarrow> 0 | Some t \<Rightarrow> Suc t)"
  shows "\<forall>p \<in> set (items q). fst p < n"
  using assms ascending_last [OF assms(2)] by (auto simp: tail_key_eq less_Suc_eq_le)

lemma push_next:
  assumes "invar q" and "sorted_wrt (<) (map fst (items q))"
    and n: "n = (case tail_key q of None \<Rightarrow> 0 | Some t \<Rightarrow> Suc t)"
  shows "fst (insert q n v) = Ok ()" and "invar (snd (insert q n v))"
    and "items (snd (insert q n v)) = items q @ [(n, v)]"
    and "sorted_wrt (<) (map fst (items (snd (insert q n v))))"
proof -
  have less: "\<forall>p \<in> set (items q). fst p < n" by (rule next_fresh [OF assms])
  then have f: "n \<notin> fst ` set (items q)" by auto
  show "fst (insert q n v) = Ok ()" by (rule insert_ok [OF assms(1) f])
  show "invar (snd (insert q n v))" by (rule insert_inv [OF assms(1) f])
  show it: "items (snd (insert q n v)) = items q @ [(n, v)]" by (rule insert_items [OF assms(1) f])
  show "sorted_wrt (<) (map fst (items (snd (insert q n v))))"
    using assms(2) less by (auto simp: it sorted_wrt_append)
qed

lemma remove_ascending:
  "invar q \<Longrightarrow> sorted_wrt (<) (map fst (items q)) \<Longrightarrow>
   sorted_wrt (<) (map fst (items (snd (remove q k))))"
  by (simp add: remove_items sorted_wrt_map sorted_wrt_filter)

end

text \<open>The invariant of a queue that the cache creates: no capacity limit.\<close>

definition lru_unbounded :: "('k, 'v) lru \<Rightarrow> bool" where
  "lru_unbounded l \<longleftrightarrow> lru_inv l \<and> lru_cap l = None"

interpretation lq: lru_queue "lru_new None" lru_insert lru_remove lru_remove_head
  lru_get_tail_key lru_is_empty lru_items lru_unbounded
proof unfold_locales
  fix q :: "('k, 'v) lru" and k v xs
  assume "lru_unbounded q" and "lru_items q = (k, v) # xs"
  then show "lru_remove_head q = (Ok (Some v), snd (lru_remove q k))"
    using lru_remove_items(1) [of q k]
    by (simp add: lru_remove_head_def lru_first_key_items lru_unbounded_def Let_def case_prod_unfold)
qed (simp_all add: lru_unbounded_def lru_items_distinct lru_insert_items lru_remove_items
      lru_tail_key_items lru_is_empty_items)

interpretation nq: numbered_queue "lru_new None" lru_insert lru_remove lru_remove_head
  lru_get_tail_key lru_is_empty lru_items lru_unbounded
  by unfold_locales

section \<open>Reachable lists\<close>

lemma lru_make_room_items:
  assumes "lru_inv l"
  shows "lru_inv (snd (lru_make_room l))"
    and "lru_cap (snd (lru_make_room l)) = lru_cap l"
    and "set (lru_items (snd (lru_make_room l))) \<subseteq> set (lru_items l)"
proof -
  have "lru_inv (snd (lru_make_room l)) \<and> lru_cap (snd (lru_make_room l)) = lru_cap l \<and>
      set (lru_items (snd (lru_make_room l))) \<subseteq> set (lru_items l)"
  proof (cases "lru_items l")
    case Nil
    then show ?thesis
      using assms by (auto simp: lru_make_room_def lru_remove_head_empty split: option.split)
  next
    case (Cons p xs)
    then show ?thesis
      using assms lru_remove_head_items [OF assms, of "fst p" "snd p" xs]
      by (auto simp: lru_make_room_def split: option.split)
  qed
  then show "lru_inv (snd (lru_make_room l))"
    and "lru_cap (snd (lru_make_room l)) = lru_cap l"
    and "set (lru_items (snd (lru_make_room l))) \<subseteq> set (lru_items l)" by auto
qed

lemma lru_push_items:
  assumes "lru_inv l" and "k \<notin> fst ` set (lru_items l)"
  shows "lru_inv (lru_push l k v)" and "lru_items (lru_push l k v) = lru_items l @ [(k, v)]"
proof -
  from assms(1) obtain cs where r: "lru_rep l cs" by (auto simp: lru_inv_def)
  have k: "k \<notin> ckey ` set cs" using assms(2) cells_keys [of cs] r by (simp add: lru_rep_items)
  note rep = lru_push_rep [OF r k]
  show "lru_inv (lru_push l k v)" using rep by (auto simp: lru_inv_def)
  show "lru_items (lru_push l k v) = lru_items l @ [(k, v)]"
    using lru_rep_items [OF rep] lru_rep_items [OF r] by simp
qed

lemma lru_insert_inv [inv_intros]:
  assumes "lru_inv l"
  shows "lru_inv (snd (lru_insert l k v))"
proof (cases "lru_contains l k")
  case True
  with assms show ?thesis by (simp add: lru_insert_def)
next
  case False
  note mr = lru_make_room_items [OF assms]
  have "k \<notin> fst ` set (lru_items (snd (lru_make_room l)))"
    using False mr(3) by (auto simp: lru_contains_items [OF assms])
  with False mr(1) show ?thesis
    by (auto simp: lru_insert_def lru_push_items split: prod.split result.split)
qed

lemma lru_remove_head_inv [inv_intros]: "lru_inv l \<Longrightarrow> lru_inv (snd (lru_remove_head l))"
  using lru_remove_items(2)
  by (auto simp: lru_remove_head_def Let_def case_prod_unfold split: option.split)

inductive lru_reach :: "('k, 'v) lru \<Rightarrow> bool" where
  reach_new: "lru_reach (lru_new c)"
| reach_insert: "lru_reach l \<Longrightarrow> lru_reach (snd (lru_insert l k v))"
| reach_remove: "lru_reach l \<Longrightarrow> lru_reach (snd (lru_remove l k))"
| reach_remove_head: "lru_reach l \<Longrightarrow> lru_reach (snd (lru_remove_head l))"

lemma lru_reach_inv: "lru_reach l \<Longrightarrow> lru_inv l"
  by (induction rule: lru_reach.induct)
     (auto intro: lru_new_inv lru_insert_inv lru_remove_items(2) lru_remove_head_inv)

section \<open>Properties\<close>

text \<open>
  C24. However the list has been built, the walk along the backward links from the tail is
  the reverse of the walk along the forward links from the head, no key occurs twice, and
  the keys on the links are exactly the keys of the hash map.
\<close>

theorem lru_links_consistent:
  assumes "lru_reach l"
  shows "ref_from_tail l = rev (ref_from_head l) \<and> distinct (ref_from_head l) \<and>
         length (ref_from_head l) = lru_len l \<and>
         (\<forall>k. lru_contains l k \<longleftrightarrow> k \<in> set (ref_from_head l))"
proof -
  obtain cs where r: "lru_rep l cs" using lru_reach_inv [OF assms] by (auto simp: lru_inv_def)
  show ?thesis
    using lru_repD(3) [OF r]
    by (simp add: lru_rep_walk [OF r] lru_rep_walk_back [OF r] lru_len_def lru_rep_length [OF r]
        lru_rep_contains [OF r])
qed

definition lru_example :: "(nat, string) lru" where
  "lru_example = snd (lru_insert (snd (lru_insert (snd (lru_insert (lru_new None) 1 ''a'')) 2 ''b'')) 3 ''c'')"

lemma lru_example_reach: "lru_reach lru_example"
  unfolding lru_example_def by (intro reach_insert reach_new)

lemma lru_example_items: "lru_items lru_example = [(1, ''a''), (2, ''b''), (3, ''c'')]"
  by (simp add: lru_example_def lru_insert_items lru_items_distinct)

theorem lru_links_consistent_witness:
  "ref_from_tail (snd (lru_remove lru_example 2)) = rev (ref_from_head (snd (lru_remove lru_example 2)))"
  using lru_links_consistent [OF reach_remove [OF lru_example_reach, of 2]] by simp

text \<open>
  C26. Removal by key returns the value stored under the key (nothing if there is none),
  takes exactly that entry out of the list, keeps the order of the others and keeps the
  linked structure well formed.
\<close>

theorem lru_remove_refines:
  assumes "lru_inv l" and "lru_remove l k = (r, l')"
  shows "r = map_of (lru_items l) k \<and> lru_inv l' \<and>
         lru_items l' = filter (\<lambda>p. fst p \<noteq> k) (lru_items l)"
  using lru_remove_items [OF assms(1), of k] assms(2) by simp

theorem lru_remove_refines_witness:
  "fst (lru_remove lru_example 2) = Some ''b'' \<and>
   lru_items (snd (lru_remove lru_example 2)) = [(1, ''a''), (3, ''c'')]"
  using lru_remove_refines [OF lru_reach_inv [OF lru_example_reach] surjective_pairing, of 2]
  by (simp add: lru_example_items)

text \<open>
  C28. Insertion on every branch: a present key is an error and changes nothing; below the
  capacity (or without one) the entry is appended; at the capacity the head is dropped
  first; a list of capacity 0 refuses every insertion.
\<close>

theorem lru_insert_refines:
  assumes inv: "lru_inv l" and ins: "lru_insert l k v = (r, l')"
  shows "if k \<in> fst ` set (lru_items l) then r = Err (LruKeyExisted k) \<and> l' = l
         else (case lru_cap l of
                 None \<Rightarrow> r = Ok () \<and> lru_inv l' \<and> lru_items l' = lru_items l @ [(k, v)]
               | Some c \<Rightarrow>
                   if length (lru_items l) < c
                   then r = Ok () \<and> lru_inv l' \<and> lru_items l' = lru_items l @ [(k, v)]
                   else if lru_items l = [] then r = Err LruNoFirstKey \<and> l' = l
                   else r = Ok () \<and> lru_inv l' \<and> lru_items l' = tl (lru_items l) @ [(k, v)])"
proof (cases "lru_items l")
  case Nil
  then show ?thesis
    using lru_push_items [OF inv, of k v] ins
    by (auto simp: lru_insert_def lru_make_room_def lru_contains_items [OF inv] lru_len_items [OF inv]
        lru_remove_head_empty [OF inv] split: option.splits if_splits)
next
  case (Cons p xs)
  then obtain l1 where rm: "lru_remove_head l = (Ok (Some (snd p)), l1)" and i1: "lru_inv l1"
    and it1: "lru_items l1 = xs"
    using lru_remove_head_items [OF inv, of "fst p" "snd p" xs] by (cases "lru_remove_head l") auto
  show ?thesis
    using lru_push_items [OF inv, of k v] lru_push_items [OF i1, of k v] ins Cons it1 rm
    by (auto simp: lru_insert_def lru_make_room_def lru_contains_items [OF inv] lru_len_items [OF inv]
        split: option.splits if_splits)
qed

theorem lru_insert_refines_witness:
  "fst (lru_insert lru_example 2 ''z'') = Err (LruKeyExisted 2) \<and>
   fst (lru_insert (lru_new (Some 0) :: (nat, string) lru) 1 ''a'') = Err LruNoFirstKey"
  using lru_insert_refines [OF lru_reach_inv [OF lru_example_reach] surjective_pairing, of 2 "''z''"]
    lru_insert_refines [OF lru_new_inv [of "Some 0"] surjective_pairing, of "1::nat" "''a''"]
  by (simp add: lru_example_items)

end
