(* ===== verification/Ordered_Map.thy ===== *)
theory Ordered_Map
  imports Prelude
begin

text \<open>
  The standard library's \<open>BTreeMap\<close>, as far as the cache uses it: an association list
  sorted strictly by key, with lookup, insertion, removal and the first entry of the
  iteration order. The interface is the locale \<open>ordered_map\<close>; the interpretation at the
  end discharges its laws for the sorted lists.
\<close>

section \<open>Interface\<close>

locale ordered_map =
  fixes empty :: "'m"
    and get :: "'m \<Rightarrow> 'k::linorder \<Rightarrow> 'v option"
    and insert :: "'k \<Rightarrow> 'v \<Rightarrow> 'm \<Rightarrow> 'm"
    and remove :: "'k \<Rightarrow> 'm \<Rightarrow> 'm"
    and first :: "'m \<Rightarrow> ('k \<times> 'v) option"
    and invar :: "'m \<Rightarrow> bool"
  assumes get_empty: "get empty k = None"
    and get_insert: "invar m \<Longrightarrow> get (insert k v m) j = (if j = k then Some v else get m j)"
    and get_remove: "invar m \<Longrightarrow> get (remove k m) j = (if j = k then None else get m j)"
    and first_None: "invar m \<Longrightarrow> first m = None \<longleftrightarrow> (\<forall>k. get m k = None)"
    and first_Some: "invar m \<Longrightarrow> first m = Some (k, v) \<Longrightarrow>
           get m k = Some v \<and> (\<forall>j. get m j \<noteq> None \<longrightarrow> k \<le> j)"
    and invar_empty: "invar empty"
    and invar_insert: "invar m \<Longrightarrow> invar (insert k v m)"
    and invar_remove: "invar m \<Longrightarrow> invar (remove k m)"
begin

lemma first_get: "invar m \<Longrightarrow> first m = Some (k, v) \<Longrightarrow> get m k = Some v"
  using first_Some by blast

lemma first_least: "invar m \<Longrightarrow> first m = Some (k, v) \<Longrightarrow> get m j = Some w \<Longrightarrow> k \<le> j"
  using first_Some by fastforce

lemma ex_first: "invar m \<Longrightarrow> get m j = Some w \<Longrightarrow> \<exists>k v. first m = Some (k, v)"
  using first_None by (cases "first m") auto

end

section \<open>Sorted association lists\<close>

type_synonym ('k, 'v) btree = "('k \<times> 'v) list"

definition bt_get :: "('k, 'v) btree \<Rightarrow> 'k \<Rightarrow> 'v option" where
  "bt_get m k = map_of m k"

fun bt_insert :: "'k::linorder \<Rightarrow> 'v \<Rightarrow> ('k, 'v) btree \<Rightarrow> ('k, 'v) btree" where
  "bt_insert k v [] = [(k, v)]"
| "bt_insert k v (p # m) =
     (if k < fst p then (k, v) # p # m
      else if k = fst p then (k, v) # m
      else p # bt_insert k v m)"

definition bt_remove :: "'k \<Rightarrow> ('k, 'v) btree \<Rightarrow> ('k, 'v) btree" where
  "bt_remove k m = filter (\<lambda>p. fst p \<noteq> k) m"

fun bt_first :: "('k, 'v) btree \<Rightarrow> ('k \<times> 'v) option" where
  "bt_first [] = None"
| "bt_first (p # m) = Some p"

definition bt_inv :: "('k::linorder, 'v) btree \<Rightarrow> bool" where
  "bt_inv m = sorted_wrt (<) (map fst m)"

lemma bt_get_Nil [simp]: "bt_get [] k = None"
  by (simp add: bt_get_def)

lemma bt_inv_Nil [simp]: "bt_inv []"
  by (simp add: bt_inv_def)

lemma bt_inv_Cons: "bt_inv (p # m) \<longleftrightarrow> (\<forall>q \<in> set m. fst p < fst q) \<and> bt_inv m"
  by (auto simp: bt_inv_def)

lemma bt_get_insert_list:
  "bt_inv m \<Longrightarrow> bt_get (bt_insert k v m) j = (if j = k then Some v else bt_get m j)"
  by (induction m) (auto simp: bt_get_def bt_inv_Cons)

lemma bt_get_remove_list: "bt_get (bt_remove k m) j = (if j = k then None else bt_get m j)"
  by (induction m) (auto simp: bt_get_def bt_remove_def)

lemma set_bt_insert: "set (bt_insert k v m) \<subseteq> insert (k, v) (set m)"
  by (induction m) auto

lemma bt_inv_insert_list: "bt_inv m \<Longrightarrow> bt_inv (bt_insert k v m)"
proof (induction m)
  case Nil
  then show ?case by (simp add: bt_inv_Cons)
next
  case (Cons p m)
  have sub: "set (bt_insert k v m) \<subseteq> insert (k, v) (set m)" by (rule set_bt_insert)
  show ?case using Cons sub by (force simp: bt_inv_Cons)
qed

lemma bt_inv_remove_list: "bt_inv m \<Longrightarrow> bt_inv (bt_remove k m)"
  by (induction m) (auto simp: bt_inv_Cons bt_remove_def)

lemma bt_get_in: "bt_get m k = Some v \<Longrightarrow> (k, v) \<in> set m"
  by (simp add: bt_get_def map_of_SomeD)

lemma bt_get_iff: "bt_inv m \<Longrightarrow> bt_get m k = Some v \<longleftrightarrow> (k, v) \<in> set m"
  by (induction m) (auto simp: bt_inv_Cons bt_get_def)

lemma bt_first_None_list: "bt_first m = None \<longleftrightarrow> (\<forall>k. bt_get m k = None)"
  by (cases m) (auto simp: bt_get_def split: if_splits)

lemma bt_first_Some_list:
  assumes "bt_inv m" and "bt_first m = Some (k, v)"
  shows "bt_get m k = Some v \<and> (\<forall>j. bt_get m j \<noteq> None \<longrightarrow> k \<le> j)"
proof (cases m)
  case Nil
  with assms show ?thesis by simp
next
  case (Cons p m')
  with assms have p: "p = (k, v)" by simp
  have "k \<le> j" if j: "bt_get m j = Some w" for j w
  proof -
    from j have "(j, w) \<in> set m" by (rule bt_get_in)
    with assms(1) Cons p show ?thesis by (force simp: bt_inv_Cons)
  qed
  with Cons p show ?thesis by (auto simp: bt_get_def)
qed

interpretation bt: ordered_map "[]" bt_get bt_insert bt_remove bt_first bt_inv
  by unfold_locales
     (auto simp: bt_get_insert_list bt_get_remove_list bt_first_None_list bt_inv_insert_list
       bt_inv_remove_list dest: bt_first_Some_list)

lemmas bt_simps = bt.get_insert bt.get_remove bt.invar_insert bt.invar_remove bt.get_empty

lemma bt_remove_absent: "bt_get m k = None \<Longrightarrow> bt_remove k m = m"
  by (auto simp: bt_remove_def bt_get_def map_of_eq_None_iff filter_id_conv)

lemma length_bt_insert_fresh: "bt_get m k = None \<Longrightarrow> length (bt_insert k v m) = Suc (length m)"
  by (induction m) (auto simp: bt_get_def split: if_splits)

lemma length_bt_remove: "bt_inv m \<Longrightarrow> bt_get m k = Some v \<Longrightarrow> length m = Suc (length (bt_remove k m))"
proof (induction m)
  case Nil
  then show ?case by simp
next
  case (Cons p m)
  show ?case
  proof (cases "fst p = k")
    case True
    with Cons.prems have "filter (\<lambda>q. fst q \<noteq> k) m = m"
      by (auto simp: bt_inv_Cons filter_id_conv)
    with True show ?thesis by (simp add: bt_remove_def)
  next
    case False
    with Cons show ?thesis by (cases p) (auto simp: bt_remove_def bt_inv_Cons bt_get_def)
  qed
qed

end
