(* ===== verification/Tlrfu.thy ===== *)
theory Tlrfu
  imports Lru Ordered_Map
begin

text \<open>
  The byte cache of the gateway, \<open>cache/tlrfu.rs\<close>: least frequently used first, least
  recently used inside a frequency, with a time to live per entry. The store maps a key to
  its data, one numbered queue per frequency gives the eviction order, and an ordered map
  from expiry time to key gives the order of expiry. A reading of the system clock is an
  argument of the operation that takes it; \<open>None\<close> is a clock before the UNIX epoch. An
  operation returns its result together with the state it leaves, on error paths too.
\<close>

section \<open>State\<close>

record tl_data =
  td_value :: bytes
  td_freq :: nat
  td_lru_k :: nat
  td_ttl :: nat

type_synonym bucket = "(nat, string) lru"

record tlrfu =
  tl_store :: "(string, tl_data) hmap"
  tl_freq :: "(nat, bucket) btree"
  tl_ttl :: "(nat, string) btree"
  tl_used :: nat
  tl_max :: nat
  tl_ttl_buf :: nat

datatype tl_error =
    TlKeyExisted string
  | TlFreqEmpty
  | TlNoHeadKey nat
  | TlLru "nat lru_error"
  | TlNotInStore string
  | TlNotAtFreq string nat
  | TlLruKeyMissing nat nat
  | TlLruInsert nat string
  | TlTtlMissing nat
  | TlClock

section \<open>Operations\<close>

definition byte_size :: "bytes \<Rightarrow> nat" where
  "byte_size v = length v"

definition tl_new :: "nat \<Rightarrow> nat \<Rightarrow> tlrfu" where
  "tl_new m b = \<lparr>tl_store = [], tl_freq = [], tl_ttl = [], tl_used = 0, tl_max = m, tl_ttl_buf = b\<rparr>"

definition tl_contains :: "tlrfu \<Rightarrow> string \<Rightarrow> bool" where
  "tl_contains c k = hm_contains (tl_store c) k"

definition tl_is_size_exceeded :: "tlrfu \<Rightarrow> nat \<Rightarrow> bool" where
  "tl_is_size_exceeded c n = (tl_max c < u64_add (tl_used c) n)"

definition tl_dirty_get :: "tlrfu \<Rightarrow> string \<Rightarrow> bytes option" where
  "tl_dirty_get c k = map_option td_value (hm_get (tl_store c) k)"

text \<open>
  The steps that several operations share: the bucket written back after a removal (an
  empty one leaves the map), the bucket of a frequency or a new one, its next number.
\<close>

definition put_back :: "nat \<Rightarrow> bucket \<Rightarrow> (nat, bucket) btree \<Rightarrow> (nat, bucket) btree" where
  "put_back f l m = (if lru_is_empty l then bt_remove f m else bt_insert f l m)"

definition bucket_or_new :: "(nat, bucket) btree \<Rightarrow> nat \<Rightarrow> bucket" where
  "bucket_or_new m f = (case bt_get m f of None \<Rightarrow> lru_new None | Some l \<Rightarrow> l)"

definition next_number :: "bucket \<Rightarrow> nat" where
  "next_number l = (case lru_get_tail_key l of None \<Rightarrow> 0 | Some t \<Rightarrow> u64_add t 1)"

text \<open>The part of \<open>get\<close> that renews the time to live.\<close>

definition tl_renew ::
  "tlrfu \<Rightarrow> string \<Rightarrow> tl_data \<Rightarrow> nat option \<Rightarrow> (bytes option, tl_error) result \<times> tlrfu" where
  "tl_renew c k d now =
     (case bt_get (tl_ttl c) (td_ttl d) of
        None \<Rightarrow> (Err (TlTtlMissing (td_ttl d)), c)
      | Some key \<Rightarrow>
          (let c1 = c\<lparr>tl_ttl := bt_remove (td_ttl d) (tl_ttl c)\<rparr>
           in case now of
                None \<Rightarrow> (Err TlClock, c1)
              | Some t \<Rightarrow>
                  (let ttl = u128_add t (tl_ttl_buf c1)
                   in (Ok (Some (td_value d)),
                       c1\<lparr>tl_store := hm_insert k (d\<lparr>td_ttl := ttl\<rparr>) (tl_store c1),
                          tl_ttl := bt_insert ttl key (tl_ttl c1)\<rparr>))))"

definition tl_get :: "tlrfu \<Rightarrow> string \<Rightarrow> nat option \<Rightarrow> (bytes option, tl_error) result \<times> tlrfu" where
  "tl_get c k now =
     (case hm_get (tl_store c) k of
        None \<Rightarrow> (Ok None, c)
      | Some d \<Rightarrow>
          (case bt_get (tl_freq c) (td_freq d) of
             None \<Rightarrow> (Err (TlNotAtFreq k (td_freq d)), c)
           | Some l \<Rightarrow>
               (case lru_remove l (td_lru_k d) of
                  (None, l1) \<Rightarrow>
                    (Err (TlLruKeyMissing (td_lru_k d) (td_freq d)),
                     c\<lparr>tl_freq := bt_insert (td_freq d) l1 (tl_freq c)\<rparr>)
                | (Some key, l1) \<Rightarrow>
                    (let m1 = put_back (td_freq d) l1 (tl_freq c);
                         f = u64_add (td_freq d) 1;
                         d1 = d\<lparr>td_freq := f\<rparr>;
                         n = next_number (bucket_or_new m1 f)
                     in case lru_insert (bucket_or_new m1 f) n key of
                          (Ok _, l2) \<Rightarrow>
                            (let d2 = d1\<lparr>td_lru_k := n\<rparr>
                             in tl_renew (c\<lparr>tl_store := hm_insert k d2 (tl_store c),
                                           tl_freq := bt_insert f l2 m1\<rparr>) k d2 now)
                        | (_, l2) \<Rightarrow>
                            (Err (TlLruInsert n k),
                             c\<lparr>tl_store := hm_insert k d1 (tl_store c),
                               tl_freq := bt_insert f l2 m1\<rparr>)))))"

text \<open>One turn of the eviction loop of \<open>insert\<close>.\<close>

definition tl_evict_one :: "tlrfu \<Rightarrow> (unit, tl_error) result \<times> tlrfu" where
  "tl_evict_one c =
     (case bt_first (tl_freq c) of
        None \<Rightarrow> (Err TlFreqEmpty, c)
      | Some (f, l) \<Rightarrow>
          (case lru_remove_head l of
             (Ok (Some key), l1) \<Rightarrow>
               (case hm_get (tl_store c) key of
                  None \<Rightarrow> (Err (TlNotInStore key), c\<lparr>tl_freq := bt_insert f l1 (tl_freq c)\<rparr>)
                | Some d \<Rightarrow>
                    (Ok (), c\<lparr>tl_store := hm_remove key (tl_store c),
                              tl_freq := put_back f l1 (tl_freq c),
                              tl_used := u64_sub (tl_used c) (byte_size (td_value d)),
                              tl_ttl := bt_remove (td_ttl d) (tl_ttl c)\<rparr>))
           | (Ok None, l1) \<Rightarrow> (Err (TlNoHeadKey f), c\<lparr>tl_freq := bt_insert f l1 (tl_freq c)\<rparr>)
           | (Err e, l1) \<Rightarrow> (Err (TlLru e), c\<lparr>tl_freq := bt_insert f l1 (tl_freq c)\<rparr>)
           | (Panic, l1) \<Rightarrow> (Panic, c\<lparr>tl_freq := bt_insert f l1 (tl_freq c)\<rparr>)))"

lemma tl_evict_one_store:
  assumes "tl_evict_one c = (Ok u, c')"
  shows "length (tl_store c') < length (tl_store c)"
  using assms
  by (auto simp: tl_evict_one_def length_hm_remove_less split: option.splits prod.splits result.splits)

function tl_evict :: "nat \<Rightarrow> tlrfu \<Rightarrow> (unit, tl_error) result \<times> tlrfu" where
  "tl_evict n c =
     (if tl_is_size_exceeded c n
      then (case tl_evict_one c of
              (Ok _, c') \<Rightarrow> tl_evict n c'
            | (Err e, c') \<Rightarrow> (Err e, c')
            | (Panic, c') \<Rightarrow> (Panic, c'))
      else (Ok (), c))"
  by pat_completeness auto
termination
  by (relation "measure (\<lambda>(n, c). length (tl_store c))") (auto dest: tl_evict_one_store [OF sym])

declare tl_evict.simps [simp del]

definition tl_insert ::
  "tlrfu \<Rightarrow> string \<Rightarrow> bytes \<Rightarrow> nat option \<Rightarrow> (unit, tl_error) result \<times> tlrfu" where
  "tl_insert c k v now =
     (if tl_contains c k then (Err (TlKeyExisted k), c)
      else (case tl_evict (byte_size v) c of
              (Err e, c1) \<Rightarrow> (Err e, c1)
            | (Panic, c1) \<Rightarrow> (Panic, c1)
            | (Ok _, c1) \<Rightarrow>
                (let l = bucket_or_new (tl_freq c1) 1;
                     n = next_number l
                 in case lru_insert l n k of
                      (Ok _, l1) \<Rightarrow>
                        (let c2 = c1\<lparr>tl_freq := bt_insert 1 l1 (tl_freq c1),
                                     tl_used := u64_add (tl_used c1) (byte_size v)\<rparr>
                         in case now of
                              None \<Rightarrow> (Err TlClock, c2)
                            | Some t \<Rightarrow>
                                (let ttl = u128_add t (tl_ttl_buf c2)
                                 in (Ok (), c2\<lparr>tl_store := hm_insert k \<lparr>td_value = v, td_freq = 1,
                                                     td_lru_k = n, td_ttl = ttl\<rparr> (tl_store c2),
                                               tl_ttl := bt_insert ttl k (tl_ttl c2)\<rparr>)))
                    | (_, l1) \<Rightarrow>
                        (Err (TlLruInsert n k), c1\<lparr>tl_freq := bt_insert 1 l1 (tl_freq c1)\<rparr>))))"

text \<open>
  One turn of the loop of \<open>process_ttl_clean_up\<close>: \<open>Ok False\<close> when nothing (more) is due.
  The entry that is dropped from the expiry map is the one the data names.
\<close>

definition tl_expire_one :: "nat option \<Rightarrow> tlrfu \<Rightarrow> (bool, tl_error) result \<times> tlrfu" where
  "tl_expire_one now c =
     (case bt_first (tl_ttl c) of
        None \<Rightarrow> (Ok False, c)
      | Some (ttl, key) \<Rightarrow>
          (case now of
             None \<Rightarrow> (Err TlClock, c)
           | Some t \<Rightarrow>
               if t < ttl then (Ok False, c)
               else (case hm_get (tl_store c) key of
                       None \<Rightarrow> (Err (TlNotInStore key), c)
                     | Some d \<Rightarrow>
                         (let c1 = c\<lparr>tl_store := hm_remove key (tl_store c)\<rparr>
                          in case bt_get (tl_freq c1) (td_freq d) of
                               None \<Rightarrow> (Err (TlNotAtFreq key (td_freq d)), c1)
                             | Some l \<Rightarrow>
                                 (case lru_remove l (td_lru_k d) of
                                    (None, l1) \<Rightarrow>
                                      (Err (TlLruKeyMissing (td_lru_k d) (td_freq d)),
                                       c1\<lparr>tl_freq := bt_insert (td_freq d) l1 (tl_freq c1)\<rparr>)
                                  | (Some _, l1) \<Rightarrow>
                                      (Ok True,
                                       c1\<lparr>tl_freq := put_back (td_freq d) l1 (tl_freq c1),
                                          tl_used := u64_sub (tl_used c1) (byte_size (td_value d)),
                                          tl_ttl := bt_remove (td_ttl d) (tl_ttl c1)\<rparr>))))))"

lemma tl_expire_one_store:
  assumes "tl_expire_one now c = (Ok True, c')"
  shows "length (tl_store c') < length (tl_store c)"
  using assms
  by (auto simp: tl_expire_one_def Let_def length_hm_remove_less
      split: option.splits prod.splits if_splits)

function tl_clean :: "(nat \<Rightarrow> nat option) \<Rightarrow> nat \<Rightarrow> tlrfu \<Rightarrow> (nat, tl_error) result \<times> tlrfu" where
  "tl_clean now count c =
     (case tl_expire_one (now count) c of
        (Ok True, c') \<Rightarrow> tl_clean now (Suc count) c'
      | (Ok False, c') \<Rightarrow> (Ok count, c')
      | (Err e, c') \<Rightarrow> (Err e, c')
      | (Panic, c') \<Rightarrow> (Panic, c'))"
  by pat_completeness auto
termination
  by (relation "measure (\<lambda>(now, n, c). length (tl_store c))") (auto dest: tl_expire_one_store [OF sym])

declare tl_clean.simps [simp del]

text \<open>\<open>now i\<close> is the reading of the clock in turn \<open>i\<close> of the loop.\<close>

definition tl_process_ttl_clean_up ::
  "(nat \<Rightarrow> nat option) \<Rightarrow> tlrfu \<Rightarrow> (nat, tl_error) result \<times> tlrfu" where
  "tl_process_ttl_clean_up now c = tl_clean now 0 c"

definition tl_purge :: "tlrfu \<Rightarrow> tlrfu" where
  "tl_purge c = c\<lparr>tl_store := [], tl_freq := [], tl_ttl := [], tl_used := 0\<rparr>"

section \<open>Buckets\<close>

text \<open>
  \<open>freq_at m f i k\<close>: the bucket of frequency \<open>f\<close> holds key \<open>k\<close> under number \<open>i\<close>. The two
  lemmas below say how taking an entry out and appending one change this relation; the
  operations of the cache are argued with them alone.
\<close>

definition bucket_ok :: "bucket \<Rightarrow> bool" where
  "bucket_ok l \<longleftrightarrow> lru_unbounded l \<and> lru_items l \<noteq> [] \<and> sorted_wrt (<) (map fst (lru_items l))"

definition freq_ok :: "(nat, bucket) btree \<Rightarrow> bool" where
  "freq_ok m \<longleftrightarrow> bt_inv m \<and> (\<forall>f l. bt_get m f = Some l \<longrightarrow> bucket_ok l)"

definition freq_at :: "(nat, bucket) btree \<Rightarrow> nat \<Rightarrow> nat \<Rightarrow> string \<Rightarrow> bool" where
  "freq_at m f i k \<longleftrightarrow> (\<exists>l. bt_get m f = Some l \<and> (i, k) \<in> set (lru_items l))"

lemma freq_ok_Nil [simp]: "freq_ok []"
  by (simp add: freq_ok_def)

lemma freq_at_Nil [simp]: "\<not> freq_at [] f i k"
  by (simp add: freq_at_def)

lemma freq_take:
  assumes ok: "freq_ok m" and l: "bt_get m f = Some l" and i: "(i, k) \<in> set (lru_items l)"
  shows "fst (lru_remove l i) = Some k"
    and "freq_ok (put_back f (snd (lru_remove l i)) m)"
    and "freq_at (put_back f (snd (lru_remove l i)) m) g j x \<longleftrightarrow> freq_at m g j x \<and> (g, j) \<noteq> (f, i)"
proof -
  from ok have b: "bt_inv m" by (simp add: freq_ok_def)
  from ok l have u: "lru_unbounded l" and s: "sorted_wrt (<) (map fst (lru_items l))"
    by (auto simp: freq_ok_def bucket_ok_def)
  let ?l = "snd (lru_remove l i)"
  have u': "lru_unbounded ?l" using u by (rule lq.remove_inv)
  have s': "sorted_wrt (<) (map fst (lru_items ?l))" using nq.remove_ascending u s by blast
  have e: "lru_is_empty ?l \<longleftrightarrow> lru_items ?l = []" using u' by (rule lq.is_empty_eq)
  show "fst (lru_remove l i) = Some k" by (rule lq.remove_found [OF u i])
  show "freq_ok (put_back f ?l m)"
    using ok b u' s' e by (auto simp: freq_ok_def put_back_def bt_simps bucket_ok_def)
  show "freq_at (put_back f ?l m) g j x \<longleftrightarrow> freq_at m g j x \<and> (g, j) \<noteq> (f, i)"
    using b l e lq.remove_mem [OF u, of j x i] by (auto simp: freq_at_def put_back_def bt_simps)
qed

text \<open>Numbers below the largest \<open>usize\<close>, so that the next number does not wrap around.\<close>

definition numbers_below :: "(nat, bucket) btree \<Rightarrow> bool" where
  "numbers_below m \<longleftrightarrow> (\<forall>f i k. freq_at m f i k \<longrightarrow> i < u64_max)"

lemma bucket_or_new_ok:
  assumes "freq_ok m"
  shows "lru_unbounded (bucket_or_new m f)"
    and "sorted_wrt (<) (map fst (lru_items (bucket_or_new m f)))"
    and "(i, k) \<in> set (lru_items (bucket_or_new m f)) \<longleftrightarrow> freq_at m f i k"
  using assms lq.invar_new lq.items_new
  by (auto simp: freq_ok_def bucket_or_new_def bucket_ok_def freq_at_def split: option.splits)

lemma next_number_eq:
  assumes "freq_ok m" and "numbers_below m"
  shows "next_number (bucket_or_new m f) =
    (case lru_get_tail_key (bucket_or_new m f) of None \<Rightarrow> 0 | Some t \<Rightarrow> Suc t)"
proof (cases "lru_items (bucket_or_new m f) = []")
  case True
  then show ?thesis
    using lq.tail_key_eq [OF bucket_or_new_ok(1) [OF assms(1)], of f] by (simp add: next_number_def)
next
  case False
  let ?p = "last (lru_items (bucket_or_new m f))"
  have "(fst ?p, snd ?p) \<in> set (lru_items (bucket_or_new m f))" using False by simp
  then have "fst ?p < u64_max"
    using assms bucket_or_new_ok(3) [OF assms(1)] unfolding numbers_below_def by blast
  then have "u64_add (fst ?p) 1 = Suc (fst ?p)" by (simp add: u64_add_def u64_max_def)
  with False show ?thesis
    using lq.tail_key_eq [OF bucket_or_new_ok(1) [OF assms(1)], of f] by (simp add: next_number_def)
qed

lemma freq_push:
  assumes ok: "freq_ok m" and nb: "numbers_below m"
    and n: "n = next_number (bucket_or_new m f)"
  obtains l' where "lru_insert (bucket_or_new m f) n k = (Ok (), l')"
    and "freq_ok (bt_insert f l' m)"
    and "\<And>g j x. freq_at (bt_insert f l' m) g j x \<longleftrightarrow> freq_at m g j x \<or> (g, j, x) = (f, n, k)"
    and "\<And>x. \<not> freq_at m f n x"
    and "lru_items l' = lru_items (bucket_or_new m f) @ [(n, k)]"
proof -
  let ?l = "bucket_or_new m f"
  let ?l' = "snd (lru_insert ?l n k)"
  from ok have b: "bt_inv m" by (simp add: freq_ok_def)
  note nn = n [unfolded next_number_eq [OF ok nb]]
  note push = nq.push_next [OF bucket_or_new_ok(1,2) [OF ok] nn]
  note mem = bucket_or_new_ok(3) [OF ok, of _ _ f]
  have fresh: "\<not> freq_at m f n x" for x
    using nq.next_fresh [OF bucket_or_new_ok(1,2) [OF ok] nn] mem [of n x] by fastforce
  show thesis
  proof (rule that)
    show "lru_insert ?l n k = (Ok (), ?l')" using push(1) by (metis prod.collapse)
    show "freq_ok (bt_insert f ?l' m)"
      using ok b push(2,3,4) by (auto simp: freq_ok_def bt_simps bucket_ok_def)
    show "freq_at (bt_insert f ?l' m) g j x \<longleftrightarrow> freq_at m g j x \<or> (g, j, x) = (f, n, k)" for g j x
      using b mem [of j x] by (auto simp: freq_at_def bt_simps push(3))
    show "\<not> freq_at m f n x" for x by (rule fresh)
    show "lru_items ?l' = lru_items ?l @ [(n, k)]" by (rule push(3))
  qed
qed

section \<open>Invariants\<close>

text \<open>
  \<open>tl_core\<close> ties the store to the buckets and to the size counter; \<open>tl_times\<close> ties it to
  the expiry map. The first survives every operation with a working clock, the second
  needs expiry times that do not collide.
\<close>

definition tl_place :: "tlrfu \<Rightarrow> string \<Rightarrow> (nat \<times> nat) option" where
  "tl_place c k = map_option (\<lambda>d. (td_freq d, td_lru_k d)) (hm_get (tl_store c) k)"

definition tl_expiry :: "tlrfu \<Rightarrow> string \<Rightarrow> nat option" where
  "tl_expiry c k = map_option td_ttl (hm_get (tl_store c) k)"

definition tl_core :: "tlrfu \<Rightarrow> bool" where
  "tl_core c \<longleftrightarrow>
     hm_inv (tl_store c) \<and> freq_ok (tl_freq c) \<and>
     (\<forall>f i k. freq_at (tl_freq c) f i k \<longleftrightarrow> tl_place c k = Some (f, i)) \<and>
     tl_used c = hm_sum (\<lambda>d. byte_size (td_value d)) (tl_store c) \<and>
     tl_used c \<le> tl_max c \<and> tl_max c < 2 ^ 64"

definition tl_times :: "tlrfu \<Rightarrow> bool" where
  "tl_times c \<longleftrightarrow>
     bt_inv (tl_ttl c) \<and>
     (\<forall>t k. bt_get (tl_ttl c) t = Some k \<longleftrightarrow> tl_expiry c k = Some t)"

definition tl_inv :: "tlrfu \<Rightarrow> bool" where
  "tl_inv c \<longleftrightarrow> tl_core c \<and> tl_times c"

lemma tl_coreD:
  assumes "tl_core c"
  shows "hm_inv (tl_store c)" and "freq_ok (tl_freq c)"
    and "freq_at (tl_freq c) f i k \<longleftrightarrow> tl_place c k = Some (f, i)"
    and "tl_used c = hm_sum (\<lambda>d. byte_size (td_value d)) (tl_store c)"
    and "tl_used c \<le> tl_max c" and "tl_max c < 2 ^ 64"
  using assms by (auto simp: tl_core_def)

lemma tl_new_inv [simp]: "m < 2 ^ 64 \<Longrightarrow> tl_inv (tl_new m b)"
  by (simp add: tl_place_def tl_expiry_def tl_inv_def tl_core_def tl_times_def tl_new_def)

lemma tl_purge_inv [inv_intros]: "tl_core c \<Longrightarrow> tl_inv (tl_purge c)"
  by (simp add: tl_place_def tl_expiry_def tl_inv_def tl_core_def tl_times_def tl_purge_def)

lemma tl_entry_at:
  assumes "tl_core c" and "hm_get (tl_store c) k = Some d"
  obtains l where "bt_get (tl_freq c) (td_freq d) = Some l" and "(td_lru_k d, k) \<in> set (lru_items l)"
  using tl_coreD(3) [OF assms(1), of "td_freq d" "td_lru_k d" k] assms(2) by (auto simp: freq_at_def tl_place_def)

section \<open>Dropping an entry\<close>

text \<open>
  Eviction and expiry both come down to \<open>tl_drop\<close>: the entry leaves the store, its bucket,
  the expiry map and the size counter.
\<close>

definition tl_drop :: "string \<Rightarrow> tl_data \<Rightarrow> tlrfu \<Rightarrow> tlrfu" where
  "tl_drop k d c =
     c\<lparr>tl_store := hm_remove k (tl_store c),
       tl_freq := put_back (td_freq d)
         (snd (lru_remove (bucket_or_new (tl_freq c) (td_freq d)) (td_lru_k d))) (tl_freq c),
       tl_used := u64_sub (tl_used c) (byte_size (td_value d)),
       tl_ttl := bt_remove (td_ttl d) (tl_ttl c)\<rparr>"

lemma tl_drop_fields [simp]:
  "tl_store (tl_drop k d c) = hm_remove k (tl_store c)"
  "tl_max (tl_drop k d c) = tl_max c"
  "tl_ttl_buf (tl_drop k d c) = tl_ttl_buf c"
  "tl_ttl (tl_drop k d c) = bt_remove (td_ttl d) (tl_ttl c)"
  by (simp_all add: tl_drop_def)

lemma tl_drop_used:
  assumes "tl_core c" and "hm_get (tl_store c) k = Some d"
  shows "tl_used (tl_drop k d c) = tl_used c - byte_size (td_value d)"
    and "byte_size (td_value d) \<le> tl_used c"
    and "tl_used (tl_drop k d c) = hm_sum (\<lambda>d. byte_size (td_value d)) (hm_remove k (tl_store c))"
proof -
  have s: "tl_used c = hm_sum (\<lambda>d. byte_size (td_value d)) (hm_remove k (tl_store c)) + byte_size (td_value d)"
    using hm_sum_remove [OF tl_coreD(1) [OF assms(1)] assms(2)] tl_coreD(4) [OF assms(1)] by simp
  then show le: "byte_size (td_value d) \<le> tl_used c" by simp
  moreover have "tl_used c < 2 ^ 64" using tl_coreD(5,6) [OF assms(1)] by linarith
  ultimately show eq: "tl_used (tl_drop k d c) = tl_used c - byte_size (td_value d)"
    by (simp add: tl_drop_def u64_sub_exact)
  show "tl_used (tl_drop k d c) = hm_sum (\<lambda>d. byte_size (td_value d)) (hm_remove k (tl_store c))"
    using s eq by simp
qed

lemma tl_drop_freq_at:
  assumes c: "tl_core c" and k: "hm_get (tl_store c) k = Some d"
  shows "freq_ok (tl_freq (tl_drop k d c))"
    and "freq_at (tl_freq (tl_drop k d c)) g j x \<longleftrightarrow>
         freq_at (tl_freq c) g j x \<and> (g, j) \<noteq> (td_freq d, td_lru_k d)"
proof -
  from tl_entry_at [OF c k] obtain l where l: "bt_get (tl_freq c) (td_freq d) = Some l"
    and i: "(td_lru_k d, k) \<in> set (lru_items l)" .
  have b: "bucket_or_new (tl_freq c) (td_freq d) = l" by (simp add: bucket_or_new_def l)
  show "freq_ok (tl_freq (tl_drop k d c))"
    using freq_take(2) [OF tl_coreD(2) [OF c] l i] by (simp add: tl_drop_def b)
  show "freq_at (tl_freq (tl_drop k d c)) g j x \<longleftrightarrow>
        freq_at (tl_freq c) g j x \<and> (g, j) \<noteq> (td_freq d, td_lru_k d)"
    using freq_take(3) [OF tl_coreD(2) [OF c] l i] by (simp add: tl_drop_def b)
qed

text \<open>A place in the buckets belongs to one key only.\<close>

lemma tl_place_unique:
  assumes c: "tl_core c" and "tl_place c k = Some p" and "tl_place c x = Some p"
  shows "x = k"
proof -
  obtain f i where p: "p = (f, i)" by (cases p)
  with assms(2,3) have "freq_at (tl_freq c) f i k" and "freq_at (tl_freq c) f i x"
    by (simp_all add: tl_coreD(3) [OF c])
  then obtain l where l: "bt_get (tl_freq c) f = Some l" and "(i, k) \<in> set (lru_items l)"
    and "(i, x) \<in> set (lru_items l)" by (auto simp: freq_at_def)
  moreover have "lru_unbounded l" using tl_coreD(2) [OF c] l by (auto simp: freq_ok_def bucket_ok_def)
  ultimately show ?thesis using lq.keys_distinct by (metis eq_key_imp_eq_value)
qed

lemma tl_drop_place [simp]: "tl_place (tl_drop k d c) x = (if x = k then None else tl_place c x)"
  by (simp add: tl_place_def hm_get_remove)

lemma tl_drop_expiry [simp]: "tl_expiry (tl_drop k d c) x = (if x = k then None else tl_expiry c x)"
  by (simp add: tl_expiry_def hm_get_remove)

lemma tl_drop_core [inv_intros]:
  assumes c: "tl_core c" and k: "hm_get (tl_store c) k = Some d"
  shows "tl_core (tl_drop k d c)"
  unfolding tl_core_def
proof (intro conjI allI)
  show "hm_inv (tl_store (tl_drop k d c))" using tl_coreD(1) [OF c] by simp
  show "freq_ok (tl_freq (tl_drop k d c))" by (rule tl_drop_freq_at(1) [OF c k])
  have own: "tl_place c k = Some (td_freq d, td_lru_k d)" using k by (simp add: tl_place_def)
  have other: "x \<noteq> k \<Longrightarrow> tl_place c x \<noteq> Some (td_freq d, td_lru_k d)" for x
    using tl_place_unique [OF c own] by blast
  show "freq_at (tl_freq (tl_drop k d c)) f i x \<longleftrightarrow> tl_place (tl_drop k d c) x = Some (f, i)" for f i x
    using own other [of x]
    by (auto simp: tl_drop_freq_at(2) [OF c k] tl_coreD(3) [OF c])
  show "tl_used (tl_drop k d c) = hm_sum (\<lambda>d. byte_size (td_value d)) (tl_store (tl_drop k d c))"
    by (simp add: tl_drop_used(3) [OF c k])
  show "tl_used (tl_drop k d c) \<le> tl_max (tl_drop k d c)"
    using tl_coreD(5) [OF c] by (simp add: tl_drop_used(1) [OF c k])
  show "tl_max (tl_drop k d c) < 2 ^ 64" using tl_coreD(6) [OF c] by simp
qed

lemma tl_drop_times [inv_intros]:
  assumes "tl_times c" and "hm_get (tl_store c) k = Some d"
  shows "tl_times (tl_drop k d c)"
proof -
  have b: "bt_inv (tl_ttl c)" and iff: "\<And>t k. bt_get (tl_ttl c) t = Some k \<longleftrightarrow> tl_expiry c k = Some t"
    using assms(1) by (auto simp: tl_times_def)
  have own: "tl_expiry c k = Some (td_ttl d)" using assms(2) by (simp add: tl_expiry_def)
  have other: "x \<noteq> k \<Longrightarrow> tl_expiry c x \<noteq> Some (td_ttl d)" for x
    using own iff by (metis option.inject)
  show ?thesis using own b other by (auto simp: tl_times_def bt_simps iff)
qed

lemma tl_evict_one_drop:
  assumes c: "tl_core c" and ne: "tl_store c \<noteq> []"
  obtains f l i k d xs where "tl_evict_one c = (Ok (), tl_drop k d c)"
    and "bt_first (tl_freq c) = Some (f, l)" and "lru_items l = (i, k) # xs"
    and "hm_get (tl_store c) k = Some d" and "td_freq d = f" and "td_lru_k d = i"
proof -
  obtain k0 d0 where "(k0, d0) \<in> set (tl_store c)" using ne by (cases "tl_store c") auto
  then have "hm_get (tl_store c) k0 = Some d0" using hm_get_eq_Some_iff [OF tl_coreD(1) [OF c]] by blast
  from tl_entry_at [OF c this] obtain l0 where "bt_get (tl_freq c) (td_freq d0) = Some l0" by blast
  then have ex: "bt_get (tl_freq c) (td_freq d0) = Some l0" .
  have b: "bt_inv (tl_freq c)" using tl_coreD(2) [OF c] by (simp add: freq_ok_def)
  obtain f l where first: "bt_first (tl_freq c) = Some (f, l)" using bt.ex_first [OF b ex] by blast
  have get: "bt_get (tl_freq c) f = Some l" by (rule bt.first_get [OF b first])
  have u: "lru_unbounded l" and items: "lru_items l \<noteq> []"
    using tl_coreD(2) [OF c] get by (auto simp: freq_ok_def bucket_ok_def)
  then obtain i k xs where it: "lru_items l = (i, k) # xs" by (cases "lru_items l") auto
  then have "freq_at (tl_freq c) f i k" by (auto simp: freq_at_def get)
  then obtain d where d: "hm_get (tl_store c) k = Some d" "td_freq d = f" "td_lru_k d = i"
    by (auto simp: tl_coreD(3) [OF c] tl_place_def)
  have "tl_evict_one c = (Ok (), tl_drop k d c)"
    using lq.remove_head_eq [OF u it] d get
    by (simp add: tl_evict_one_def first tl_drop_def bucket_or_new_def)
  then show thesis using that first it d by blast
qed

section \<open>Eviction\<close>

text \<open>The order of eviction: lower frequency first, then lower number in the bucket.\<close>

definition before :: "nat \<times> nat \<Rightarrow> nat \<times> nat \<Rightarrow> bool" where
  "before p q \<longleftrightarrow> fst p < fst q \<or> (fst p = fst q \<and> snd p < snd q)"

lemma tl_evict_one_least:
  assumes c: "tl_core c" and ne: "tl_store c \<noteq> []"
  obtains k d p where "tl_evict_one c = (Ok (), tl_drop k d c)"
    and "hm_get (tl_store c) k = Some d" and "tl_place c k = Some p"
    and "\<And>x q. x \<noteq> k \<Longrightarrow> tl_place c x = Some q \<Longrightarrow> before p q"
proof -
  obtain f l i k d xs where ev: "tl_evict_one c = (Ok (), tl_drop k d c)"
    and first: "bt_first (tl_freq c) = Some (f, l)" and it: "lru_items l = (i, k) # xs"
    and d: "hm_get (tl_store c) k = Some d" "td_freq d = f" "td_lru_k d = i"
    using tl_evict_one_drop [OF c ne] by metis
  have b: "bt_inv (tl_freq c)" using tl_coreD(2) [OF c] by (simp add: freq_ok_def)
  have get: "bt_get (tl_freq c) f = Some l" by (rule bt.first_get [OF b first])
  have sorted: "sorted_wrt (<) (map fst (lru_items l))"
    using tl_coreD(2) [OF c] get by (auto simp: freq_ok_def bucket_ok_def)
  have "before (f, i) q" if x: "x \<noteq> k" "tl_place c x = Some q" for x q
  proof -
    from x(2) have "freq_at (tl_freq c) (fst q) (snd q) x" by (simp add: tl_coreD(3) [OF c])
    then obtain l' where l': "bt_get (tl_freq c) (fst q) = Some l'" "(snd q, x) \<in> set (lru_items l')"
      by (auto simp: freq_at_def)
    have le: "f \<le> fst q" by (rule bt.first_least [OF b first l'(1)])
    show ?thesis
    proof (cases "f = fst q")
      case True
      with l' get have "(snd q, x) \<in> set xs" using it x(1) by auto
      then have "i < snd q" using sorted it by force
      with True show ?thesis by (simp add: before_def)
    next
      case False
      with le show ?thesis by (simp add: before_def)
    qed
  qed
  then show thesis using that [OF ev d(1), of "(f, i)"] d by (simp add: tl_place_def)
qed

lemma freq_ok_member: "freq_ok m \<Longrightarrow> bt_get m f = Some l \<Longrightarrow> \<exists>i k. freq_at m f i k"
  by (cases "lru_items l") (auto simp: freq_ok_def bucket_ok_def freq_at_def)

lemma tl_evict_empty:
  assumes "tl_core c" and "tl_store c = []"
  shows "tl_evict_one c = (Err TlFreqEmpty, c)" and "tl_used c = 0"
proof -
  have "bt_get (tl_freq c) f = None" for f
    using assms(2) freq_ok_member [OF tl_coreD(2) [OF assms(1)]] tl_coreD(3) [OF assms(1)]
    by (cases "bt_get (tl_freq c) f") (auto simp: tl_place_def)
  then show "tl_evict_one c = (Err TlFreqEmpty, c)"
    by (simp add: tl_evict_one_def bt_first_None_list [THEN iffD2])
  show "tl_used c = 0" using assms(2) tl_coreD(4) [OF assms(1)] by simp
qed

text \<open>Induction along the turns of the loop: it stops, finds nothing to evict, or takes a victim.\<close>

lemma tl_evict_induct [consumes 1, case_names fits empty victim]:
  assumes "tl_core c"
    and fits: "\<And>c. tl_core c \<Longrightarrow> \<not> tl_is_size_exceeded c n \<Longrightarrow> P c (Ok (), c)"
    and empty: "\<And>c. tl_core c \<Longrightarrow> tl_is_size_exceeded c n \<Longrightarrow> tl_store c = [] \<Longrightarrow> P c (Err TlFreqEmpty, c)"
    and victim: "\<And>c k d p. tl_core c \<Longrightarrow> tl_is_size_exceeded c n \<Longrightarrow> hm_get (tl_store c) k = Some d \<Longrightarrow>
       tl_place c k = Some p \<Longrightarrow> (\<And>x q. x \<noteq> k \<Longrightarrow> tl_place c x = Some q \<Longrightarrow> before p q) \<Longrightarrow>
       tl_core (tl_drop k d c) \<Longrightarrow> P (tl_drop k d c) (tl_evict n (tl_drop k d c)) \<Longrightarrow>
       P c (tl_evict n (tl_drop k d c))"
  shows "P c (tl_evict n c)"
  using assms(1)
proof (induction "length (tl_store c)" arbitrary: c rule: less_induct)
  case less
  show ?case
  proof (cases "tl_is_size_exceeded c n \<and> tl_store c \<noteq> []")
    case False
    then show ?thesis
      using fits [OF less(2)] empty [OF less(2)] tl_evict_empty(1) [OF less(2)]
      by (auto simp: tl_evict.simps [of n c])
  next
    case True
    obtain k d p where ev: "tl_evict_one c = (Ok (), tl_drop k d c)" and d: "hm_get (tl_store c) k = Some d"
      and p: "tl_place c k = Some p" "\<And>x q. x \<noteq> k \<Longrightarrow> tl_place c x = Some q \<Longrightarrow> before p q"
      using tl_evict_one_least [OF less(2)] True by metis
    have eq: "tl_evict n c = tl_evict n (tl_drop k d c)"
      using True ev by (simp add: tl_evict.simps [of n c])
    have c': "tl_core (tl_drop k d c)" using less(2) d by (rule tl_drop_core)
    show ?thesis
      unfolding eq
    proof (rule victim [OF less(2) _ d p(1) _ c' less(1) [OF tl_evict_one_store [OF ev] c']])
      show "tl_is_size_exceeded c n" using True ..
    qed (rule p(2))
  qed
qed

lemma tl_evict_keeps:
  assumes "tl_core c"
  shows "tl_core (snd (tl_evict n c)) \<and> tl_max (snd (tl_evict n c)) = tl_max c \<and>
    tl_ttl_buf (snd (tl_evict n c)) = tl_ttl_buf c"
  using assms by (induction rule: tl_evict_induct) simp_all

lemma tl_evict_times:
  assumes "tl_core c" and "tl_times c"
  shows "tl_times (snd (tl_evict n c))"
  using assms by (induction rule: tl_evict_induct) (simp_all add: tl_drop_times)

lemma tl_evict_submap:
  assumes "tl_core c" and "hm_get (tl_store (snd (tl_evict n c))) k = Some d"
  shows "hm_get (tl_store c) k = Some d"
  using assms by (induction rule: tl_evict_induct) (auto simp: hm_get_remove split: if_splits)

lemma tl_evict_subexpiry:
  assumes "tl_core c" and "bt_inv (tl_ttl c)" and "bt_get (tl_ttl c) t = None"
  shows "bt_get (tl_ttl (snd (tl_evict n c))) t = None"
  using assms by (induction rule: tl_evict_induct) (auto simp: bt_simps)

text \<open>Whether the loop makes room depends on the size alone.\<close>

lemma tl_evict_result:
  assumes "tl_core c" and "tl_max c + n < 2 ^ 64"
  shows "if n \<le> tl_max c
         then fst (tl_evict n c) = Ok () \<and> tl_used (snd (tl_evict n c)) + n \<le> tl_max c
         else fst (tl_evict n c) = Err TlFreqEmpty \<and> tl_store (snd (tl_evict n c)) = []"
  using assms
proof (induction rule: tl_evict_induct)
  case (fits c)
  then show ?case
    using tl_coreD(5) [OF fits(1)] by (auto simp: tl_is_size_exceeded_def u64_add_exact)
next
  case (empty c)
  then show ?case using tl_evict_empty(2) [OF empty(1,3)] by (simp add: tl_is_size_exceeded_def u64_add_exact)
next
  case (victim c k d p)
  have "tl_max (tl_drop k d c) + n < 2 ^ 64" using victim(8) by simp
  from victim(7) [OF this] show ?case by (auto split: if_splits)
qed

lemma tl_evict_place:
  "tl_core c \<Longrightarrow> tl_place (snd (tl_evict n c)) x = Some q \<Longrightarrow> tl_place c x = Some q"
  using tl_evict_submap [of c n x] by (auto simp: tl_place_def)

lemma tl_evict_order:
  assumes "tl_core c" and "tl_place c k = Some p" and "tl_place (snd (tl_evict n c)) k = None"
    and "tl_place (snd (tl_evict n c)) x = Some q"
  shows "before p q \<and> tl_place c x = Some q"
  using assms
proof (induction rule: tl_evict_induct)
  case (victim c v d r)
  have "tl_place (tl_drop v d c) x = Some q" by (rule tl_evict_place [OF victim(6,10)])
  then have x: "x \<noteq> v" "tl_place c x = Some q" by (auto split: if_splits)
  show ?case
  proof (cases "k = v")
    case True
    with victim(4,8) have "p = r" by simp
    with victim(5) [OF x] x(2) show ?thesis by simp
  next
    case False
    with victim(7) [OF _ victim(9,10)] victim(8) x show ?thesis by simp
  qed
qed simp_all

section \<open>Insertion\<close>

lemma numbers_below_evict:
  assumes "tl_core c" and "numbers_below (tl_freq c)"
  shows "numbers_below (tl_freq (snd (tl_evict n c)))"
  using assms(2) tl_coreD(3) [OF assms(1)] tl_evict_place [OF assms(1), of n]
    tl_coreD(3) [of "snd (tl_evict n c)"] tl_evict_keeps [OF assms(1), of n]
  unfolding numbers_below_def by blast

text \<open>
  The state an insertion reaches after making room. \<open>c1\<close> is the state the eviction leaves;
  the new entry stands at the end of the bucket of frequency 1.
\<close>

lemma tl_insert_after_room:
  assumes c: "tl_core c" and nk: "\<not> tl_contains c k" and le: "byte_size v \<le> tl_max c"
    and room: "tl_max c + byte_size v < 2 ^ 64" and nb: "numbers_below (tl_freq c)"
    and c1: "c1 = snd (tl_evict (byte_size v) c)"
  obtains l n where
    "tl_insert c k v (Some t) = (Ok (), c1\<lparr>tl_freq := bt_insert 1 l (tl_freq c1),
       tl_used := tl_used c1 + byte_size v,
       tl_store := hm_insert k \<lparr>td_value = v, td_freq = 1, td_lru_k = n,
                                td_ttl = u128_add t (tl_ttl_buf c)\<rparr> (tl_store c1),
       tl_ttl := bt_insert (u128_add t (tl_ttl_buf c)) k (tl_ttl c1)\<rparr>)"
    and "freq_ok (bt_insert 1 l (tl_freq c1))"
    and "\<And>g j x. freq_at (bt_insert 1 l (tl_freq c1)) g j x \<longleftrightarrow>
           freq_at (tl_freq c1) g j x \<or> (g, j, x) = (1, n, k)"
    and "hm_get (tl_store c1) k = None" and "tl_used c1 + byte_size v \<le> tl_max c"
proof -
  have ev: "tl_evict (byte_size v) c = (Ok (), c1)" and used: "tl_used c1 + byte_size v \<le> tl_max c"
    using tl_evict_result [OF c room] le c1 by (auto simp: prod_eq_iff)
  have keeps: "tl_core c1" "tl_max c1 = tl_max c" "tl_ttl_buf c1 = tl_ttl_buf c"
    using tl_evict_keeps [OF c] c1 by auto
  have nb1: "numbers_below (tl_freq c1)" using numbers_below_evict [OF c nb] c1 by simp
  have k1: "hm_get (tl_store c1) k = None"
    using tl_evict_submap [OF c, of "byte_size v" k] nk c1
    by (cases "hm_get (tl_store c1) k") (auto simp: tl_contains_def hm_contains_def)
  define n where "n = next_number (bucket_or_new (tl_freq c1) 1)"
  obtain l where l: "lru_insert (bucket_or_new (tl_freq c1) 1) n k = (Ok (), l)"
      "freq_ok (bt_insert 1 l (tl_freq c1))"
      "\<And>g j x. freq_at (bt_insert 1 l (tl_freq c1)) g j x \<longleftrightarrow>
           freq_at (tl_freq c1) g j x \<or> (g, j, x) = (1, n, k)"
    using freq_push [OF tl_coreD(2) [OF keeps(1)] nb1 n_def] by metis
  have add: "u64_add (tl_used c1) (byte_size v) = tl_used c1 + byte_size v"
    using used tl_coreD(6) [OF c] by (simp add: u64_add_exact)
  have nn: "next_number (bucket_or_new (tl_freq c1) (Suc 0)) = n" by (simp add: n_def)
  show thesis
  proof (rule that [OF _ l(2,3) k1 used])
    show "tl_insert c k v (Some t) = (Ok (), c1\<lparr>tl_freq := bt_insert 1 l (tl_freq c1),
       tl_used := tl_used c1 + byte_size v,
       tl_store := hm_insert k \<lparr>td_value = v, td_freq = 1, td_lru_k = n,
                                td_ttl = u128_add t (tl_ttl_buf c)\<rparr> (tl_store c1),
       tl_ttl := bt_insert (u128_add t (tl_ttl_buf c)) k (tl_ttl c1)\<rparr>)"
      using nk ev l(1) add keeps(3) by (simp add: tl_insert_def nn Let_def)
  qed
qed

lemma tl_insert_core:
  assumes "tl_core c" and "\<not> tl_contains c k" and "byte_size v \<le> tl_max c"
    and "tl_max c + byte_size v < 2 ^ 64" and "numbers_below (tl_freq c)"
  shows "fst (tl_insert c k v (Some t)) = Ok ()"
    and "tl_core (snd (tl_insert c k v (Some t)))"
    and "tl_dirty_get (snd (tl_insert c k v (Some t))) k = Some v"
proof -
  define c1 where "c1 = snd (tl_evict (byte_size v) c)"
  obtain l n where eq: "tl_insert c k v (Some t) = (Ok (), c1\<lparr>tl_freq := bt_insert 1 l (tl_freq c1),
       tl_used := tl_used c1 + byte_size v,
       tl_store := hm_insert k \<lparr>td_value = v, td_freq = 1, td_lru_k = n,
                                td_ttl = u128_add t (tl_ttl_buf c)\<rparr> (tl_store c1),
       tl_ttl := bt_insert (u128_add t (tl_ttl_buf c)) k (tl_ttl c1)\<rparr>)"
    and f: "freq_ok (bt_insert 1 l (tl_freq c1))"
      "\<And>g j x. freq_at (bt_insert 1 l (tl_freq c1)) g j x \<longleftrightarrow>
           freq_at (tl_freq c1) g j x \<or> (g, j, x) = (1, n, k)"
    and k1: "hm_get (tl_store c1) k = None" and used: "tl_used c1 + byte_size v \<le> tl_max c"
    using tl_insert_after_room [OF assms c1_def] by metis
  have core: "tl_core c1" and m: "tl_max c1 = tl_max c"
    using tl_evict_keeps [OF assms(1)] by (auto simp: c1_def)
  let ?c = "snd (tl_insert c k v (Some t))"
  have p: "tl_place c1 k = None" "\<And>x. tl_place ?c x = (if x = k then Some (1, n) else tl_place c1 x)"
    using k1 by (auto simp: tl_place_def eq hm_get_insert)
  have fr: "tl_freq ?c = bt_insert 1 l (tl_freq c1)" by (simp add: eq)
  have at: "freq_at (tl_freq ?c) g i x \<longleftrightarrow> tl_place ?c x = Some (g, i)" for g i x
    unfolding fr f(2) p(2) using p(1) by (auto simp: tl_coreD(3) [OF core])
  have "freq_ok (tl_freq ?c)" unfolding fr by (rule f(1))
  with at show "tl_core (snd (tl_insert c k v (Some t)))"
    using tl_coreD(1,4,6) [OF core] used m k1 unfolding tl_core_def by (auto simp: eq hm_sum_fresh)
  show "fst (tl_insert c k v (Some t)) = Ok ()" by (simp add: eq)
  show "tl_dirty_get (snd (tl_insert c k v (Some t))) k = Some v" by (simp add: eq tl_dirty_get_def)
qed

lemma tl_insert_times:
  assumes "tl_core c" and "\<not> tl_contains c k" and "byte_size v \<le> tl_max c"
    and "tl_max c + byte_size v < 2 ^ 64" and "numbers_below (tl_freq c)"
    and tt: "tl_times c" and fresh: "bt_get (tl_ttl c) (u128_add t (tl_ttl_buf c)) = None"
  shows "tl_times (snd (tl_insert c k v (Some t)))"
proof -
  define c1 where "c1 = snd (tl_evict (byte_size v) c)"
  define e where "e = u128_add t (tl_ttl_buf c)"
  obtain l n where eq: "tl_insert c k v (Some t) = (Ok (), c1\<lparr>tl_freq := bt_insert 1 l (tl_freq c1),
       tl_used := tl_used c1 + byte_size v,
       tl_store := hm_insert k \<lparr>td_value = v, td_freq = 1, td_lru_k = n, td_ttl = e\<rparr> (tl_store c1),
       tl_ttl := bt_insert e k (tl_ttl c1)\<rparr>)"
    and k1: "hm_get (tl_store c1) k = None"
    using tl_insert_after_room [OF assms(1-5) c1_def] e_def by metis
  let ?c = "snd (tl_insert c k v (Some t))"
  have t1: "tl_times c1" using tl_evict_times [OF assms(1) tt] c1_def by simp
  then have b: "bt_inv (tl_ttl c1)"
    and iff: "\<And>t k. bt_get (tl_ttl c1) t = Some k \<longleftrightarrow> tl_expiry c1 k = Some t" by (auto simp: tl_times_def)
  have "bt_inv (tl_ttl c)" using tt by (simp add: tl_times_def)
  then have f1: "bt_get (tl_ttl c1) e = None"
    using tl_evict_subexpiry [OF assms(1) _ fresh] by (simp add: c1_def e_def)
  have x: "tl_expiry c1 k = None" "\<And>x. tl_expiry ?c x = (if x = k then Some e else tl_expiry c1 x)"
    using k1 by (auto simp: tl_expiry_def eq hm_get_insert)
  have g: "bt_get (tl_ttl ?c) s = (if s = e then Some k else bt_get (tl_ttl c1) s)" for s
    using b by (simp add: eq bt_simps)
  have "bt_get (tl_ttl ?c) s = Some y \<longleftrightarrow> tl_expiry ?c y = Some s" for s y
    unfolding g x(2) using iff [of s y] iff [of e y] f1 x(1) by auto
  then show ?thesis using b by (simp add: tl_times_def eq bt_simps)
qed

text \<open>A value larger than the cache: everything is evicted, then the insertion fails.\<close>

lemma tl_insert_oversize:
  assumes "tl_core c" and "\<not> tl_contains c k" and "tl_max c < byte_size v"
    and "tl_max c + byte_size v < 2 ^ 64"
  shows "fst (tl_insert c k v now) = Err TlFreqEmpty \<and> tl_store (snd (tl_insert c k v now)) = []"
  using tl_evict_result [OF assms(1,4)] assms(2,3)
  by (auto simp: tl_insert_def split: prod.splits)

section \<open>Lookup\<close>

definition td_moved :: "tl_data \<Rightarrow> nat \<Rightarrow> tl_data" where
  "td_moved d n = d\<lparr>td_freq := Suc (td_freq d), td_lru_k := n\<rparr>"

definition tl_moved :: "string \<Rightarrow> tl_data \<Rightarrow> nat \<Rightarrow> (nat, bucket) btree \<Rightarrow> tlrfu \<Rightarrow> tlrfu" where
  "tl_moved k d n m c = c\<lparr>tl_store := hm_insert k (td_moved d n) (tl_store c), tl_freq := m\<rparr>"

lemma td_moved_fields [simp]:
  "td_freq (td_moved d n) = Suc (td_freq d)" "td_lru_k (td_moved d n) = n"
  "td_value (td_moved d n) = td_value d" "td_ttl (td_moved d n) = td_ttl d"
  by (simp_all add: td_moved_def)

lemma tl_moved_fields [simp]:
  "tl_store (tl_moved k d n m c) = hm_insert k (td_moved d n) (tl_store c)"
  "tl_ttl (tl_moved k d n m c) = tl_ttl c" "tl_ttl_buf (tl_moved k d n m c) = tl_ttl_buf c"
  "tl_used (tl_moved k d n m c) = tl_used c" "tl_max (tl_moved k d n m c) = tl_max c"
  "tl_freq (tl_moved k d n m c) = m"
  by (simp_all add: tl_moved_def)

text \<open>A lookup first moves the entry to the bucket of the next frequency.\<close>

lemma tl_get_moves:
  assumes c: "tl_core c" and k: "hm_get (tl_store c) k = Some d"
    and fmax: "td_freq d < u64_max" and nb: "numbers_below (tl_freq c)"
  obtains n m where
    "tl_get c k now = tl_renew (tl_moved k d n m c) k (td_moved d n) now"
    and "freq_ok m"
    and "\<And>g j x. freq_at m g j x \<longleftrightarrow>
      (freq_at (tl_freq c) g j x \<and> (g, j) \<noteq> (td_freq d, td_lru_k d)) \<or> (g, j, x) = (Suc (td_freq d), n, k)"
proof -
  let ?f = "td_freq d" and ?i = "td_lru_k d"
  from tl_entry_at [OF c k] obtain l where l: "bt_get (tl_freq c) ?f = Some l"
    and i: "(?i, k) \<in> set (lru_items l)" .
  obtain l1 where rem: "lru_remove l ?i = (Some k, l1)"
    using freq_take(1) [OF tl_coreD(2) [OF c] l i] by (metis prod.collapse)
  note take = freq_take [OF tl_coreD(2) [OF c] l i, unfolded rem, simplified]
  define m1 where "m1 = put_back ?f l1 (tl_freq c)"
  have nb1: "numbers_below m1"
    using nb by (auto simp: numbers_below_def m1_def take(3))
  define n where "n = next_number (bucket_or_new m1 (Suc ?f))"
  have ok1: "freq_ok m1" unfolding m1_def by (rule take(2))
  obtain l2 where l2: "lru_insert (bucket_or_new m1 (Suc ?f)) n k = (Ok (), l2)"
      "freq_ok (bt_insert (Suc ?f) l2 m1)"
      "\<And>g j x. freq_at (bt_insert (Suc ?f) l2 m1) g j x \<longleftrightarrow> freq_at m1 g j x \<or> (g, j, x) = (Suc ?f, n, k)"
    using freq_push [OF ok1 nb1 n_def] by metis
  have add: "u64_add ?f (Suc 0) = Suc ?f" using fmax by (simp add: u64_add_def u64_max_def)
  show thesis
  proof (rule that)
    show "tl_get c k now = tl_renew (tl_moved k d n (bt_insert (Suc ?f) l2 m1) c) k (td_moved d n) now"
      using l2(1) by (simp add: tl_get_def k l rem Let_def add m1_def n_def tl_moved_def td_moved_def)
    show "freq_ok (bt_insert (Suc ?f) l2 m1)" by (rule l2(2))
    show "freq_at (bt_insert (Suc ?f) l2 m1) g j x \<longleftrightarrow>
      (freq_at (tl_freq c) g j x \<and> (g, j) \<noteq> (?f, ?i)) \<or> (g, j, x) = (Suc ?f, n, k)" for g j x
      unfolding l2(3) using take(3) by (auto simp: m1_def)
  qed
qed

lemma tl_move_core:
  assumes c: "tl_core c" and k: "hm_get (tl_store c) k = Some d" and m: "freq_ok m"
    and at: "\<And>g j x. freq_at m g j x \<longleftrightarrow>
      (freq_at (tl_freq c) g j x \<and> (g, j) \<noteq> (td_freq d, td_lru_k d)) \<or> (g, j, x) = (Suc (td_freq d), n, k)"
  shows "tl_core (tl_moved k d n m c)"
    (is "tl_core ?c")
proof -
  have own: "tl_place c k = Some (td_freq d, td_lru_k d)" using k by (simp add: tl_place_def)
  have other: "x \<noteq> k \<Longrightarrow> tl_place c x \<noteq> Some (td_freq d, td_lru_k d)" for x
    using tl_place_unique [OF c own] by blast
  have p: "tl_place ?c x = (if x = k then Some (Suc (td_freq d), n) else tl_place c x)" for x
    by (simp add: tl_place_def hm_get_insert)
  have fr: "tl_freq ?c = m" by (simp add: tl_moved_def)
  have "freq_at (tl_freq ?c) g i x \<longleftrightarrow> tl_place ?c x = Some (g, i)" for g i x
    unfolding p fr at using own other [of x] by (auto simp: tl_coreD(3) [OF c])
  moreover have "hm_sum (\<lambda>d. byte_size (td_value d)) (tl_store ?c) = tl_used c"
    using hm_sum_update [OF k _ tl_coreD(1) [OF c], of "\<lambda>d. byte_size (td_value d)"] tl_coreD(4) [OF c] by simp
  ultimately show ?thesis
    using tl_coreD(1,5,6) [OF c] m by (simp add: tl_core_def)
qed

lemma tl_move_times:
  assumes "tl_times c" and "hm_get (tl_store c) k = Some d"
  shows "tl_times (tl_moved k d n m c)"
    (is "tl_times ?c")
proof -
  have "tl_expiry ?c x = tl_expiry c x" for x using assms(2) by (simp add: tl_expiry_def hm_get_insert)
  with assms(1) show ?thesis by (simp add: tl_times_def)
qed

text \<open>Then it renews the time to live.\<close>

lemma tl_renew_core:
  assumes c: "tl_core c" and k: "hm_get (tl_store c) k = Some d"
  shows "tl_core (snd (tl_renew c k d now))"
proof -
  have keep: "tl_core (c\<lparr>tl_ttl := t\<rparr>)" for t using c by (simp add: tl_core_def tl_place_def)
  have upd: "tl_core (c\<lparr>tl_store := hm_insert k (d\<lparr>td_ttl := e\<rparr>) (tl_store c), tl_ttl := t\<rparr>)"
    (is "tl_core ?c") for t e
  proof -
    have "tl_place ?c x = tl_place c x" for x using k by (simp add: tl_place_def hm_get_insert)
    moreover have "hm_sum (\<lambda>d. byte_size (td_value d)) (tl_store ?c) = tl_used c"
      using hm_sum_update [OF k _ tl_coreD(1) [OF c], of "\<lambda>d. byte_size (td_value d)"] tl_coreD(4) [OF c] by simp
    ultimately show ?thesis using c by (simp add: tl_core_def)
  qed
  show ?thesis
    using c keep upd by (auto simp: tl_renew_def Let_def split: option.split)
qed

lemma tl_renew_ok:
  assumes t: "tl_times c" and k: "hm_get (tl_store c) k = Some d" and now: "now = Some s"
    and e: "e = u128_add s (tl_ttl_buf c)"
    and fresh: "bt_get (bt_remove (td_ttl d) (tl_ttl c)) e = None"
  shows "fst (tl_renew c k d now) = Ok (Some (td_value d))"
    and "tl_times (snd (tl_renew c k d now))"
    and "hm_get (tl_store (snd (tl_renew c k d now))) k = Some (d\<lparr>td_ttl := e\<rparr>)"
proof -
  have b: "bt_inv (tl_ttl c)" and iff: "\<And>t k. bt_get (tl_ttl c) t = Some k \<longleftrightarrow> tl_expiry c k = Some t"
    using t by (auto simp: tl_times_def)
  have own: "tl_expiry c k = Some (td_ttl d)" using k by (simp add: tl_expiry_def)
  then have at: "bt_get (tl_ttl c) (td_ttl d) = Some k" by (simp add: iff)
  have eq: "tl_renew c k d now = (Ok (Some (td_value d)),
      c\<lparr>tl_store := hm_insert k (d\<lparr>td_ttl := e\<rparr>) (tl_store c),
        tl_ttl := bt_insert e k (bt_remove (td_ttl d) (tl_ttl c))\<rparr>)"
    by (simp add: tl_renew_def at now e Let_def)
  show "fst (tl_renew c k d now) = Ok (Some (td_value d))" by (simp add: eq)
  show "hm_get (tl_store (snd (tl_renew c k d now))) k = Some (d\<lparr>td_ttl := e\<rparr>)" by (simp add: eq)
  let ?c = "snd (tl_renew c k d now)"
  have x: "tl_expiry ?c y = (if y = k then Some e else tl_expiry c y)" for y
    by (simp add: tl_expiry_def eq hm_get_insert)
  have g: "bt_get (tl_ttl ?c) u = (if u = e then Some k else if u = td_ttl d then None else bt_get (tl_ttl c) u)" for u
    using b by (simp add: eq bt_simps)
  have f: "e \<noteq> td_ttl d \<Longrightarrow> bt_get (tl_ttl c) e = None" using fresh b by (simp add: bt_simps split: if_splits)
  have "bt_get (tl_ttl ?c) u = Some y \<longleftrightarrow> tl_expiry ?c y = Some u" for u y
  proof (cases "y = k")
    case True
    then show ?thesis unfolding g x using own iff [of u k] by auto
  next
    case False
    have "tl_expiry c y \<noteq> Some (td_ttl d)" using at iff [of "td_ttl d" y] False by auto
    moreover have "tl_expiry c y \<noteq> Some e"
      using f iff [of e y] calculation by (cases "e = td_ttl d") auto
    ultimately show ?thesis unfolding g x using False iff [of u y] by auto
  qed
  then show "tl_times ?c" using b by (simp add: tl_times_def eq bt_simps)
qed

lemma tl_get_absent: "\<not> tl_contains c k \<Longrightarrow> tl_get c k now = (Ok None, c)"
  by (simp add: tl_get_def tl_contains_def hm_contains_def)

lemma tl_get_core:
  assumes c: "tl_core c" and k: "hm_get (tl_store c) k = Some d"
    and fmax: "td_freq d < u64_max" and nb: "numbers_below (tl_freq c)"
  shows "tl_core (snd (tl_get c k now))"
proof -
  obtain n m where eq: "tl_get c k now = tl_renew (tl_moved k d n m c) k (td_moved d n) now"
    and m: "freq_ok m"
      "\<And>g j x. freq_at m g j x \<longleftrightarrow>
      (freq_at (tl_freq c) g j x \<and> (g, j) \<noteq> (td_freq d, td_lru_k d)) \<or> (g, j, x) = (Suc (td_freq d), n, k)"
    using tl_get_moves [OF assms, of now] by blast
  show ?thesis
    unfolding eq by (rule tl_renew_core [OF tl_move_core [OF c k m]]) simp
qed

lemma tl_get_found:
  assumes inv: "tl_inv c" and k: "hm_get (tl_store c) k = Some d"
    and fmax: "td_freq d < u64_max" and nb: "numbers_below (tl_freq c)"
    and e: "e = u128_add s (tl_ttl_buf c)"
    and fresh: "bt_get (bt_remove (td_ttl d) (tl_ttl c)) e = None"
  shows "fst (tl_get c k (Some s)) = Ok (Some (td_value d))"
    and "tl_inv (snd (tl_get c k (Some s)))"
    and "\<exists>n. hm_get (tl_store (snd (tl_get c k (Some s)))) k =
             Some (d\<lparr>td_freq := Suc (td_freq d), td_lru_k := n, td_ttl := e\<rparr>)"
proof -
  have c: "tl_core c" and t: "tl_times c" using inv by (auto simp: tl_inv_def)
  obtain n m where eq: "tl_get c k (Some s) = tl_renew (tl_moved k d n m c) k (td_moved d n) (Some s)"
    and "freq_ok m"
    and "\<And>g j x. freq_at m g j x \<longleftrightarrow>
      (freq_at (tl_freq c) g j x \<and> (g, j) \<noteq> (td_freq d, td_lru_k d)) \<or> (g, j, x) = (Suc (td_freq d), n, k)"
    using tl_get_moves [OF c k fmax nb, of "Some s"] by blast
  note ok = tl_renew_ok [OF tl_move_times [OF t k, of n m], of k "td_moved d n" "Some s" s e]
  show "fst (tl_get c k (Some s)) = Ok (Some (td_value d))" using ok(1) e fresh by (simp add: eq)
  show "tl_inv (snd (tl_get c k (Some s)))"
    using ok(2) e fresh tl_get_core [OF c k fmax nb, of "Some s"] by (simp add: tl_inv_def eq)
  have "hm_get (tl_store (snd (tl_get c k (Some s)))) k = Some (td_moved d n\<lparr>td_ttl := e\<rparr>)"
    unfolding eq by (rule ok(3)) (use e fresh in simp_all)
  then show "\<exists>n. hm_get (tl_store (snd (tl_get c k (Some s)))) k =
             Some (d\<lparr>td_freq := Suc (td_freq d), td_lru_k := n, td_ttl := e\<rparr>)"
    unfolding td_moved_def by (rule exI)
qed

section \<open>Expiry\<close>

lemma tl_expire_one_drop:
  assumes c: "tl_core c" and t: "tl_times c" and first: "bt_first (tl_ttl c) = Some (e, k)" and due: "e \<le> s"
  obtains d where "tl_expire_one (Some s) c = (Ok True, tl_drop k d c)"
    and "hm_get (tl_store c) k = Some d" and "td_ttl d = e"
proof -
  have b: "bt_inv (tl_ttl c)" and iff: "\<And>t k. bt_get (tl_ttl c) t = Some k \<longleftrightarrow> tl_expiry c k = Some t"
    using t by (auto simp: tl_times_def)
  have "tl_expiry c k = Some e" using bt.first_get [OF b first] by (simp add: iff)
  then obtain d where d: "hm_get (tl_store c) k = Some d" "td_ttl d = e" by (auto simp: tl_expiry_def)
  from tl_entry_at [OF c d(1)] obtain l where l: "bt_get (tl_freq c) (td_freq d) = Some l"
    and i: "(td_lru_k d, k) \<in> set (lru_items l)" .
  obtain l1 where rem: "lru_remove l (td_lru_k d) = (Some k, l1)"
    using freq_take(1) [OF tl_coreD(2) [OF c] l i] by (metis prod.collapse)
  have "tl_expire_one (Some s) c = (Ok True, tl_drop k d c)"
    using due d l rem by (simp add: tl_expire_one_def first tl_drop_def bucket_or_new_def Let_def)
  then show thesis using that d by blast
qed

text \<open>
  With a clock that stands still at \<open>s\<close> the loop drops exactly the entries whose expiry
  time has come, and counts them.
\<close>

lemma tl_clean_expired:
  assumes "tl_core c" and "tl_times c" and "now = (\<lambda>_. Some s)"
  shows "tl_inv (snd (tl_clean now n c)) \<and>
    (\<forall>k. hm_get (tl_store (snd (tl_clean now n c))) k =
         (case hm_get (tl_store c) k of None \<Rightarrow> None | Some d \<Rightarrow> if td_ttl d \<le> s then None else Some d)) \<and>
    fst (tl_clean now n c) = Ok (n + (length (tl_store c) - length (tl_store (snd (tl_clean now n c))))) \<and>
    length (tl_store (snd (tl_clean now n c))) \<le> length (tl_store c)"
  using assms
proof (induction "length (tl_store c)" arbitrary: c n rule: less_induct)
  case less
  have b: "bt_inv (tl_ttl c)" and iff: "\<And>t k. bt_get (tl_ttl c) t = Some k \<longleftrightarrow> tl_expiry c k = Some t"
    using less(3) by (auto simp: tl_times_def)
  show ?case
  proof (cases "\<exists>e k. bt_first (tl_ttl c) = Some (e, k) \<and> e \<le> s")
    case True
    then obtain e k where first: "bt_first (tl_ttl c) = Some (e, k)" and due: "e \<le> s" by blast
    obtain d where ex: "tl_expire_one (Some s) c = (Ok True, tl_drop k d c)"
      and d: "hm_get (tl_store c) k = Some d" "td_ttl d = e"
      using tl_expire_one_drop [OF less(2,3) first due] by metis
    have eq: "tl_clean now n c = tl_clean now (Suc n) (tl_drop k d c)"
      by (subst tl_clean.simps) (simp add: ex less(4))
    have len: "length (tl_store c) = Suc (length (tl_store (tl_drop k d c)))"
      using length_hm_remove [OF tl_coreD(1) [OF less(2)] d(1)] by simp
    have "length (tl_store (tl_drop k d c)) < length (tl_store c)" using len by simp
    note IH = less(1) [OF this tl_drop_core [OF less(2) d(1)] tl_drop_times [OF less(3) d(1)] less(4), of "Suc n"]
    show ?thesis
      unfolding eq using IH d due len by (auto simp: hm_get_remove split: option.split)
  next
    case False
    then have stop: "tl_expire_one (Some s) c = (Ok False, c)"
      by (auto simp: tl_expire_one_def split: option.split)
    then have eq: "tl_clean now n c = (Ok n, c)" by (subst tl_clean.simps) (simp add: less(4))
    have late: "s < td_ttl d" if k: "hm_get (tl_store c) k = Some d" for k d
    proof -
      have at: "bt_get (tl_ttl c) (td_ttl d) = Some k" using k by (simp add: iff tl_expiry_def)
      obtain e x where first: "bt_first (tl_ttl c) = Some (e, x)" using bt.ex_first [OF b at] by blast
      have "e \<le> td_ttl d" by (rule bt.first_least [OF b first at])
      with False first show ?thesis by auto
    qed
    show ?thesis
      using less(2,3) by (auto simp: eq tl_inv_def dest: late split: option.split)
  qed
qed

text \<open>Whatever the clock shows and however the expiry map looks, one turn drops one entry or none.\<close>

lemma tl_expire_one_core:
  assumes c: "tl_core c" and ex: "tl_expire_one now c = (r, c')"
  shows "tl_core c'"
proof (cases "c' = c")
  case True
  with c show ?thesis by simp
next
  case False
  with ex obtain e k t d where first: "bt_first (tl_ttl c) = Some (e, k)" and now: "now = Some t"
    and le: "\<not> t < e" and d: "hm_get (tl_store c) k = Some d"
    by (auto simp: tl_expire_one_def split: option.splits if_splits)
  from tl_entry_at [OF c d] obtain l where l: "bt_get (tl_freq c) (td_freq d) = Some l"
    and i: "(td_lru_k d, k) \<in> set (lru_items l)" .
  obtain l1 where rem: "lru_remove l (td_lru_k d) = (Some k, l1)"
    using freq_take(1) [OF tl_coreD(2) [OF c] l i] by (metis prod.collapse)
  have "c' = tl_drop k d c"
    using ex le d l rem by (simp add: tl_expire_one_def first now tl_drop_def bucket_or_new_def Let_def)
  then show ?thesis using tl_drop_core [OF c d] by simp
qed

lemma tl_clean_core: "tl_core c \<Longrightarrow> tl_core (snd (tl_clean now n c))"
proof (induction now n c rule: tl_clean.induct)
  case (1 now n c)
  obtain r c' where ex: "tl_expire_one (now n) c = (r, c')" by (cases "tl_expire_one (now n) c")
  have c': "tl_core c'" by (rule tl_expire_one_core [OF 1(2) ex])
  show ?case
  proof (cases "r = Ok True")
    case True
    then have "tl_core (snd (tl_clean now (Suc n) c'))" using 1(1) ex c' by simp
    with True ex show ?thesis by (simp add: tl_clean.simps [of now n c])
  next
    case False
    then have "snd (tl_clean now n c) = c'"
      using ex by (auto simp: tl_clean.simps [of now n c] split: result.split bool.split)
    with c' show ?thesis by simp
  qed
qed

section \<open>Reachable caches\<close>

text \<open>
  The counters of an entry are \<open>usize\<close> values that only grow; the results below hold as
  long as none of them has reached the largest value.
\<close>

definition tl_counters_ok :: "tlrfu \<Rightarrow> bool" where
  "tl_counters_ok c = list_all (\<lambda>(k, d). td_freq d < u64_max \<and> td_lru_k d < u64_max) (tl_store c)"

lemma tl_counters_freq: "tl_counters_ok c \<Longrightarrow> hm_get (tl_store c) k = Some d \<Longrightarrow> td_freq d < u64_max"
  using hm_get_Some_in [of "tl_store c" k d] by (auto simp: tl_counters_ok_def list_all_iff)

lemma tl_counters_numbers:
  assumes "tl_core c" and "tl_counters_ok c"
  shows "numbers_below (tl_freq c)"
  using assms(2) unfolding numbers_below_def tl_coreD(3) [OF assms(1)]
  by (auto simp: tl_place_def tl_counters_ok_def list_all_iff dest!: hm_get_Some_in)

lemma tl_insert_core_any:
  assumes c: "tl_core c" and "tl_counters_ok c" and "tl_max c + byte_size v < 2 ^ 64"
  shows "tl_core (snd (tl_insert c k v (Some t)))"
proof -
  consider "tl_contains c k" | "\<not> tl_contains c k" "byte_size v \<le> tl_max c"
    | "\<not> tl_contains c k" "tl_max c < byte_size v" by linarith
  then show ?thesis
  proof cases
    case 1
    with c show ?thesis by (simp add: tl_insert_def)
  next
    case 2
    then show ?thesis using tl_insert_core(2) [OF c _ _ assms(3) tl_counters_numbers [OF c assms(2)]] by blast
  next
    case 3
    then have "snd (tl_insert c k v (Some t)) = snd (tl_evict (byte_size v) c)"
      using tl_evict_result [OF c assms(3)] by (auto simp: tl_insert_def split: prod.splits)
    then show ?thesis using tl_evict_keeps [OF c] by simp
  qed
qed

lemma tl_insert_inv [inv_intros]:
  assumes "tl_inv c" and "tl_counters_ok c" and "\<not> tl_contains c k"
    and "byte_size v \<le> tl_max c" and "tl_max c + byte_size v < 2 ^ 64"
    and "bt_get (tl_ttl c) (u128_add t (tl_ttl_buf c)) = None"
  shows "tl_inv (snd (tl_insert c k v (Some t)))"
proof -
  have core: "tl_core c" and times: "tl_times c" using assms(1) by (auto simp: tl_inv_def)
  note nb = tl_counters_numbers [OF core assms(2)]
  show ?thesis
    using tl_insert_core(2) [OF core assms(3-5) nb] tl_insert_times [OF core assms(3-5) nb times assms(6)]
    by (simp add: tl_inv_def)
qed

lemma tl_get_core_any:
  assumes c: "tl_core c" and "tl_counters_ok c"
  shows "tl_core (snd (tl_get c k now))"
proof (cases "hm_get (tl_store c) k")
  case None
  with c show ?thesis by (simp add: tl_get_def)
next
  case (Some d)
  then show ?thesis
    using tl_get_core [OF c _ tl_counters_freq [OF assms(2)] tl_counters_numbers [OF c assms(2)]] by blast
qed

inductive tl_reach :: "tlrfu \<Rightarrow> bool" where
  tl_reach_new: "m < 2 ^ 64 \<Longrightarrow> tl_reach (tl_new m b)"
| tl_reach_insert: "tl_reach c \<Longrightarrow> tl_counters_ok c \<Longrightarrow> tl_max c + byte_size v < 2 ^ 64 \<Longrightarrow>
    tl_reach (snd (tl_insert c k v (Some t)))"
| tl_reach_get: "tl_reach c \<Longrightarrow> tl_counters_ok c \<Longrightarrow> tl_reach (snd (tl_get c k now))"
| tl_reach_clean: "tl_reach c \<Longrightarrow> tl_reach (snd (tl_process_ttl_clean_up clock c))"
| tl_reach_purge: "tl_reach c \<Longrightarrow> tl_reach (tl_purge c)"

lemma tl_reach_core: "tl_reach c \<Longrightarrow> tl_core c"
proof (induction rule: tl_reach.induct)
  case (tl_reach_new m b)
  then show ?case using tl_new_inv by (simp add: tl_inv_def)
next
  case (tl_reach_purge c)
  then show ?case using tl_purge_inv by (simp add: tl_inv_def)
qed (simp_all add: tl_insert_core_any tl_get_core_any tl_process_ttl_clean_up_def tl_clean_core)

section \<open>Properties\<close>

text \<open>Evaluation of the operations on concrete caches.\<close>

lemmas lru_eval =
  lru_new_def lru_get_tail_key_def lru_node_key_def lru_is_empty_def lru_get_first_key_def
  lru_contains_def lru_insert_def lru_make_room_def lru_push_def lru_remove_def lru_unlink_def
  lru_remove_head_def set_next_def set_prev_def

lemmas tl_eval = lru_eval
  hm_get_def hm_insert_def hm_remove_def hm_contains_def bt_get_def bt_remove_def
  u64_add_def u64_sub_def u128_add_def u64_max_def byte_size_def Let_def
  tl_new_def tl_contains_def tl_is_size_exceeded_def tl_dirty_get_def put_back_def
  bucket_or_new_def next_number_def tl_renew_def tl_get_def tl_evict_one_def tl_evict.simps
  tl_insert_def tl_expire_one_def tl_clean.simps tl_process_ttl_clean_up_def
  tl_place_def tl_expiry_def tl_counters_ok_def

definition tl_example :: tlrfu where
  "tl_example = snd (tl_get (snd (tl_insert (snd (tl_insert (tl_new 6 100) ''a'' [1, 2] (Some 10)))
     ''b'' [3, 4, 5] (Some 11))) ''a'' (Some 12))"

lemma tl_example_reach: "tl_reach tl_example"
proof -
  let ?c0 = "tl_new 6 100"
  let ?c1 = "snd (tl_insert ?c0 ''a'' [1, 2] (Some 10))"
  let ?c2 = "snd (tl_insert ?c1 ''b'' [3, 4, 5] (Some 11))"
  have "tl_reach ?c0" by (rule tl_reach_new) simp
  then have "tl_reach ?c1" by (rule tl_reach_insert) (simp_all add: tl_eval)
  then have "tl_reach ?c2" by (rule tl_reach_insert) (simp_all add: tl_eval)
  then show ?thesis unfolding tl_example_def by (rule tl_reach_get) (simp add: tl_eval)
qed

text \<open>
  C1. However the cache has been used (with a clock after 1970), its size counter is the
  number of bytes it holds, that number does not exceed the configured maximum, every
  stored key stands at exactly one place of the eviction order and nothing else does.
\<close>

theorem tl_reachable_bounded:
  assumes "tl_reach c"
  shows "tl_used c = hm_sum (\<lambda>d. byte_size (td_value d)) (tl_store c) \<and> tl_used c \<le> tl_max c \<and>
         (\<forall>f i k. freq_at (tl_freq c) f i k \<longleftrightarrow> tl_place c k = Some (f, i))"
  using tl_coreD(3,4,5) [OF tl_reach_core [OF assms]] by blast

theorem tl_reachable_bounded_witness: "tl_used tl_example \<le> tl_max tl_example"
  using tl_reachable_bounded [OF tl_example_reach] by blast

text \<open>
  C2. Inserting a value that fits makes room, succeeds, keeps the invariant (the expiry
  time must not be taken already), and afterwards the key holds the value; of the other
  keys none gets a different value.
\<close>

theorem tl_insert_correct:
  assumes "tl_inv c" and "tl_counters_ok c" and "\<not> tl_contains c k"
    and "byte_size v \<le> tl_max c" and "tl_max c + byte_size v < 2 ^ 64"
    and "bt_get (tl_ttl c) (u128_add t (tl_ttl_buf c)) = None"
    and ins: "tl_insert c k v (Some t) = (r, c')"
  shows "r = Ok () \<and> tl_inv c' \<and> tl_dirty_get c' k = Some v \<and> tl_used c' \<le> tl_max c' \<and>
         (\<forall>x. x \<noteq> k \<longrightarrow> tl_dirty_get c' x \<in> {None, tl_dirty_get c x})"
proof -
  have core: "tl_core c" using assms(1) by (auto simp: tl_inv_def)
  note nb = tl_counters_numbers [OF core assms(2)]
  note ok = tl_insert_core [OF core assms(3-5) nb, of t]
  have c': "r = Ok ()" "tl_core c'" "tl_dirty_get c' k = Some v" using ok by (auto simp: ins)
  have t': "tl_inv c'" using tl_insert_inv [OF assms(1-6)] by (simp add: ins)
  obtain l n where eq: "c' = (snd (tl_evict (byte_size v) c))\<lparr>tl_freq := bt_insert 1 l (tl_freq (snd (tl_evict (byte_size v) c))),
       tl_used := tl_used (snd (tl_evict (byte_size v) c)) + byte_size v,
       tl_store := hm_insert k \<lparr>td_value = v, td_freq = 1, td_lru_k = n,
                                td_ttl = u128_add t (tl_ttl_buf c)\<rparr> (tl_store (snd (tl_evict (byte_size v) c))),
       tl_ttl := bt_insert (u128_add t (tl_ttl_buf c)) k (tl_ttl (snd (tl_evict (byte_size v) c)))\<rparr>"
    using tl_insert_after_room [OF core assms(3-5) nb refl, of t] ins by (metis prod.inject)
  have "x \<noteq> k \<longrightarrow> tl_dirty_get c' x \<in> {None, tl_dirty_get c x}" for x
    using tl_evict_submap [OF core, of "byte_size v" x]
    by (cases "hm_get (tl_store (snd (tl_evict (byte_size v) c))) x")
       (auto simp: tl_dirty_get_def eq hm_get_insert)
  with c' t' show ?thesis using tl_coreD(5) [OF c'(2)] by (simp add: tl_inv_def)
qed

theorem tl_insert_correct_witness:
  "fst (tl_insert (tl_new 6 100) ''a'' [1, 2] (Some 10)) = Ok () \<and>
   tl_dirty_get (snd (tl_insert (tl_new 6 100) ''a'' [1, 2] (Some 10))) ''a'' = Some [1, 2]"
  using tl_insert_correct [OF tl_new_inv _ _ _ _ _ surjective_pairing, of 6 100 "''a''" "[1, 2]" 10]
  by (simp add: tl_counters_ok_def tl_new_def tl_contains_def hm_contains_def byte_size_def)

text \<open>
  C5. What eviction takes goes before what it leaves: an evicted key had a lower frequency
  than every key that stays, or the same frequency and an older place in its bucket.
\<close>

theorem tl_evicts_least_frequent_first:
  assumes "tl_core c" and "tl_evict n c = (r, c')" and "tl_place c k = Some p"
    and "tl_place c' k = None" and "tl_place c' x = Some q"
  shows "(fst p < fst q \<or> (fst p = fst q \<and> snd p < snd q)) \<and> tl_place c x = Some q"
  using tl_evict_order [OF assms(1,3), of n x q] assms(2,4,5) by (simp add: before_def)

theorem tl_evicts_least_frequent_first_witness:
  "tl_place (snd (tl_evict 2 tl_example)) ''b'' = None \<and>
   fst (the (tl_place tl_example ''b'')) < fst (the (tl_place tl_example ''a''))"
proof -
  have e: "tl_place tl_example ''b'' = Some (1, 1)" "tl_place (snd (tl_evict 2 tl_example)) ''b'' = None"
    "tl_place (snd (tl_evict 2 tl_example)) ''a'' = Some (2, 0)" "tl_place tl_example ''a'' = Some (2, 0)"
    by (simp_all add: tl_example_def tl_eval)
  show ?thesis
    using tl_evicts_least_frequent_first [OF tl_reach_core [OF tl_example_reach] surjective_pairing e(1,2,3)]
    by (simp add: e)
qed

text \<open>
  C3. A lookup of a stored key never fails on a well-formed cache: it returns the stored
  value, raises the frequency by one, renews the expiry time and keeps the invariant; a
  lookup of an absent key returns nothing and changes nothing.
\<close>

theorem tl_get_correct:
  assumes inv: "tl_inv c" and cnt: "tl_counters_ok c" and e: "e = u128_add t (tl_ttl_buf c)"
    and fresh: "\<forall>x. bt_get (tl_ttl c) e = Some x \<longrightarrow> x = k"
    and get: "tl_get c k (Some t) = (r, c')"
  shows "r = Ok (tl_dirty_get c k) \<and> tl_inv c' \<and> (\<not> tl_contains c k \<longrightarrow> c' = c) \<and>
         (\<forall>f i. tl_place c k = Some (f, i) \<longrightarrow>
            (\<exists>j. tl_place c' k = Some (Suc f, j)) \<and> tl_expiry c' k = Some e)"
proof (cases "hm_get (tl_store c) k")
  case None
  then show ?thesis
    using get inv by (auto simp: tl_get_def tl_dirty_get_def tl_contains_def hm_contains_def tl_place_def)
next
  case (Some d)
  have core: "tl_core c" and b: "bt_inv (tl_ttl c)"
    and iff: "\<And>s x. bt_get (tl_ttl c) s = Some x \<longleftrightarrow> tl_expiry c x = Some s"
    using inv by (auto simp: tl_inv_def tl_times_def)
  have "bt_get (bt_remove (td_ttl d) (tl_ttl c)) e = None"
    using fresh iff [of e k] Some b
    by (cases "bt_get (tl_ttl c) e") (auto simp: bt_simps tl_expiry_def)
  note found = tl_get_found [OF inv Some tl_counters_freq [OF cnt Some] tl_counters_numbers [OF core cnt] e this,
      unfolded get, simplified]
  from found(3) obtain n where
    "hm_get (tl_store c') k = Some (d\<lparr>td_freq := Suc (td_freq d), td_lru_k := n, td_ttl := e\<rparr>)" by blast
  with found(1,2) Some show ?thesis
    by (simp add: tl_dirty_get_def tl_contains_def hm_contains_def tl_place_def tl_expiry_def)
qed

lemma tl_example1_inv: "tl_inv (snd (tl_insert (tl_new 6 100) ''a'' [1, 2] (Some 10)))"
  by (rule tl_insert_inv [OF tl_new_inv]) (simp_all add: tl_eval)

theorem tl_get_correct_witness:
  "fst (tl_get (snd (tl_insert (tl_new 6 100) ''a'' [1, 2] (Some 10))) ''a'' (Some 12)) = Ok (Some [1, 2])"
  using tl_get_correct [OF tl_example1_inv _ refl _ surjective_pairing, of 12 "''a''"]
  by (simp add: tl_eval)

text \<open>
  C7. A clean-up at time \<open>s\<close> always succeeds on a well-formed cache, drops exactly the
  entries whose expiry time is not after \<open>s\<close>, keeps the others as they are, returns the
  number of entries dropped and keeps the invariant.
\<close>

theorem tl_clean_up_correct:
  assumes "tl_inv c" and "tl_process_ttl_clean_up (\<lambda>_. Some s) c = (r, c')"
  shows "tl_inv c' \<and> r = Ok (length (tl_store c) - length (tl_store c')) \<and>
    (\<forall>k. hm_get (tl_store c') k =
       (case hm_get (tl_store c) k of None \<Rightarrow> None | Some d \<Rightarrow> if td_ttl d \<le> s then None else Some d))"
  using tl_clean_expired [of c "\<lambda>_. Some s" s 0] assms
  by (simp add: tl_inv_def tl_process_ttl_clean_up_def)

theorem tl_clean_up_correct_witness:
  "tl_inv (snd (tl_process_ttl_clean_up (\<lambda>_. Some 110) (snd (tl_insert (tl_new 6 100) ''a'' [1, 2] (Some 10))))) \<and>
   hm_get (tl_store (snd (tl_process_ttl_clean_up (\<lambda>_. Some 110)
     (snd (tl_insert (tl_new 6 100) ''a'' [1, 2] (Some 10)))))) ''a'' = None"
proof -
  have ttl: "hm_get (tl_store (snd (tl_insert (tl_new 6 100) ''a'' [1, 2] (Some 10)))) ''a'' =
      Some \<lparr>td_value = [1, 2], td_freq = 1, td_lru_k = 0, td_ttl = 110\<rparr>"
    by (simp add: tl_eval)
  show ?thesis
    using tl_clean_up_correct [OF tl_example1_inv surjective_pairing, of 110] by (simp add: ttl)
qed

text \<open>
  An insertion of a value larger than the whole cache fails, and before it fails it
  evicts everything the cache holds.
\<close>

theorem tl_oversize_insert_flushes:
  assumes "tl_core c" and "\<not> tl_contains c k" and "tl_max c < byte_size v"
    and "tl_max c + byte_size v < 2 ^ 64"
  shows "fst (tl_insert c k v now) = Err TlFreqEmpty \<and>
         (\<forall>x. tl_dirty_get (snd (tl_insert c k v now)) x = None)"
  using tl_insert_oversize [OF assms] by (simp add: tl_dirty_get_def)

theorem tl_oversize_insert_flushes_witness:
  "tl_dirty_get tl_example ''a'' = Some [1, 2] \<and>
   tl_dirty_get (snd (tl_insert tl_example ''c'' (replicate 7 0) (Some 13))) ''a'' = None"
  using tl_oversize_insert_flushes [OF tl_reach_core [OF tl_example_reach], of "''c''" "replicate 7 0" "Some 13"]
  by (simp add: tl_example_def tl_eval)

text \<open>
  Two insertions in the same nanosecond share an expiry time, and the second takes the
  entry of the expiry map from the first. A clean-up after that time drops only the second
  key; if the first key has been read in between, the next lookup of the second is an error.
\<close>

theorem tl_expiry_collision:
  "let c = snd (tl_insert (snd (tl_insert (tl_new 6 100) ''a'' [1] (Some 10))) ''b'' [2] (Some 10))
   in tl_expiry c ''a'' = Some 110 \<and> tl_expiry c ''b'' = Some 110 \<and>
      fst (tl_process_ttl_clean_up (\<lambda>_. Some 200) c) = Ok 1 \<and>
      tl_dirty_get (snd (tl_process_ttl_clean_up (\<lambda>_. Some 200) c)) ''a'' = Some [1] \<and>
      fst (tl_get (snd (tl_get c ''a'' (Some 20))) ''b'' (Some 30)) = Err (TlTtlMissing 110)"
  by (simp add: tl_eval)

section \<open>Interface to the worker\<close>

text \<open>
  What the cache worker relies on: a store of byte strings under keys whose operations
  return a result and the new store, where a lookup that succeeds returns what was stored.
\<close>

locale byte_cache =
  fixes get :: "'c \<Rightarrow> string \<Rightarrow> 't \<Rightarrow> (bytes option, 'e) result \<times> 'c"
    and insert :: "'c \<Rightarrow> string \<Rightarrow> bytes \<Rightarrow> 't \<Rightarrow> (unit, 'e) result \<times> 'c"
    and content :: "'c \<Rightarrow> string \<Rightarrow> bytes option"
    and purge :: "'c \<Rightarrow> 'c"
    and size :: "'c \<Rightarrow> nat"
    and limit :: "'c \<Rightarrow> nat"
    and invar :: "'c \<Rightarrow> bool"
    and ready :: "'c \<Rightarrow> bool"
    and fits :: "'c \<Rightarrow> bytes \<Rightarrow> bool"
    and works :: "'t \<Rightarrow> bool"
  assumes get_inv: "invar c \<Longrightarrow> ready c \<Longrightarrow> invar (snd (get c k t))"
    and get_content: "invar c \<Longrightarrow> ready c \<Longrightarrow> content (snd (get c k t)) x = content c x"
    and get_result: "invar c \<Longrightarrow> ready c \<Longrightarrow> fst (get c k t) = Ok r \<Longrightarrow> r = content c k"
    and insert_inv: "invar c \<Longrightarrow> ready c \<Longrightarrow> fits c v \<Longrightarrow> works t \<Longrightarrow> invar (snd (insert c k v t))"
    and insert_content: "invar c \<Longrightarrow> ready c \<Longrightarrow> fits c v \<Longrightarrow> works t \<Longrightarrow> fst (insert c k v t) = Ok () \<Longrightarrow>
          content (snd (insert c k v t)) k = Some v"
    and purge_inv: "invar c \<Longrightarrow> invar (purge c)"
    and purge_content: "content (purge c) x = None"
    and size_limit: "invar c \<Longrightarrow> size c \<le> limit c"
begin

lemma insert_then_get:
  assumes "invar c" "ready c" "fits c v" "works t" "fst (insert c k v t) = Ok ()"
    and "ready (snd (insert c k v t))" and "fst (get (snd (insert c k v t)) k s) = Ok r"
  shows "r = Some v"
  using get_result [OF insert_inv [OF assms(1-4)] assms(6,7)] insert_content [OF assms(1-5)] by simp

end

lemma tl_renew_content:
  assumes "hm_get (tl_store c) k = Some d"
  shows "tl_dirty_get (snd (tl_renew c k d now)) x = tl_dirty_get c x"
    and "fst (tl_renew c k d now) = Ok r \<Longrightarrow> r = Some (td_value d)"
  using assms by (auto simp: tl_renew_def tl_dirty_get_def hm_get_insert Let_def split: option.splits)

lemma tl_get_content:
  assumes c: "tl_core c" and cnt: "tl_counters_ok c"
  shows "tl_dirty_get (snd (tl_get c k now)) x = tl_dirty_get c x"
    and "fst (tl_get c k now) = Ok r \<Longrightarrow> r = tl_dirty_get c k"
proof -
  have "tl_dirty_get (snd (tl_get c k now)) x = tl_dirty_get c x \<and>
      (fst (tl_get c k now) = Ok r \<longrightarrow> r = tl_dirty_get c k)"
  proof (cases "hm_get (tl_store c) k")
    case None
    then show ?thesis by (auto simp: tl_get_def tl_dirty_get_def)
  next
    case (Some d)
    obtain n m where eq: "tl_get c k now = tl_renew (tl_moved k d n m c) k (td_moved d n) now"
      and "freq_ok m"
      and "\<And>g j x. freq_at m g j x \<longleftrightarrow>
        (freq_at (tl_freq c) g j x \<and> (g, j) \<noteq> (td_freq d, td_lru_k d)) \<or> (g, j, x) = (Suc (td_freq d), n, k)"
      using tl_get_moves [OF c Some tl_counters_freq [OF cnt Some] tl_counters_numbers [OF c cnt], of now] by blast
    have "hm_get (tl_store (tl_moved k d n m c)) k = Some (td_moved d n)" by simp
    note ren = tl_renew_content [OF this, of now]
    show ?thesis
      using ren(1) [of x] ren(2) [of r] Some by (auto simp: eq tl_dirty_get_def hm_get_insert)
  qed
  then show "tl_dirty_get (snd (tl_get c k now)) x = tl_dirty_get c x"
    and "fst (tl_get c k now) = Ok r \<Longrightarrow> r = tl_dirty_get c k" by auto
qed

lemma tl_insert_content: "fst (tl_insert c k v t) = Ok () \<Longrightarrow> tl_dirty_get (snd (tl_insert c k v t)) k = Some v"
  by (auto simp: tl_insert_def Let_def tl_dirty_get_def split: if_splits prod.splits result.splits option.splits)

lemma tl_purge_content: "tl_dirty_get (tl_purge c) x = None"
  by (simp add: tl_dirty_get_def tl_purge_def)

interpretation tc: byte_cache tl_get tl_insert tl_dirty_get tl_purge tl_used tl_max tl_core tl_counters_ok
  "\<lambda>c v. tl_max c + byte_size v < 2 ^ 64" "\<lambda>t. t \<noteq> None"
proof unfold_locales
  fix c :: tlrfu and k v and t :: "nat option"
  assume "tl_core c" "tl_counters_ok c" "tl_max c + byte_size v < 2 ^ 64" "t \<noteq> None"
  then show "tl_core (snd (tl_insert c k v t))" using tl_insert_core_any by auto
next
  fix c assume "tl_core c"
  then show "tl_core (tl_purge c)" using tl_purge_inv by (simp add: tl_inv_def)
qed (simp_all add: tl_get_core_any tl_get_content tl_insert_content tl_coreD(5) tl_purge_content)

end
