(* ===== verification/Cache_Tests.thy ===== *)
theory Cache_Tests
  imports Tlrfu
begin

text \<open>
  The unit tests of the gateway's caches, \<open>cache/lru.rs\<close> and \<open>cache/tlrfu.rs\<close> with the mocked clock
  of \<open>util/timer.rs\<close>, run on the model. A test is a boolean: the calls of its body with every
  \<open>unwrap\<close>, and the conjunction of its assertions. The readings that the byte cache takes from
  the system clock are arguments of its tests, so that the theorems say for which clocks the
  tests pass.
\<close>

section \<open>Scripts\<close>

text \<open>\<open>insert(..).await.unwrap()\<close> in a row; \<open>None\<close> is a test that panicked.\<close>

fun lru_inserts :: "('k \<times> 'v) list \<Rightarrow> ('k, 'v) lru \<Rightarrow> ('k, 'v) lru option" where
  "lru_inserts [] l = Some l"
| "lru_inserts ((k, v) # kvs) l =
     (case lru_insert l k v of (Ok _, l1) \<Rightarrow> lru_inserts kvs l1 | _ \<Rightarrow> None)"

fun passes :: "'s option \<Rightarrow> ('s \<Rightarrow> bool) \<Rightarrow> bool" where
  "passes None P = False"
| "passes (Some s) P = P s"

abbreviation lru_walks :: "('k, 'v) lru \<Rightarrow> 'k list \<Rightarrow> bool" where
  "lru_walks l ks \<equiv> lru_len l = length ks \<and> ref_from_head l = ks \<and> ref_from_tail l = rev ks"

type_synonym test_lru = "(string, byte) lru"

section \<open>Tests of the linked list without a capacity\<close>

definition test_lru_new :: bool where
  "test_lru_new = (let l = (lru_new None :: test_lru) in lru_cap l = None \<and> lru_walks l [])"

definition test_lru_get_empty :: bool where
  "test_lru_get_empty = (lru_get (lru_new None :: test_lru) ''a'' = None)"

definition test_lru_remove_empty :: bool where
  "test_lru_remove_empty = (fst (lru_remove (lru_new None :: test_lru) ''a'') = None)"

definition test_lru_get_one :: bool where
  "test_lru_get_one = passes (lru_inserts [(''a'', 1)] (lru_new None :: test_lru)) (\<lambda>l. lru_get l ''a'' = Some 1)"

definition test_lru_get_two :: bool where
  "test_lru_get_two = passes (lru_inserts [(''a'', 1), (''b'', 2)] (lru_new None :: test_lru))
     (\<lambda>l. lru_get l ''a'' = Some 1 \<and> lru_get l ''b'' = Some 2)"

definition test_lru_get_three :: bool where
  "test_lru_get_three = passes (lru_inserts [(''a'', 1), (''b'', 2), (''c'', 3)] (lru_new None :: test_lru))
     (\<lambda>l. lru_get l ''a'' = Some 1 \<and> lru_get l ''b'' = Some 2 \<and> lru_get l ''c'' = Some 3)"

definition test_lru_remove_one :: bool where
  "test_lru_remove_one = passes (lru_inserts [(''a'', 1)] (lru_new None :: test_lru))
     (\<lambda>l. lru_walks (snd (lru_remove l ''a'')) [])"

definition test_lru_remove_head :: bool where
  "test_lru_remove_head = passes (lru_inserts [(''a'', 1), (''b'', 2)] (lru_new None :: test_lru))
     (\<lambda>l. case lru_remove_head l of
            (Ok _, l1) \<Rightarrow> lru_walks l1 [''b''] \<and> lru_get l1 ''a'' = None \<and> lru_get l1 ''b'' = Some 2
          | _ \<Rightarrow> False)"

definition test_lru_remove_tail :: bool where
  "test_lru_remove_tail = passes (lru_inserts [(''a'', 1), (''b'', 2)] (lru_new None :: test_lru))
     (\<lambda>l. let l1 = snd (lru_remove l ''b'')
          in lru_walks l1 [''a''] \<and> lru_get l1 ''a'' = Some 1 \<and> lru_get l1 ''b'' = None)"

definition test_lru_remove_mid :: bool where
  "test_lru_remove_mid = passes (lru_inserts [(''a'', 1), (''b'', 2), (''c'', 3)] (lru_new None :: test_lru))
     (\<lambda>l. let l1 = snd (lru_remove l ''b'')
          in lru_walks l1 [''a'', ''c''] \<and> lru_get l1 ''a'' = Some 1 \<and> lru_get l1 ''b'' = None \<and> lru_get l1 ''c'' = Some 3)"

definition test_lru_insert_duplicate :: bool where
  "test_lru_insert_duplicate = passes (lru_inserts [(''a'', 1)] (lru_new None :: test_lru))
     (\<lambda>l. case lru_insert l ''a'' 1 of (Err _, l1) \<Rightarrow> lru_walks l1 [''a''] | _ \<Rightarrow> False)"

definition test_lru_insert_one :: bool where
  "test_lru_insert_one = passes (lru_inserts [(''a'', 1)] (lru_new None :: test_lru)) (\<lambda>l. lru_walks l [''a''])"

definition test_lru_insert_two :: bool where
  "test_lru_insert_two =
     passes (lru_inserts [(''a'', 1), (''b'', 2)] (lru_new None :: test_lru)) (\<lambda>l. lru_walks l [''a'', ''b''])"

definition test_lru_insert_three :: bool where
  "test_lru_insert_three = passes (lru_inserts [(''a'', 1), (''b'', 2), (''c'', 3)] (lru_new None :: test_lru))
     (\<lambda>l. lru_walks l [''a'', ''b'', ''c''])"

section \<open>Tests of the linked list with a capacity\<close>

definition test_lru_cap_new :: bool where
  "test_lru_cap_new = (let l = (lru_new (Some 3) :: test_lru)
     in lru_cap l = Some 3 \<and> ref_from_head l = [] \<and> ref_from_tail l = [])"

definition test_lru_exceed_cap_0 :: bool where
  "test_lru_exceed_cap_0 = (case lru_insert (lru_new (Some 0) :: test_lru) ''a'' 1 of (Err _, _) \<Rightarrow> True | _ \<Rightarrow> False)"

definition test_lru_exceed_cap_1 :: bool where
  "test_lru_exceed_cap_1 =
     passes (lru_inserts [(''a'', 1), (''b'', 2), (''c'', 3), (''d'', 4)] (lru_new (Some 1) :: test_lru))
     (\<lambda>l. lru_walks l [''d''] \<and> lru_get l ''a'' = None \<and> lru_get l ''b'' = None \<and> lru_get l ''c'' = None \<and> lru_get l ''d'' = Some 4)"

definition test_lru_exceed_cap_3 :: bool where
  "test_lru_exceed_cap_3 =
     passes (lru_inserts [(''a'', 1), (''b'', 2), (''c'', 3), (''d'', 4)] (lru_new (Some 3) :: test_lru))
     (\<lambda>l. lru_walks l [''b'', ''c'', ''d''] \<and> lru_get l ''a'' = None \<and> lru_get l ''b'' = Some 2 \<and>
          lru_get l ''c'' = Some 3 \<and> lru_get l ''d'' = Some 4)"

lemmas lru_eval = lru_len_def lru_get_def lru_insert_def lru_contains_def lru_make_room_def lru_push_def lru_new_def
  lru_remove_def lru_remove_head_def lru_unlink_def set_next_def set_prev_def lru_get_first_key_def lru_node_key_def
  ref_from_head_def ref_from_tail_def lru_get_tail_key_def lru_is_empty_def hm_contains_def hm_get_def hm_insert_def hm_remove_def Let_def

lemma lru_unit_tests_no_cap:
  "test_lru_new" "test_lru_get_empty" "test_lru_remove_empty" "test_lru_get_one" "test_lru_get_two" "test_lru_get_three"
  "test_lru_remove_one" "test_lru_remove_head" "test_lru_remove_tail" "test_lru_remove_mid" "test_lru_insert_duplicate"
  "test_lru_insert_one" "test_lru_insert_two" "test_lru_insert_three"
  by (simp_all add: test_lru_new_def test_lru_get_empty_def test_lru_remove_empty_def test_lru_get_one_def test_lru_get_two_def
      test_lru_get_three_def test_lru_remove_one_def test_lru_remove_head_def test_lru_remove_tail_def test_lru_remove_mid_def
      test_lru_insert_duplicate_def test_lru_insert_one_def test_lru_insert_two_def test_lru_insert_three_def lru_eval)

lemma lru_unit_tests_cap:
  "test_lru_cap_new" "test_lru_exceed_cap_0" "test_lru_exceed_cap_1" "test_lru_exceed_cap_3"
  by (simp_all add: test_lru_cap_new_def test_lru_exceed_cap_0_def test_lru_exceed_cap_1_def test_lru_exceed_cap_3_def lru_eval)

section \<open>The mocked clock\<close>

text \<open>\<open>util/timer.rs\<close> in a test build: a time per thread that, when set, stands for the system's.\<close>

type_synonym mock_time = "nat option"

definition mock_now :: "mock_time \<Rightarrow> nat \<Rightarrow> nat" where
  "mock_now m system = (case m of None \<Rightarrow> system | Some t \<Rightarrow> t)"

definition set_mock_time :: "nat \<Rightarrow> mock_time \<Rightarrow> mock_time" where
  "set_mock_time t m = Some t"

definition clear_mock_time :: "mock_time \<Rightarrow> mock_time" where
  "clear_mock_time m = None"

section \<open>Tests of the byte cache\<close>

text \<open>Calls in a row, each with the reading of the clock it takes; a lookup must give the value.\<close>

fun tl_inserts :: "(nat \<times> string \<times> bytes) list \<Rightarrow> tlrfu \<Rightarrow> tlrfu option" where
  "tl_inserts [] c = Some c"
| "tl_inserts ((t, k, v) # xs) c =
     (case tl_insert c k v (Some t) of (Ok _, c1) \<Rightarrow> tl_inserts xs c1 | _ \<Rightarrow> None)"

fun tl_gets :: "(nat \<times> string \<times> bytes) list \<Rightarrow> tlrfu \<Rightarrow> tlrfu option" where
  "tl_gets [] c = Some c"
| "tl_gets ((t, k, v) # xs) c =
     (case tl_get c k (Some t) of (Ok (Some w), c1) \<Rightarrow> (if w = v then tl_gets xs c1 else None) | _ \<Rightarrow> None)"

definition tl_sizes :: "tlrfu \<Rightarrow> nat \<Rightarrow> nat \<Rightarrow> nat \<Rightarrow> nat \<Rightarrow> bool" where
  "tl_sizes c st fr tt used \<longleftrightarrow>
     length (tl_store c) = st \<and> length (tl_freq c) = fr \<and> length (tl_ttl c) = tt \<and> tl_used c = used"

definition tl_holds :: "tlrfu \<Rightarrow> string \<Rightarrow> bytes \<Rightarrow> nat \<Rightarrow> nat \<Rightarrow> bool" where
  "tl_holds c k v f i =
     (case hm_get (tl_store c) k of None \<Rightarrow> False | Some d \<Rightarrow> td_value d = v \<and> td_freq d = f \<and> td_lru_k d = i)"

definition tl_bucket :: "tlrfu \<Rightarrow> nat \<Rightarrow> nat \<Rightarrow> (nat \<times> string option) list \<Rightarrow> bool" where
  "tl_bucket c f n iks =
     (case bt_get (tl_freq c) f of
        None \<Rightarrow> False
      | Some l \<Rightarrow> lru_len l = n \<and> list_all (\<lambda>(i, ko). lru_get l i = ko) iks)"

definition test_tl_new :: bool where
  "test_tl_new = (let c = tl_new 200000000 0 in tl_sizes c 0 0 0 0 \<and> tl_max c = 200000000 \<and> tl_ttl_buf c = 0)"

definition test_tl_purge :: bool where
  "test_tl_purge = (let c = tl_purge (tl_new 200000000 0) in tl_sizes c 0 0 0 0 \<and> tl_max c = 200000000 \<and> tl_ttl_buf c = 0)"

definition test_tl_insert_duplicate :: "nat \<Rightarrow> nat \<Rightarrow> bool" where
  "test_tl_insert_duplicate t1 t2 =
     passes (tl_inserts [(t1, ''a'', [0])] (tl_new 200000000 0))
       (\<lambda>c. case tl_insert c ''a'' [0] (Some t2) of (Err _, _) \<Rightarrow> True | _ \<Rightarrow> False)"

definition test_tl_insert_one :: "nat \<Rightarrow> bool" where
  "test_tl_insert_one t1 =
     passes (tl_inserts [(t1, ''a'', [0])] (tl_new 200000000 0))
       (\<lambda>c. tl_holds c ''a'' [0] 1 0 \<and> tl_bucket c 1 1 [(0, Some ''a'')] \<and> tl_sizes c 1 1 1 1)"

definition test_tl_insert_two :: "nat \<Rightarrow> nat \<Rightarrow> bool" where
  "test_tl_insert_two t1 t2 =
     passes (tl_inserts [(t1, ''a'', [0]), (t2, ''b'', [1])] (tl_new 200000000 0))
       (\<lambda>c. tl_holds c ''b'' [1] 1 1 \<and> tl_bucket c 1 2 [(1, Some ''b'')] \<and> tl_sizes c 2 1 2 2)"

definition test_tl_get_empty :: "nat \<Rightarrow> nat \<Rightarrow> bool" where
  "test_tl_get_empty t1 t2 =
     passes (tl_inserts [(t1, ''a'', [0])] (tl_new 200000000 0)) (\<lambda>c. fst (tl_get c ''b'' (Some t2)) = Ok None)"

definition test_tl_get_one_one_bucket :: "nat \<Rightarrow> nat \<Rightarrow> bool" where
  "test_tl_get_one_one_bucket t1 t2 =
     passes (Option.bind (tl_inserts [(t1, ''a'', [0])] (tl_new 200000000 0)) (tl_gets [(t2, ''a'', [0])]))
       (\<lambda>c. tl_holds c ''a'' [0] 2 0 \<and> length (tl_freq c) = 1 \<and> tl_bucket c 2 1 [(0, Some ''a'')])"

definition test_tl_get_one_two_bucket :: "nat \<Rightarrow> nat \<Rightarrow> nat \<Rightarrow> bool" where
  "test_tl_get_one_two_bucket t1 t2 t3 =
     passes (Option.bind (tl_inserts [(t1, ''a'', [0]), (t2, ''b'', [1])] (tl_new 200000000 0)) (tl_gets [(t3, ''b'', [1])]))
       (\<lambda>c. tl_holds c ''b'' [1] 2 0 \<and> length (tl_freq c) = 2 \<and> tl_bucket c 2 1 [(0, Some ''b'')])"

definition test_tl_get_two_one_bucket :: "nat \<Rightarrow> nat \<Rightarrow> nat \<Rightarrow> bool" where
  "test_tl_get_two_one_bucket t1 t2 t3 =
     passes (Option.bind (tl_inserts [(t1, ''a'', [0])] (tl_new 200000000 0)) (tl_gets [(t2, ''a'', [0]), (t3, ''a'', [0])]))
       (\<lambda>c. tl_holds c ''a'' [0] 3 0 \<and> length (tl_freq c) = 1 \<and> tl_bucket c 3 1 [(0, Some ''a'')])"

definition test_tl_get_two_two_bucket :: "nat \<Rightarrow> nat \<Rightarrow> nat \<Rightarrow> nat \<Rightarrow> bool" where
  "test_tl_get_two_two_bucket t1 t2 t3 t4 =
     passes (Option.bind (tl_inserts [(t1, ''a'', [0]), (t2, ''b'', [1])] (tl_new 200000000 0))
         (tl_gets [(t3, ''b'', [1]), (t4, ''b'', [1])]))
       (\<lambda>c. tl_holds c ''b'' [1] 3 0 \<and> length (tl_freq c) = 2 \<and> tl_bucket c 3 1 [(0, Some ''b'')])"

definition test_tl_exceed_one_bucket :: "nat \<Rightarrow> nat \<Rightarrow> nat \<Rightarrow> bool" where
  "test_tl_exceed_one_bucket t1 t2 t3 =
     passes (tl_inserts [(t1, ''a'', [0]), (t2, ''b'', [1]), (t3, ''c'', [2])] (tl_new 2 0))
       (\<lambda>c. hm_get (tl_store c) ''a'' = None \<and> tl_holds c ''b'' [1] 1 1 \<and> tl_holds c ''c'' [2] 1 2 \<and>
          tl_bucket c 1 2 [(0, None), (1, Some ''b''), (2, Some ''c'')] \<and> tl_sizes c 2 1 2 2)"

definition test_tl_exceed_two_bucket :: "nat \<Rightarrow> nat \<Rightarrow> nat \<Rightarrow> nat \<Rightarrow> nat \<Rightarrow> nat \<Rightarrow> bool" where
  "test_tl_exceed_two_bucket t1 t2 t3 t4 t5 t6 =
     passes (Option.bind (Option.bind (tl_inserts [(t1, ''a'', [0]), (t2, ''b'', [1])] (tl_new 2 0))
         (tl_gets [(t3, ''a'', [0]), (t4, ''a'', [0]), (t5, ''b'', [1])])) (tl_inserts [(t6, ''c'', [2])]))
       (\<lambda>c. tl_holds c ''a'' [0] 3 0 \<and> hm_get (tl_store c) ''b'' = None \<and> tl_holds c ''c'' [2] 1 0 \<and>
          tl_bucket c 1 1 [(0, Some ''c'')] \<and> tl_bucket c 3 1 [(0, Some ''a'')] \<and> tl_sizes c 2 2 2 2)"

definition test_tl_exceed_many_deleted :: "nat \<Rightarrow> nat \<Rightarrow> nat \<Rightarrow> nat \<Rightarrow> bool" where
  "test_tl_exceed_many_deleted t1 t2 t3 t4 =
     passes (tl_inserts [(t1, ''a'', [0]), (t2, ''b'', [1]), (t3, ''c'', [2]), (t4, ''d'', [3, 4, 5])] (tl_new 3 0))
       (\<lambda>c. hm_get (tl_store c) ''a'' = None \<and> hm_get (tl_store c) ''b'' = None \<and> hm_get (tl_store c) ''c'' = None \<and>
          tl_holds c ''d'' [3, 4, 5] 1 0 \<and> tl_bucket c 1 1 [(0, Some ''d'')] \<and> tl_sizes c 1 1 1 3)"

text \<open>
  The tests of the clean-up. \<open>t4\<close> is the reading from which the mocked time is computed; once
  it is set, every later reading is that time.
\<close>

definition test_tl_clean_up_successfully :: "nat \<Rightarrow> nat \<Rightarrow> nat \<Rightarrow> nat \<Rightarrow> bool" where
  "test_tl_clean_up_successfully t1 t2 t3 t4 =
     passes (tl_inserts [(t1, ''a'', [0]), (t2, ''b'', [1]), (t3, ''c'', [2])] (tl_new 3 1000000000))
       (\<lambda>c. let m = set_mock_time (mock_now None t4 + 1000000000) None
            in case tl_process_ttl_clean_up (\<lambda>i. Some (mock_now m t4)) c of
                 (Ok n, c1) \<Rightarrow> n = 3 \<and> tl_sizes c1 0 0 0 0
               | _ \<Rightarrow> False)"

definition test_tl_clean_up_partial :: "nat \<Rightarrow> nat \<Rightarrow> nat \<Rightarrow> bool" where
  "test_tl_clean_up_partial t1 t2 t4 =
     (let m = set_mock_time (mock_now None t4 + 1000000000) None
      in passes (tl_inserts [(t1, ''a'', [0]), (t2, ''b'', [1]), (mock_now m t4, ''c'', [2])] (tl_new 3 1000000000))
           (\<lambda>c. case tl_process_ttl_clean_up (\<lambda>i. Some (mock_now m t4)) c of
                  (Ok n, c1) \<Rightarrow> n = 2 \<and> tl_sizes c1 1 1 1 1
                | _ \<Rightarrow> False))"

definition test_tl_clean_up_skip :: "nat \<Rightarrow> nat \<Rightarrow> nat \<Rightarrow> nat \<Rightarrow> bool" where
  "test_tl_clean_up_skip t1 t2 t3 t4 =
     passes (tl_inserts [(t1, ''a'', [0]), (t2, ''b'', [1]), (t3, ''c'', [2])] (tl_new 3 1000000000))
       (\<lambda>c. let m = set_mock_time (mock_now None t4 + 900000000) None
            in case tl_process_ttl_clean_up (\<lambda>i. Some (mock_now m t4)) c of
                 (Ok n, c1) \<Rightarrow> n = 0 \<and> tl_sizes c1 3 1 3 3
               | _ \<Rightarrow> False)"

definition test_tl_renew_on_get :: "nat \<Rightarrow> nat \<Rightarrow> bool" where
  "test_tl_renew_on_get t1 t2 =
     passes (tl_inserts [(t1, ''a'', [0])] (tl_new 3 0))
       (\<lambda>c. case hm_get (tl_store c) ''a'' of
              None \<Rightarrow> False
            | Some d \<Rightarrow> bt_get (tl_ttl c) (td_ttl d) \<noteq> None \<and>
                passes (tl_gets [(t2, ''a'', [0])] c)
                  (\<lambda>c1. bt_get (tl_ttl c1) (td_ttl d) = None \<and>
                     (case hm_get (tl_store c1) ''a'' of
                        None \<Rightarrow> False
                      | Some d1 \<Rightarrow> td_ttl d < td_ttl d1 \<and> bt_get (tl_ttl c1) (td_ttl d1) \<noteq> None) \<and>
                     length (tl_ttl c1) = 1))"

section \<open>The tests pass\<close>

lemmas tl_eval = tl_sizes_def tl_holds_def tl_bucket_def tl_new_def tl_purge_def tl_insert_def tl_contains_def tl_get_def
  tl_renew_def tl_evict_one_def tl_is_size_exceeded_def byte_size_def put_back_def bucket_or_new_def next_number_def
  bt_get_def bt_remove_def tl_evict.simps tl_clean.simps tl_expire_one_def tl_process_ttl_clean_up_def
  mock_now_def set_mock_time_def u64_add_def u64_sub_def lru_eval

text \<open>The readings of a clock that moves between any two calls.\<close>

definition ticking :: "nat list \<Rightarrow> bool" where
  "ticking ts \<longleftrightarrow> sorted_wrt (<) ts \<and> list_all (\<lambda>t. t < 2 ^ 64) ts"

lemma before_eval:
  "t < (t' :: nat) \<Longrightarrow> t < t' \<and> t \<noteq> t' \<and> t' \<noteq> t \<and> \<not> t' < t \<and> \<not> t' \<le> t \<and> t \<le> t'"
  by simp

lemma u128_add_eval:
  "t < 2 ^ 64 \<Longrightarrow> u128_add t 0 = t \<and> u128_add t 1000000000 = t + 1000000000 \<and>
     u128_add (t + 1000000000) 1000000000 = t + 2000000000"
  by (simp add: u128_add_def)

lemma tl_unit_tests_2:
  assumes "ticking [t1, t2]"
  shows "test_tl_new" "test_tl_purge" "test_tl_insert_duplicate t1 t2" "test_tl_insert_one t1" "test_tl_insert_two t1 t2"
    "test_tl_get_empty t1 t2" "test_tl_get_one_one_bucket t1 t2" "test_tl_renew_on_get t1 t2"
proof -
  from assms have t: "t1 < t2" "t1 < 2 ^ 64" "t2 < 2 ^ 64" by (simp_all add: ticking_def)
  note ev = tl_eval before_eval [OF t(1)] t(2-) [THEN u128_add_eval]
  show "test_tl_new" "test_tl_purge" "test_tl_insert_duplicate t1 t2" "test_tl_insert_one t1" "test_tl_insert_two t1 t2"
    "test_tl_get_empty t1 t2" "test_tl_get_one_one_bucket t1 t2" "test_tl_renew_on_get t1 t2"
    by (simp_all add: ev test_tl_new_def test_tl_purge_def test_tl_insert_duplicate_def test_tl_insert_one_def
        test_tl_insert_two_def test_tl_get_empty_def test_tl_get_one_one_bucket_def test_tl_renew_on_get_def)
qed

lemma tl_unit_tests_4:
  assumes "ticking [t1, t2, t3, t4]"
  shows "test_tl_get_one_two_bucket t1 t2 t3" "test_tl_get_two_one_bucket t1 t2 t3" "test_tl_get_two_two_bucket t1 t2 t3 t4"
    "test_tl_exceed_one_bucket t1 t2 t3" "test_tl_exceed_many_deleted t1 t2 t3 t4"
    "test_tl_clean_up_successfully t1 t2 t3 t4" "test_tl_clean_up_partial t1 t2 t4"
    "t4 < t1 + 100000000 \<Longrightarrow> test_tl_clean_up_skip t1 t2 t3 t4"
proof -
  from assms have t: "t1 < t2" "t1 < t3" "t1 < t4" "t2 < t3" "t2 < t4" "t3 < t4"
    and b: "t1 < 2 ^ 64" "t2 < 2 ^ 64" "t3 < 2 ^ 64" "t4 < 2 ^ 64" by (simp_all add: ticking_def)
  note ev = tl_eval before_eval [OF t(1)] before_eval [OF t(2)] before_eval [OF t(3)] before_eval [OF t(4)]
    before_eval [OF t(5)] before_eval [OF t(6)] b [THEN u128_add_eval]
  show "test_tl_get_one_two_bucket t1 t2 t3" "test_tl_get_two_one_bucket t1 t2 t3" "test_tl_get_two_two_bucket t1 t2 t3 t4"
    "test_tl_exceed_one_bucket t1 t2 t3" "test_tl_exceed_many_deleted t1 t2 t3 t4"
    "test_tl_clean_up_successfully t1 t2 t3 t4"
    by (simp_all add: ev test_tl_get_one_two_bucket_def test_tl_get_two_one_bucket_def test_tl_get_two_two_bucket_def
        test_tl_exceed_one_bucket_def test_tl_exceed_many_deleted_def test_tl_clean_up_successfully_def)
  have m: "t1 < t4 + 1000000000" "t2 < t4 + 1000000000" "t4 + 1000000000 < t4 + 2000000000" using t by simp_all
  show "test_tl_clean_up_partial t1 t2 t4"
    using m by (simp add: ev test_tl_clean_up_partial_def)
  show "test_tl_clean_up_skip t1 t2 t3 t4" if "t4 < t1 + 100000000"
    using that by (simp add: ev test_tl_clean_up_skip_def)
qed

lemma tl_unit_tests_6:
  assumes "ticking [t1, t2, t3, t4, t5, t6]"
  shows "test_tl_exceed_two_bucket t1 t2 t3 t4 t5 t6"
proof -
  from assms have t: "t1 < t2" "t1 < t4" "t1 < t6" "t2 < t3" "t2 < t4" "t3 < t4" "t2 < t5" "t4 < t5" "t4 < t6"
      "t1 < t3" "t5 < t6" "t3 < t5"
    and b: "t1 < 2 ^ 64" "t2 < 2 ^ 64" "t3 < 2 ^ 64" "t4 < 2 ^ 64" "t5 < 2 ^ 64" "t6 < 2 ^ 64" by (simp_all add: ticking_def)
  note ev = tl_eval before_eval [OF t(1)] before_eval [OF t(2)] before_eval [OF t(3)] before_eval [OF t(4)]
    before_eval [OF t(5)] before_eval [OF t(6)] before_eval [OF t(7)] before_eval [OF t(8)]
    before_eval [OF t(9)] before_eval [OF t(10)] before_eval [OF t(11)] before_eval [OF t(12)]
    b [THEN u128_add_eval]
  show ?thesis by (simp add: ev test_tl_exceed_two_bucket_def)
qed

lemmas unit_tests_pass = lru_unit_tests_no_cap lru_unit_tests_cap tl_unit_tests_2 tl_unit_tests_4 tl_unit_tests_6

text \<open>
  The tests rely on a clock that moves: with two insertions at one reading the second expiry
  entry takes the place of the first, and the test that counts them fails.
\<close>

lemma insert_two_needs_ticks: "t < 2 ^ 64 \<Longrightarrow> \<not> test_tl_insert_two t t"
  by (simp add: tl_eval test_tl_insert_two_def)

end
