(* ===== verification/Telemetry.thy ===== *)
theory Telemetry
  imports Prelude
begin

text \<open>
  Logging and tracing of the processes, \<open>ursa-telemetry/src/lib.rs\<close>. The subscriber that \<open>init\<close> installs is
  the global state of the process; a filter is what the tracing library makes of a text, and the
  features of the build are fields of \<open>tele_ops\<close>.
\<close>

section \<open>Configuration\<close>

record telemetry_config =
  tc_name :: string
  tc_log_level :: "string option"
  tc_pretty_log :: bool
  tc_tokio_console :: bool
  tc_tree_tracer :: bool
  tc_chrome_tracer :: bool
  tc_jaeger_tracer :: bool

definition telemetry_new :: "string \<Rightarrow> telemetry_config" where
  "telemetry_new name = \<lparr>tc_name = name, tc_log_level = None, tc_pretty_log = False, tc_tokio_console = False,
     tc_tree_tracer = False, tc_chrome_tracer = False, tc_jaeger_tracer = False\<rparr>"

definition with_log_level :: "string \<Rightarrow> telemetry_config \<Rightarrow> telemetry_config" where
  "with_log_level log_level c = c\<lparr>tc_log_level := Some log_level\<rparr>"

definition with_pretty_log :: "telemetry_config \<Rightarrow> telemetry_config" where
  "with_pretty_log c = c\<lparr>tc_pretty_log := True\<rparr>"

definition with_tokio_console :: "telemetry_config \<Rightarrow> telemetry_config" where
  "with_tokio_console c = c\<lparr>tc_tokio_console := True\<rparr>"

definition with_tree_tracer :: "telemetry_config \<Rightarrow> telemetry_config" where
  "with_tree_tracer c = c\<lparr>tc_tree_tracer := True\<rparr>"

definition with_chrome_tracer :: "telemetry_config \<Rightarrow> telemetry_config" where
  "with_chrome_tracer c = c\<lparr>tc_chrome_tracer := True\<rparr>"

definition with_jaeger_tracer :: "telemetry_config \<Rightarrow> telemetry_config" where
  "with_jaeger_tracer c = c\<lparr>tc_jaeger_tracer := True\<rparr>"

lemmas telemetry_builders = telemetry_new_def with_log_level_def with_pretty_log_def with_tokio_console_def
  with_tree_tracer_def with_chrome_tracer_def with_jaeger_tracer_def

section \<open>Initialisation\<close>

text \<open>
  \<open>to_env\<close> is the variable \<open>RUST_LOG\<close>, \<open>to_parse\<close> reads a filter strictly and \<open>to_filter\<close> leaves out the
  directives it cannot read. \<open>to_jaeger\<close> installs the pipeline to the Jaeger agent under a service name.
\<close>

record 'f tele_ops =
  to_env :: "string option"
  to_parse :: "string \<Rightarrow> 'f option"
  to_filter :: "string \<Rightarrow> 'f"
  to_feature_console :: bool
  to_feature_tree :: bool
  to_feature_chrome :: bool
  to_jaeger :: "string \<Rightarrow> (unit, string) result"

datatype trace_layer = FmtLayer | PrettyLayer | ConsoleLayer | TreeLayer | ChromeLayer | JaegerLayer string | ErrorLayer

record 'f subscriber =
  sb_filter :: 'f
  sb_layers :: "trace_layer list"

definition env_filter :: "'f tele_ops \<Rightarrow> telemetry_config \<Rightarrow> 'f" where
  "env_filter ops c =
     (case Option.bind (to_env ops) (to_parse ops) of
        Some f \<Rightarrow> f
      | None \<Rightarrow> to_filter ops (unwrap_or ''INFO'' (tc_log_level c)))"

definition tracing_layers :: "'f tele_ops \<Rightarrow> telemetry_config \<Rightarrow> trace_layer list" where
  "tracing_layers ops c =
     [if tc_pretty_log c then PrettyLayer else FmtLayer] @
     (if to_feature_console ops \<and> tc_tokio_console c then [ConsoleLayer] else []) @
     (if to_feature_tree ops \<and> tc_tree_tracer c then [TreeLayer] else []) @
     (if to_feature_chrome ops \<and> tc_chrome_tracer c then [ChromeLayer] else [])"

text \<open>A second subscriber of the process panics.\<close>

definition telemetry_init ::
  "'f tele_ops \<Rightarrow> telemetry_config \<Rightarrow> 'f subscriber option \<Rightarrow> (unit, string) result \<times> 'f subscriber option" where
  "telemetry_init ops c g =
     (case (if tc_jaeger_tracer c then bind_res (to_jaeger ops (tc_name c)) (\<lambda>_. Ok [JaegerLayer (tc_name c)]) else Ok []) of
        Ok jaeger \<Rightarrow>
          (if g \<noteq> None then (Panic, g)
           else (Ok (), Some \<lparr>sb_filter = env_filter ops c, sb_layers = tracing_layers ops c @ jaeger @ [ErrorLayer]\<rparr>))
      | Err e \<Rightarrow> (Err e, g)
      | Panic \<Rightarrow> (Panic, g))"

text \<open>\<open>teardown\<close>: what the tracer provider still holds is sent, whatever layers there are.\<close>

definition teardown :: "'f subscriber option \<Rightarrow> string list" where
  "teardown g = (case g of None \<Rightarrow> [] | Some s \<Rightarrow> [n. JaegerLayer n \<leftarrow> sb_layers s])"

lemma telemetry_init_cases:
  assumes "telemetry_init ops c g = (r, g')"
  shows "r = Ok () \<and> g = None \<and> (\<exists>s. g' = Some s \<and> sb_filter s = env_filter ops c \<and>
      set (sb_layers s) = set (tracing_layers ops c) \<union> {ErrorLayer} \<union> (if tc_jaeger_tracer c then {JaegerLayer (tc_name c)} else {})) \<or>
    r \<noteq> Ok () \<and> g' = g"
  using assms by (cases "to_jaeger ops (tc_name c)") (auto simp: telemetry_init_def split: if_splits)

lemma telemetry_init_ok_iff:
  "is_ok (fst (telemetry_init ops c g)) \<longleftrightarrow> g = None \<and> (tc_jaeger_tracer c \<longrightarrow> is_ok (to_jaeger ops (tc_name c)))"
  by (cases "to_jaeger ops (tc_name c)") (auto simp: telemetry_init_def)

text \<open>A tracer that the build lacks, or that is not asked for, is not installed, and the order of the calls does not matter.\<close>

lemma tracing_layers_iff:
  "PrettyLayer \<in> set (tracing_layers ops c) \<longleftrightarrow> tc_pretty_log c"
  "FmtLayer \<in> set (tracing_layers ops c) \<longleftrightarrow> \<not> tc_pretty_log c"
  "ConsoleLayer \<in> set (tracing_layers ops c) \<longleftrightarrow> to_feature_console ops \<and> tc_tokio_console c"
  "TreeLayer \<in> set (tracing_layers ops c) \<longleftrightarrow> to_feature_tree ops \<and> tc_tree_tracer c"
  "ChromeLayer \<in> set (tracing_layers ops c) \<longleftrightarrow> to_feature_chrome ops \<and> tc_chrome_tracer c"
  by (auto simp: tracing_layers_def)

lemma teardown_flushes:
  assumes "telemetry_init ops c None = (Ok (), g)"
  shows "teardown g = (if tc_jaeger_tracer c then [tc_name c] else [])"
  using assms by (cases "to_jaeger ops (tc_name c)") (auto simp: telemetry_init_def teardown_def tracing_layers_def split: if_splits)

end
