(* ===== verification/Text.thy ===== *)
theory Text
  imports Prelude
begin

text \<open>
  What the sources use of the standard library's formatting: decimal and hexadecimal
  integers, IPv4 and IPv6 addresses, and joining with a separator.
\<close>

section \<open>Integers\<close>

function digits :: "nat \<Rightarrow> nat \<Rightarrow> string" where
  "digits b n = (if b < 2 then [] else if n < b then [''0123456789abcdef'' ! n]
     else digits b (n div b) @ [''0123456789abcdef'' ! (n mod b)])"
  by pat_completeness auto
termination
  by (relation "measure snd") auto

declare digits.simps [simp del]

definition dec :: "nat \<Rightarrow> string" where
  "dec n = digits 10 n"

definition hex :: "nat \<Rightarrow> string" where
  "hex n = digits 16 n"

lemma digits_nonempty [simp]: "2 \<le> b \<Longrightarrow> digits b n \<noteq> []"
  by (subst digits.simps) auto

lemma dec_nonempty [simp]: "dec n \<noteq> []"
  by (simp add: dec_def)

lemma digit_inj:
  assumes "m < 16" and "n < 16" and "''0123456789abcdef'' ! m = ''0123456789abcdef'' ! n"
  shows "m = n"
proof -
  have d: "distinct ''0123456789abcdef''" by simp
  have "length ''0123456789abcdef'' = 16" by simp
  with assms d show ?thesis by (metis nth_eq_iff_index_eq)
qed

lemma digits_inj:
  assumes "2 \<le> b" and "b \<le> 16" and "digits b m = digits b n"
  shows "m = n"
  using assms
proof (induction b m arbitrary: n rule: digits.induct)
  case (1 b m)
  note eqs = digits.simps [of b m] digits.simps [of b n]
  have nd: "digits b k \<noteq> []" "[] \<noteq> digits b k" for k
    using digits_nonempty [OF 1(2)] by (metis, metis)
  show ?case
  proof (cases "m < b")
    case True
    with 1(2,4) have "n < b" using eqs nd by (auto split: if_splits)
    with True 1(2,3,4) show ?thesis using eqs digit_inj [of m n] by auto
  next
    case False
    with 1(2,4) have nb: "\<not> n < b" using eqs nd by (auto split: if_splits)
    with False 1(2,4) have d: "digits b (m div b) = digits b (n div b)"
      and l: "''0123456789abcdef'' ! (m mod b) = ''0123456789abcdef'' ! (n mod b)"
      using eqs by auto
    have "m div b = n div b" using 1(1) [OF _ _ 1(2,3) d] False 1(2) by simp
    moreover have "m mod b < 16" "n mod b < 16"
      using 1(2,3) mod_less_divisor [of b m] mod_less_divisor [of b n] by linarith+
    then have "m mod b = n mod b" using digit_inj [OF _ _ l] by blast
    ultimately show ?thesis by (metis div_mult_mod_eq)
  qed
qed

lemma dec_inj [simp]: "dec m = dec n \<longleftrightarrow> m = n"
  using digits_inj [of 10 m n] by (auto simp: dec_def)

text \<open>A digit string has no separator in it.\<close>

lemma digits_set: "2 \<le> b \<Longrightarrow> b \<le> 16 \<Longrightarrow> set (digits b n) \<subseteq> set ''0123456789abcdef''"
proof (induction b n rule: digits.induct)
  case (1 b n)
  have "k < 16 \<Longrightarrow> ''0123456789abcdef'' ! k \<in> set ''0123456789abcdef''" for k
    by (rule nth_mem) simp
  moreover have "n mod b < 16" using 1(2,3) mod_less_divisor [of b n] by linarith
  ultimately show ?case using 1 by (subst digits.simps) auto
qed

section \<open>Joining\<close>

fun join :: "string \<Rightarrow> string list \<Rightarrow> string" where
  "join sep [] = []"
| "join sep [x] = x"
| "join sep (x # y # xs) = x @ sep @ join sep (y # xs)"

section \<open>Addresses\<close>

text \<open>\<open>Ipv4Addr::to_string\<close>: the four octets in decimal.\<close>

definition ip4_str :: "byte list \<Rightarrow> string" where
  "ip4_str os = join ''.'' (map (\<lambda>b. dec (unat b)) os)"

text \<open>
  \<open>Ipv6Addr::to_string\<close>: IPv4-mapped addresses in their own notation, otherwise the
  segments in hexadecimal with the first longest run of two or more zeros left out.
\<close>

fun zero_run :: "u16 list \<Rightarrow> nat" where
  "zero_run [] = 0"
| "zero_run (s # ss) = (if s = 0 then Suc (zero_run ss) else 0)"

fun longest_zeros :: "nat \<Rightarrow> u16 list \<Rightarrow> nat \<times> nat" where
  "longest_zeros i [] = (i, 0)"
| "longest_zeros i (s # ss) =
     (let (j, n) = longest_zeros (Suc i) ss; m = zero_run (s # ss)
      in if n \<le> m \<and> 0 < m then (i, m) else (j, n))"

definition ip6_str :: "u16 list \<Rightarrow> string" where
  "ip6_str ss =
     (let h = map (\<lambda>s. hex (unat s)) ss; (i, n) = longest_zeros 0 ss
      in if take 6 ss = [0, 0, 0, 0, 0, 65535]
         then ''::ffff:'' @ ip4_str (concat (map (\<lambda>s. [ucast (drop_bit 8 s), ucast s]) (drop 6 ss)))
         else if 1 < n then join '':'' (take i h) @ ''::'' @ join '':'' (drop (i + n) h)
         else join '':'' h)"

end
