(* ===== verification/Resolver.thy ===== *)
theory Resolver
  imports Text
begin

text \<open>
  The gateway's resolver, \<open>resolver/mod.rs\<close> and \<open>resolver/model.rs\<close>: it asks the indexer
  for the providers of a content id, picks the first provider of the network and tries its
  addresses in order. The HTTP client, the URI parser and the JSON, base64 and bincode
  decoders are third-party code: they are the fields of \<open>http_env\<close>, an argument of the
  definitions. The client may answer the same request differently each time, so
  \<open>http_get\<close> takes the number of the request within the run.
\<close>

section \<open>Data\<close>

datatype chunk = Chunk bytes | BodyError

record http_response =
  resp_status :: nat
  resp_body :: "chunk list"

datatype gw_error = Upstream nat string | Internal string

record node_response =
  nr_resp :: http_response
  nr_size :: nat

datatype protocol = Ip4 "byte list" | Ip6 "u16 list" | Tcp u16 | Https | OtherProtocol

type_synonym multiaddr = "protocol list"

record addr_info =
  ai_id :: string
  ai_addrs :: "multiaddr list"

record provider_result =
  pr_context_id :: string
  pr_metadata :: string
  pr_provider :: addr_info

record multihash_result =
  mh_multihash :: string
  mh_provider_results :: "provider_result list"

record indexer_response =
  ir_multihash_results :: "multihash_result list"

record metadata =
  md_protocol_id :: nat
  md_size :: nat
  md_data :: bytes

record 'u http_env =
  parse_uri :: "string \<Rightarrow> 'u option"
  http_get :: "nat \<Rightarrow> 'u \<Rightarrow> http_response option"
  to_bytes :: "chunk list \<Rightarrow> bytes option"
  from_slice :: "bytes \<Rightarrow> indexer_response option"
  base64_decode :: "string \<Rightarrow> bytes option"
  bincode_deserialize :: "bytes \<Rightarrow> metadata option"

definition status_ok :: nat where
  "status_ok = 200"

definition str_bytes :: "string \<Rightarrow> bytes" where
  "str_bytes s = map of_char s"

definition fleek_network_filter :: bytes where
  "fleek_network_filter = str_bytes ''FleekNetwork''"

section \<open>Resolving\<close>

definition fleek_provider :: "'u http_env \<Rightarrow> provider_result \<Rightarrow> (provider_result \<times> metadata) option" where
  "fleek_provider env p =
     (case base64_decode env (pr_metadata p) of
        None \<Rightarrow> None
      | Some b \<Rightarrow>
          (case bincode_deserialize env b of
             None \<Rightarrow> None
           | Some md \<Rightarrow> (if md_data md = fleek_network_filter then Some (p, md) else None)))"

fun addr_parts :: "multiaddr \<Rightarrow> string \<times> string \<times> string \<Rightarrow> string \<times> string \<times> string" where
  "addr_parts [] s = s"
| "addr_parts (Ip6 ip # ps) (protocol, host, port) = addr_parts ps (protocol, ip6_str ip, port)"
| "addr_parts (Ip4 ip # ps) (protocol, host, port) = addr_parts ps (protocol, ip4_str ip, port)"
| "addr_parts (Tcp p # ps) (protocol, host, port) = addr_parts ps (protocol, host, dec (unat p))"
| "addr_parts (Https # ps) (protocol, host, port) = addr_parts ps (''https'', host, port)"
| "addr_parts (OtherProtocol # ps) s = addr_parts ps s"

definition provider_address :: "multiaddr \<Rightarrow> string \<times> bool" where
  "provider_address m =
     (let (protocol, host, port) = addr_parts m (''http'', [], [])
      in (protocol @ ''://'' @ host @ '':'' @ port, host = [] \<or> port = []))"

definition provider_addresses :: "multiaddr list \<Rightarrow> string list" where
  "provider_addresses as = map fst (filter (\<lambda>(_, incomplete). \<not> incomplete) (map provider_address as))"

definition node_endpoint :: "string \<Rightarrow> string \<Rightarrow> string" where
  "node_endpoint addr cid = addr @ ''/ursa/v0/'' @ cid"

fun try_providers ::
  "'u http_env \<Rightarrow> nat \<Rightarrow> string \<Rightarrow> nat \<Rightarrow> string list \<Rightarrow> (node_response, gw_error) result" where
  "try_providers env n cid sz [] = Err (Internal ''Failed to get data'')"
| "try_providers env n cid sz (a # as) =
     (case parse_uri env (node_endpoint a cid) of
        None \<Rightarrow> try_providers env n cid sz as
      | Some u \<Rightarrow>
          (case http_get env n u of
             Some r \<Rightarrow> Ok \<lparr>nr_resp = r, nr_size = sz\<rparr>
           | None \<Rightarrow> try_providers env (Suc n) cid sz as))"

text \<open>The request to the indexer, up to its parsed answer.\<close>

definition ask_indexer :: "'u http_env \<Rightarrow> string \<Rightarrow> (indexer_response, gw_error) result" where
  "ask_indexer env endpoint =
     (case parse_uri env endpoint of
        None \<Rightarrow> Err (Internal (''Error parsed uri: '' @ endpoint))
      | Some u \<Rightarrow>
          (case http_get env 0 u of
             None \<Rightarrow> Err (Internal (''Error requested indexer: '' @ endpoint))
           | Some r \<Rightarrow>
               if resp_status r \<noteq> status_ok
               then Err (Upstream (resp_status r) (''Error requested indexer: '' @ endpoint))
               else (case to_bytes env (resp_body r) of
                       None \<Rightarrow> Err (Internal (''Error read data from indexer '' @ endpoint))
                     | Some bs \<Rightarrow>
                         (case from_slice env bs of
                            None \<Rightarrow> Err (Internal (''Error parsed indexer response from indexer: '' @ endpoint))
                          | Some ir \<Rightarrow> Ok ir))))"

definition resolve_content :: "'u http_env \<Rightarrow> string \<Rightarrow> string \<Rightarrow> (node_response, gw_error) result" where
  "resolve_content env indexer_cid_url cid =
     bind_res (ask_indexer env (indexer_cid_url @ ''/'' @ cid)) (\<lambda>ir.
       case ir_multihash_results ir of
         [] \<Rightarrow> Err (Internal ''Indexer result did not contain a multi-hash result'')
       | mh # _ \<Rightarrow>
           (case List.map_filter (fleek_provider env) (mh_provider_results mh) of
              [] \<Rightarrow> Err (Internal ''Multi-hash result did not contain a provider'')
            | (p, md) # _ \<Rightarrow>
                (let addrs = provider_addresses (ai_addrs (pr_provider p))
                 in if addrs = [] then Err (Internal ''Failed to get a valid address for provider'')
                    else try_providers env 1 cid (md_size md) addrs)))"

section \<open>Addresses\<close>

fun well_formed_proto :: "protocol \<Rightarrow> bool" where
  "well_formed_proto (Ip4 ip) = (length ip = 4)"
| "well_formed_proto (Ip6 ip) = (length ip = 8)"
| "well_formed_proto _ = True"

fun is_ip :: "protocol \<Rightarrow> bool" where
  "is_ip (Ip4 _) = True"
| "is_ip (Ip6 _) = True"
| "is_ip _ = False"

fun is_tcp :: "protocol \<Rightarrow> bool" where
  "is_tcp (Tcp _) = True"
| "is_tcp _ = False"

lemma join_nonempty: "xs \<noteq> [] \<Longrightarrow> [] \<notin> set xs \<Longrightarrow> join sep xs \<noteq> []"
  by (induction sep xs rule: join.induct) auto

lemma join_digits_nonempty:
  assumes "xs \<noteq> []" and "2 \<le> b"
  shows "join sep (map (\<lambda>x. digits b (f x)) xs) \<noteq> []"
proof (rule join_nonempty)
  show "[] \<notin> set (map (\<lambda>x. digits b (f x)) xs)"
    using digits_nonempty [OF assms(2)] by (auto dest: sym)
qed (use assms in simp)

lemma ip4_str_nonempty: "ip \<noteq> [] \<Longrightarrow> ip4_str ip \<noteq> []"
  by (simp add: ip4_str_def dec_def join_digits_nonempty)

lemma ip6_str_nonempty: "ip \<noteq> [] \<Longrightarrow> ip6_str ip \<noteq> []"
  by (simp add: ip6_str_def Let_def hex_def case_prod_unfold join_digits_nonempty)

lemma ip_str_nonempty: "length ip = 4 \<Longrightarrow> ip4_str ip \<noteq> []" "length ss = 8 \<Longrightarrow> ip6_str ss \<noteq> []"
  by (rule ip4_str_nonempty, force, rule ip6_str_nonempty, force)

lemma addr_parts_host:
  assumes "\<forall>q \<in> set m. well_formed_proto q"
  shows "fst (snd (addr_parts m (s, h, p))) = [] \<longleftrightarrow> h = [] \<and> \<not> (\<exists>q \<in> set m. is_ip q)"
  using assms
proof (induction m arbitrary: s h p)
  case Nil
  then show ?case by simp
next
  case (Cons q m)
  then show ?case
    by (cases q) (auto simp: ip_str_nonempty)
qed

lemma addr_parts_port:
  "snd (snd (addr_parts m (s, h, p))) = [] \<longleftrightarrow> p = [] \<and> \<not> (\<exists>q \<in> set m. is_tcp q)"
proof (induction m arbitrary: s h p)
  case Nil
  then show ?case by simp
next
  case (Cons q m)
  then show ?case by (cases q) auto
qed

section \<open>Properties\<close>

text \<open>
  An address of a provider can be queried exactly when it names an IP address and a
  TCP port; all others are left out before any request is made.
\<close>

theorem provider_address_complete:
  assumes "\<forall>q \<in> set m. well_formed_proto q"
  shows "snd (provider_address m) \<longleftrightarrow> \<not> ((\<exists>q \<in> set m. is_ip q) \<and> (\<exists>q \<in> set m. is_tcp q))"
  using addr_parts_host [OF assms, of "''http''" "[]" "[]"] addr_parts_port [of m "''http''" "[]" "[]"]
  by (auto simp: provider_address_def case_prod_unfold Let_def)

theorem provider_address_complete_witness:
  "\<not> snd (provider_address [Ip4 [127, 0, 0, 1], Tcp 4069])"
  by (subst provider_address_complete) simp_all

lemma try_providers_Ok:
  assumes "try_providers env n cid sz as = Ok r"
  shows "\<exists>pre a post u i. as = pre @ a # post \<and> parse_uri env (node_endpoint a cid) = Some u \<and>
    http_get env i u = Some (nr_resp r) \<and> n \<le> i \<and> nr_size r = sz \<and>
    (\<forall>b \<in> set pre. parse_uri env (node_endpoint b cid) = None \<or>
       (\<exists>v j. parse_uri env (node_endpoint b cid) = Some v \<and> j < i \<and> http_get env j v = None))"
  using assms
proof (induction as arbitrary: n)
  case Nil
  then show ?case by simp
next
  case (Cons a as)
  show ?case
  proof (cases "\<exists>u r'. parse_uri env (node_endpoint a cid) = Some u \<and> http_get env n u = Some r'")
    case True
    show ?thesis
      by (rule exI [of _ "[]"], rule exI [of _ a], rule exI [of _ as]) (use True Cons.prems order_refl in force)
  next
    case False
    then obtain m where m: "try_providers env m cid sz as = Ok r" "n \<le> m"
      and a: "parse_uri env (node_endpoint a cid) = None \<or>
        (\<exists>v. parse_uri env (node_endpoint a cid) = Some v \<and> n < m \<and> http_get env n v = None)"
      using Cons.prems by (auto split: option.splits)
    from Cons.IH [OF m(1)] obtain pre b post u i where *: "as = pre @ b # post"
      "parse_uri env (node_endpoint b cid) = Some u" "http_get env i u = Some (nr_resp r)" "m \<le> i" "nr_size r = sz"
      "\<forall>b \<in> set pre. parse_uri env (node_endpoint b cid) = None \<or>
         (\<exists>v j. parse_uri env (node_endpoint b cid) = Some v \<and> j < i \<and> http_get env j v = None)" by blast
    have "parse_uri env (node_endpoint a cid) = None \<or>
        (\<exists>v j. parse_uri env (node_endpoint a cid) = Some v \<and> j < i \<and> http_get env j v = None)"
      using a \<open>m \<le> i\<close> order.strict_trans2 by blast
    note fails = this
    show ?thesis
      by (rule exI [of _ "a # pre"], rule exI [of _ b], rule exI [of _ post], rule exI [of _ u], rule exI [of _ i])
         (use * m(2) fails in auto)
  qed
qed

lemma map_filter_Cons_split:
  assumes "List.map_filter f xs = y # ys"
  shows "\<exists>pre x post. xs = pre @ x # post \<and> f x = Some y \<and> (\<forall>z \<in> set pre. f z = None)"
  using assms
proof (induction xs)
  case Nil
  then show ?case by simp
next
  case (Cons x xs)
  show ?case
  proof (cases "f x")
    case None
    with Cons obtain pre z post where "xs = pre @ z # post" "f z = Some y" "\<forall>z \<in> set pre. f z = None"
      by auto
    note * = this
    show ?thesis by (rule exI [of _ "x # pre"], rule exI [of _ z], rule exI [of _ post]) (use * None in auto)
  next
    case (Some w)
    show ?thesis
      by (rule exI [of _ "[]"], rule exI [of _ x], rule exI [of _ xs]) (use Some Cons.prems in simp)
  qed
qed

text \<open>
  C37. A resolved content comes from the first provider of the indexer's answer whose
  metadata names the network, from the first of its complete addresses that answers; every
  address before it could not be parsed or did not answer, and the announced size is the
  one of that provider's metadata.
\<close>

theorem resolve_content_sound:
  assumes "resolve_content env url cid = Ok r"
  shows "\<exists>ir mh rest ps q qs md pre a post u i.
     ask_indexer env (url @ ''/'' @ cid) = Ok ir \<and> ir_multihash_results ir = mh # rest \<and>
     mh_provider_results mh = ps @ q # qs \<and> fleek_provider env q = Some (q, md) \<and>
     (\<forall>x \<in> set ps. fleek_provider env x = None) \<and> nr_size r = md_size md \<and>
     provider_addresses (ai_addrs (pr_provider q)) = pre @ a # post \<and>
     parse_uri env (node_endpoint a cid) = Some u \<and> http_get env i u = Some (nr_resp r) \<and>
     (\<forall>b \<in> set pre. parse_uri env (node_endpoint b cid) = None \<or>
        (\<exists>v j. parse_uri env (node_endpoint b cid) = Some v \<and> j < i \<and> http_get env j v = None))"
proof -
  from assms obtain ir mh rest p md more where ir: "ask_indexer env (url @ ''/'' @ cid) = Ok ir"
    and mh: "ir_multihash_results ir = mh # rest"
    and p: "List.map_filter (fleek_provider env) (mh_provider_results mh) = (p, md) # more"
    and tr: "try_providers env 1 cid (md_size md) (provider_addresses (ai_addrs (pr_provider p))) = Ok r"
    unfolding resolve_content_def bind_res_Ok_iff Let_def
    by (elim exE conjE) (simp split: list.split_asm prod.split_asm if_split_asm)
  from map_filter_Cons_split [OF p] obtain ps q qs where q: "mh_provider_results mh = ps @ q # qs"
    "fleek_provider env q = Some (p, md)" "\<forall>x \<in> set ps. fleek_provider env x = None" by blast
  have "p = q" using q(2) by (auto simp: fleek_provider_def split: option.splits if_splits)
  with ir mh q try_providers_Ok [OF tr] show ?thesis by blast
qed

text \<open>An environment in which the indexer and one node answer.\<close>

definition demo_provider :: provider_result where
  "demo_provider = \<lparr>pr_context_id = ''ctx'', pr_metadata = ''meta'',
     pr_provider = \<lparr>ai_id = ''id'', ai_addrs = [[OtherProtocol, Tcp 80], [Ip4 [10, 0, 0, 1], Tcp 4069, Https]]\<rparr>\<rparr>"

definition demo_env :: "string http_env" where
  "demo_env = \<lparr>parse_uri = Some,
     http_get = (\<lambda>n u. Some \<lparr>resp_status = 200, resp_body = [Chunk [1, 2], Chunk [3]]\<rparr>),
     to_bytes = (\<lambda>cs. Some []),
     from_slice = (\<lambda>bs. Some \<lparr>ir_multihash_results =
        [\<lparr>mh_multihash = ''mh'', mh_provider_results = [demo_provider]\<rparr>]\<rparr>),
     base64_decode = (\<lambda>s. Some []),
     bincode_deserialize = (\<lambda>bs. Some \<lparr>md_protocol_id = 0, md_size = 3, md_data = fleek_network_filter\<rparr>)\<rparr>"

lemma demo_resolve:
  "resolve_content demo_env url cid =
     Ok \<lparr>nr_resp = \<lparr>resp_status = 200, resp_body = [Chunk [1, 2], Chunk [3]]\<rparr>, nr_size = 3\<rparr>"
  by (simp add: resolve_content_def demo_env_def ask_indexer_def status_ok_def fleek_provider_def
      demo_provider_def List.map_filter_simps provider_addresses_def provider_address_def ip_str_nonempty)

theorem resolve_content_sound_witness:
  "\<exists>q md a post u. fleek_provider demo_env q = Some (q, md) \<and> md_size md = 3 \<and>
     provider_addresses (ai_addrs (pr_provider q)) = a # post \<and> parse_uri demo_env (node_endpoint a ''c'') = Some u"
  using resolve_content_sound [OF demo_resolve, of "''u''" "''c''"]
proof (elim exE conjE)
  fix ir mh rest ps q qs md pre a post u i
  assume "fleek_provider demo_env q = Some (q, md)" and sz: "nr_size \<lparr>nr_resp = \<lparr>resp_status = 200,
      resp_body = [Chunk [1, 2], Chunk [3]]\<rparr>, nr_size = 3\<rparr> = md_size md"
    and "provider_addresses (ai_addrs (pr_provider q)) = pre @ a # post"
  moreover obtain b more where "pre @ a # post = b # more" by (cases pre) auto
  moreover have "parse_uri demo_env x = Some x" for x by (simp add: demo_env_def)
  ultimately show ?thesis by fastforce
qed

lemma try_providers_error:
  "try_providers env n cid sz as = Err e \<Longrightarrow> e = Internal ''Failed to get data''"
  by (induction as arbitrary: n) (auto split: option.splits)

text \<open>
  The gateway reports an upstream status exactly when the indexer answered with a
  status other than 200, and then reports that status; every other failure is internal.
\<close>

theorem resolve_upstream_status:
  "(\<exists>msg. resolve_content env url cid = Err (Upstream s msg)) \<longleftrightarrow>
   (\<exists>u r. parse_uri env (url @ ''/'' @ cid) = Some u \<and> http_get env 0 u = Some r \<and>
          resp_status r = s \<and> s \<noteq> status_ok)"
proof -
  let ?ask = "ask_indexer env (url @ ''/'' @ cid)"
  have "resolve_content env url cid = Err (Upstream s msg) \<longleftrightarrow> ?ask = Err (Upstream s msg)" for msg
    by (cases ?ask)
       (auto simp: resolve_content_def Let_def split: list.split prod.split dest: try_providers_error)
  moreover have "(\<exists>msg. ?ask = Err (Upstream s msg)) \<longleftrightarrow>
     (\<exists>u r. parse_uri env (url @ ''/'' @ cid) = Some u \<and> http_get env 0 u = Some r \<and>
          resp_status r = s \<and> s \<noteq> status_ok)"
    by (auto simp: ask_indexer_def split: option.split)
  ultimately show ?thesis by blast
qed

end
