(* ===== verification/Gateway_Config.thy ===== *)
theory Gateway_Config
  imports Prelude
begin

text \<open>
  The gateway's configuration, \<open>config.rs\<close> and \<open>cli.rs\<close>: the records read from the
  configuration file, their defaults, and the merge of the command line over them. The
  home directory that the build bakes in is an argument; the file is in \<open>Gateway_Daemon\<close>.
\<close>

record server_config =
  sc_port :: u16
  sc_addr :: string
  sc_request_timeout :: nat
  sc_concurrency_limit :: u32
  sc_cert_path :: string
  sc_key_path :: string
  sc_stream_buf :: nat
  sc_cache_control_max_age :: nat
  sc_cache_control_max_size :: nat

record admin_config =
  ac_port :: u16
  ac_addr :: string

record indexer_config =
  ic_cid_url :: string

record cache_config =
  cc_max_size :: nat
  cc_ttl_buf :: nat

record worker_config =
  wc_ttl_cache_interval :: nat

record gateway_config =
  gc_log_level :: string
  gc_server :: server_config
  gc_admin_server :: admin_config
  gc_indexer :: indexer_config
  gc_cache :: cache_config
  gc_worker :: worker_config

record daemon_cmd_opts =
  do_server_port :: "u16 option"
  do_server_addr :: "string option"
  do_request_timeout :: "nat option"
  do_concurrency_limit :: "u32 option"
  do_tls_cert_path :: "string option"
  do_tls_key_path :: "string option"
  do_server_stream_buffer :: "nat option"
  do_cache_control_max_age :: "nat option"
  do_cache_control_max_size :: "nat option"
  do_admin_port :: "u16 option"
  do_admin_addr :: "string option"
  do_indexer_cid_url :: "string option"
  do_max_cache_size :: "nat option"
  do_ttl_buf :: "nat option"
  do_ttl_cache_interval :: "nat option"

datatype level = Trace | Debug | Info | Warn | Error_level

fun level_str :: "level \<Rightarrow> string" where
  "level_str Trace = ''TRACE''"
| "level_str Debug = ''DEBUG''"
| "level_str Info = ''INFO''"
| "level_str Warn = ''WARN''"
| "level_str Error_level = ''ERROR''"

definition default_gateway_config :: "string \<Rightarrow> gateway_config" where
  "default_gateway_config home =
     \<lparr>gc_log_level = ''INFO'',
      gc_server = \<lparr>sc_port = 443, sc_addr = ''0.0.0.0'', sc_request_timeout = 5000,
        sc_concurrency_limit = 100000,
        sc_cert_path = home @ ''/.ursa/gateway'' @ ''/cert.pem'',
        sc_key_path = home @ ''/.ursa/gateway'' @ ''/key.pem'',
        sc_stream_buf = 2000000, sc_cache_control_max_age = 604800,
        sc_cache_control_max_size = 1000000000\<rparr>,
      gc_admin_server = \<lparr>ac_port = 5001, ac_addr = ''0.0.0.0''\<rparr>,
      gc_indexer = \<lparr>ic_cid_url = ''https://cid.contact/cid''\<rparr>,
      gc_cache = \<lparr>cc_max_size = 200000000, cc_ttl_buf = 5 * 60 * 1000\<rparr>,
      gc_worker = \<lparr>wc_ttl_cache_interval = 5 * 60 * 1000\<rparr>\<rparr>"

definition merge_log_level :: "level option \<Rightarrow> gateway_config \<Rightarrow> gateway_config" where
  "merge_log_level l c = (case l of Some x \<Rightarrow> c\<lparr>gc_log_level := level_str x\<rparr> | None \<Rightarrow> c)"

text \<open>One \<open>if let Some\<close> of the merge: write the field when the option is given.\<close>

definition override :: "('a \<Rightarrow> 'c \<Rightarrow> 'c) \<Rightarrow> 'a option \<Rightarrow> 'c \<Rightarrow> 'c" where
  "override put o' c = (case o' of Some x \<Rightarrow> put x c | None \<Rightarrow> c)"

abbreviation in_server :: "(server_config \<Rightarrow> server_config) \<Rightarrow> gateway_config \<Rightarrow> gateway_config" where
  "in_server f c \<equiv> c\<lparr>gc_server := f (gc_server c)\<rparr>"

abbreviation in_admin :: "(admin_config \<Rightarrow> admin_config) \<Rightarrow> gateway_config \<Rightarrow> gateway_config" where
  "in_admin f c \<equiv> c\<lparr>gc_admin_server := f (gc_admin_server c)\<rparr>"

definition merge_daemon_opts :: "daemon_cmd_opts \<Rightarrow> gateway_config \<Rightarrow> gateway_config" where
  "merge_daemon_opts d c =
     (let c = override (\<lambda>x. in_server (\<lambda>s. s\<lparr>sc_port := x\<rparr>)) (do_server_port d) c;
          c = override (\<lambda>x. in_server (\<lambda>s. s\<lparr>sc_addr := x\<rparr>)) (do_server_addr d) c;
          c = override (\<lambda>x. in_server (\<lambda>s. s\<lparr>sc_request_timeout := x\<rparr>)) (do_request_timeout d) c;
          c = override (\<lambda>x. in_server (\<lambda>s. s\<lparr>sc_concurrency_limit := x\<rparr>)) (do_concurrency_limit d) c;
          c = override (\<lambda>x. in_server (\<lambda>s. s\<lparr>sc_cert_path := x\<rparr>)) (do_tls_cert_path d) c;
          c = override (\<lambda>x. in_server (\<lambda>s. s\<lparr>sc_key_path := x\<rparr>)) (do_tls_key_path d) c;
          c = override (\<lambda>x. in_server (\<lambda>s. s\<lparr>sc_stream_buf := x\<rparr>)) (do_server_stream_buffer d) c;
          c = override (\<lambda>x. in_server (\<lambda>s. s\<lparr>sc_cache_control_max_age := x\<rparr>)) (do_cache_control_max_age d) c;
          c = override (\<lambda>x. in_admin (\<lambda>s. s\<lparr>ac_port := x\<rparr>)) (do_admin_port d) c;
          c = override (\<lambda>x. in_admin (\<lambda>s. s\<lparr>ac_addr := x\<rparr>)) (do_admin_addr d) c;
          c = override (\<lambda>x c. c\<lparr>gc_indexer := (gc_indexer c)\<lparr>ic_cid_url := x\<rparr>\<rparr>) (do_indexer_cid_url d) c;
          c = override (\<lambda>x c. c\<lparr>gc_cache := (gc_cache c)\<lparr>cc_max_size := x\<rparr>\<rparr>) (do_max_cache_size d) c;
          c = override (\<lambda>x c. c\<lparr>gc_cache := (gc_cache c)\<lparr>cc_ttl_buf := x\<rparr>\<rparr>) (do_ttl_buf d) c;
          c = override (\<lambda>x c. c\<lparr>gc_worker := (gc_worker c)\<lparr>wc_ttl_cache_interval := x\<rparr>\<rparr>) (do_ttl_cache_interval d) c
      in override (\<lambda>x. in_server (\<lambda>s. s\<lparr>sc_cache_control_max_size := x\<rparr>)) (do_cache_control_max_size d) c)"

section \<open>Properties\<close>

abbreviation or_else :: "'a option \<Rightarrow> 'a \<Rightarrow> 'a" where
  "or_else x d \<equiv> (case x of Some y \<Rightarrow> y | None \<Rightarrow> d)"

text \<open>An override writes the option's value, or the value that was there.\<close>

lemma override_fields:
  "override (\<lambda>x. in_server (\<lambda>s. s\<lparr>sc_port := x\<rparr>)) v16 c = in_server (\<lambda>s. s\<lparr>sc_port := or_else v16 (sc_port s)\<rparr>) c"
  "override (\<lambda>x. in_server (\<lambda>s. s\<lparr>sc_addr := x\<rparr>)) vs c = in_server (\<lambda>s. s\<lparr>sc_addr := or_else vs (sc_addr s)\<rparr>) c"
  "override (\<lambda>x. in_server (\<lambda>s. s\<lparr>sc_request_timeout := x\<rparr>)) vn c = in_server (\<lambda>s. s\<lparr>sc_request_timeout := or_else vn (sc_request_timeout s)\<rparr>) c"
  "override (\<lambda>x. in_server (\<lambda>s. s\<lparr>sc_concurrency_limit := x\<rparr>)) v32 c = in_server (\<lambda>s. s\<lparr>sc_concurrency_limit := or_else v32 (sc_concurrency_limit s)\<rparr>) c"
  "override (\<lambda>x. in_server (\<lambda>s. s\<lparr>sc_cert_path := x\<rparr>)) vs c = in_server (\<lambda>s. s\<lparr>sc_cert_path := or_else vs (sc_cert_path s)\<rparr>) c"
  "override (\<lambda>x. in_server (\<lambda>s. s\<lparr>sc_key_path := x\<rparr>)) vs c = in_server (\<lambda>s. s\<lparr>sc_key_path := or_else vs (sc_key_path s)\<rparr>) c"
  "override (\<lambda>x. in_server (\<lambda>s. s\<lparr>sc_stream_buf := x\<rparr>)) vn c = in_server (\<lambda>s. s\<lparr>sc_stream_buf := or_else vn (sc_stream_buf s)\<rparr>) c"
  "override (\<lambda>x. in_server (\<lambda>s. s\<lparr>sc_cache_control_max_age := x\<rparr>)) vn c = in_server (\<lambda>s. s\<lparr>sc_cache_control_max_age := or_else vn (sc_cache_control_max_age s)\<rparr>) c"
  "override (\<lambda>x. in_server (\<lambda>s. s\<lparr>sc_cache_control_max_size := x\<rparr>)) vn c = in_server (\<lambda>s. s\<lparr>sc_cache_control_max_size := or_else vn (sc_cache_control_max_size s)\<rparr>) c"
  "override (\<lambda>x. in_admin (\<lambda>s. s\<lparr>ac_port := x\<rparr>)) v16 c = in_admin (\<lambda>s. s\<lparr>ac_port := or_else v16 (ac_port s)\<rparr>) c"
  "override (\<lambda>x. in_admin (\<lambda>s. s\<lparr>ac_addr := x\<rparr>)) vs c = in_admin (\<lambda>s. s\<lparr>ac_addr := or_else vs (ac_addr s)\<rparr>) c"
  "override (\<lambda>x c. c\<lparr>gc_indexer := (gc_indexer c)\<lparr>ic_cid_url := x\<rparr>\<rparr>) vs c = c\<lparr>gc_indexer := (gc_indexer c)\<lparr>ic_cid_url := or_else vs (ic_cid_url (gc_indexer c))\<rparr>\<rparr>"
  "override (\<lambda>x c. c\<lparr>gc_cache := (gc_cache c)\<lparr>cc_max_size := x\<rparr>\<rparr>) vn c = c\<lparr>gc_cache := (gc_cache c)\<lparr>cc_max_size := or_else vn (cc_max_size (gc_cache c))\<rparr>\<rparr>"
  "override (\<lambda>x c. c\<lparr>gc_cache := (gc_cache c)\<lparr>cc_ttl_buf := x\<rparr>\<rparr>) vn c = c\<lparr>gc_cache := (gc_cache c)\<lparr>cc_ttl_buf := or_else vn (cc_ttl_buf (gc_cache c))\<rparr>\<rparr>"
  "override (\<lambda>x c. c\<lparr>gc_worker := (gc_worker c)\<lparr>wc_ttl_cache_interval := x\<rparr>\<rparr>) vn c = c\<lparr>gc_worker := (gc_worker c)\<lparr>wc_ttl_cache_interval := or_else vn (wc_ttl_cache_interval (gc_worker c))\<rparr>\<rparr>"
  by (cases v16; cases vs; cases vn; cases v32; simp add: override_def)+

text \<open>
  Merging the command line into the configuration sets every option that was given to
  its own field and leaves every other field, and the log level, as the file had it.
\<close>

theorem merge_daemon_opts_fields:
  "merge_daemon_opts d c =
     \<lparr>gc_log_level = gc_log_level c,
      gc_server = \<lparr>sc_port = or_else (do_server_port d) (sc_port (gc_server c)),
        sc_addr = or_else (do_server_addr d) (sc_addr (gc_server c)),
        sc_request_timeout = or_else (do_request_timeout d) (sc_request_timeout (gc_server c)),
        sc_concurrency_limit = or_else (do_concurrency_limit d) (sc_concurrency_limit (gc_server c)),
        sc_cert_path = or_else (do_tls_cert_path d) (sc_cert_path (gc_server c)),
        sc_key_path = or_else (do_tls_key_path d) (sc_key_path (gc_server c)),
        sc_stream_buf = or_else (do_server_stream_buffer d) (sc_stream_buf (gc_server c)),
        sc_cache_control_max_age = or_else (do_cache_control_max_age d) (sc_cache_control_max_age (gc_server c)),
        sc_cache_control_max_size = or_else (do_cache_control_max_size d) (sc_cache_control_max_size (gc_server c))\<rparr>,
      gc_admin_server = \<lparr>ac_port = or_else (do_admin_port d) (ac_port (gc_admin_server c)),
        ac_addr = or_else (do_admin_addr d) (ac_addr (gc_admin_server c))\<rparr>,
      gc_indexer = \<lparr>ic_cid_url = or_else (do_indexer_cid_url d) (ic_cid_url (gc_indexer c))\<rparr>,
      gc_cache = \<lparr>cc_max_size = or_else (do_max_cache_size d) (cc_max_size (gc_cache c)),
        cc_ttl_buf = or_else (do_ttl_buf d) (cc_ttl_buf (gc_cache c))\<rparr>,
      gc_worker = \<lparr>wc_ttl_cache_interval = or_else (do_ttl_cache_interval d) (wc_ttl_cache_interval (gc_worker c))\<rparr>\<rparr>"
proof -
  obtain l s a i k w where c: "c = \<lparr>gc_log_level = l, gc_server = s, gc_admin_server = a, gc_indexer = i,
      gc_cache = k, gc_worker = w\<rparr>" by (cases c)
  show ?thesis unfolding c merge_daemon_opts_def Let_def
    by (cases s, cases a, cases i, cases k, cases w)
       (simp only: override_fields gateway_config.simps server_config.simps admin_config.simps
         indexer_config.simps cache_config.simps worker_config.simps)
qed

end
