(* ===== verification/Gateway.thy ===== *)
theory Gateway
  imports Tlrfu Resolver Gateway_Config
begin

text \<open>
  The gateway around the cache: the cache component and its commands
  (\<open>worker/cache/{mod,worker,admin,server}.rs\<close>), the main worker (\<open>worker/mod.rs\<close>), the
  request handler (\<open>server/route/api/v1/get.rs\<close>) and the parts of the daemon that connect
  them (\<open>main.rs\<close>). An asynchronous function is cut at the point where it waits for another
  task; the pieces are functions on the state and the relation \<open>gw_step\<close> interleaves them.
  Tasks that the worker spawns run in any order; each holds the write lock of the cache
  while it runs, so a task is one step.
\<close>

section \<open>The cache component\<close>

record gw_cache =
  gk_tlrfu :: tlrfu
  gk_stream_buf :: nat
  gk_cache_control_max_size :: nat

datatype cache_command =
    GetSync string
  | InsertSync string bytes
  | Fetch string nat
  | TtlCleanUp

definition cache_new :: "nat \<Rightarrow> nat \<Rightarrow> nat \<Rightarrow> nat \<Rightarrow> gw_cache" where
  "cache_new max_size ttl_buf stream_buf max_cached =
     \<lparr>gk_tlrfu = tl_new max_size ttl_buf, gk_stream_buf = stream_buf, gk_cache_control_max_size = max_cached\<rparr>"

definition worker_get :: "gw_cache \<Rightarrow> string \<Rightarrow> nat option \<Rightarrow> (unit, tl_error) result \<times> gw_cache" where
  "worker_get c k now =
     (case tl_get (gk_tlrfu c) k now of
        (Ok _, t) \<Rightarrow> (Ok (), c\<lparr>gk_tlrfu := t\<rparr>)
      | (Err e, t) \<Rightarrow> (Err e, c\<lparr>gk_tlrfu := t\<rparr>)
      | (Panic, t) \<Rightarrow> (Panic, c\<lparr>gk_tlrfu := t\<rparr>))"

definition worker_insert ::
  "gw_cache \<Rightarrow> string \<Rightarrow> bytes \<Rightarrow> nat option \<Rightarrow> (unit, tl_error) result \<times> gw_cache" where
  "worker_insert c k v now =
     (if \<not> tl_contains (gk_tlrfu c) k
      then (let (r, t) = tl_insert (gk_tlrfu c) k v now in (r, c\<lparr>gk_tlrfu := t\<rparr>))
      else (Ok (), c))"

definition worker_ttl_cleanup :: "gw_cache \<Rightarrow> (nat \<Rightarrow> nat option) \<Rightarrow> (unit, tl_error) result \<times> gw_cache" where
  "worker_ttl_cleanup c clock =
     (case tl_process_ttl_clean_up clock (gk_tlrfu c) of
        (Ok _, t) \<Rightarrow> (Ok (), c\<lparr>gk_tlrfu := t\<rparr>)
      | (Err e, t) \<Rightarrow> (Err e, c\<lparr>gk_tlrfu := t\<rparr>)
      | (Panic, t) \<Rightarrow> (Panic, c\<lparr>gk_tlrfu := t\<rparr>))"

definition admin_purge :: "gw_cache \<Rightarrow> gw_cache" where
  "admin_purge c = c\<lparr>gk_tlrfu := tl_purge (gk_tlrfu c)\<rparr>"

section \<open>State of the gateway\<close>

text \<open>
  \<open>Duplex\<close> stands for the reading end of the in-memory pipe by what is written to the other
  end before it is dropped, after which the reader sees a regular end. A waiting request remembers the number of its one-shot channel, the content id and
  the \<open>no-cache\<close> flag. \<open>g_answers\<close> and \<open>g_replies\<close> are history only: the answers of the
  resolver and the responses that clients got.
\<close>

datatype stream_response_body = Direct "chunk list" | Duplex "chunk list"

record car_response =
  cr_status :: nat
  cr_headers :: "(string \<times> string) list"
  cr_stream :: "stream_response_body option"
  cr_message :: "string option"

record gateway =
  g_cache :: gw_cache
  g_config :: gateway_config
  g_queue :: "cache_command list"
  g_open :: bool
  g_tasks :: "cache_command list"
  g_next :: nat
  g_waiting :: "(nat \<times> string \<times> bool) list"
  g_oneshot :: "nat \<Rightarrow> (node_response, gw_error) result option"
  g_writers :: "(string \<times> chunk list) list"
  g_signals :: nat
  g_answers :: "(string \<times> node_response) list"
  g_replies :: "(string \<times> car_response) list"

definition send_cmd :: "cache_command \<Rightarrow> gateway \<Rightarrow> bool \<times> gateway" where
  "send_cmd cmd g = (if g_open g then (True, g\<lparr>g_queue := g_queue g @ [cmd]\<rparr>) else (False, g))"

definition daemon_start :: "gateway_config \<Rightarrow> gateway" where
  "daemon_start cfg =
     \<lparr>g_cache = cache_new (cc_max_size (gc_cache cfg)) (cc_ttl_buf (gc_cache cfg) * 1000000)
        (sc_stream_buf (gc_server cfg)) (sc_cache_control_max_size (gc_server cfg)),
      g_config = cfg, g_queue = [], g_open = True, g_tasks = [], g_next = 0, g_waiting = [],
      g_oneshot = (\<lambda>_. None), g_writers = [], g_signals = 0, g_answers = [], g_replies = []\<rparr>"

section \<open>Serving a request\<close>

datatype announce = Answered "(stream_response_body, gw_error) result" | Await nat

definition fetch_start :: "string \<Rightarrow> gateway \<Rightarrow> announce \<times> gateway" where
  "fetch_start k g =
     (let n = g_next g;
          (sent, g1) = send_cmd (Fetch k n) (g\<lparr>g_next := Suc n\<rparr>)
      in if sent then (Await n, g1)
         else (Answered (Err (Internal ''Failed to dispatch Fetch command'')), g1))"

definition get_announce :: "string \<Rightarrow> bool \<Rightarrow> gateway \<Rightarrow> announce \<times> gateway" where
  "get_announce k no_cache g =
     (if no_cache then fetch_start k g
      else (case tl_dirty_get (gk_tlrfu (g_cache g)) k of
              Some data \<Rightarrow>
                (let (sent, g1) = send_cmd (GetSync k) g
                 in if sent then (Answered (Ok (Duplex [Chunk data])), g1)
                    else (Answered (Err (Internal ''Failed to dispatch GetSync command'')), g1))
            | None \<Rightarrow> fetch_start k g))"

text \<open>
  What the stream writer puts into the pipe: at an error of the body it returns, which drops its
  end of the pipe, so the error does not reach the reader.
\<close>

fun piped :: "chunk list \<Rightarrow> chunk list" where
  "piped [] = []"
| "piped (Chunk b # cs) = Chunk b # piped cs"
| "piped (BodyError # cs) = []"

text \<open>The second half of \<open>fetch_and_insert\<close>; \<open>None\<close> is a one-shot sender dropped unused.\<close>

definition fetch_finish ::
  "string \<Rightarrow> (node_response, gw_error) result option \<Rightarrow> gateway \<Rightarrow>
     (stream_response_body, gw_error) result \<times> gateway" where
  "fetch_finish k reply g =
     (case reply of
        None \<Rightarrow> (Err (Internal ''Failed to receive response from resolver''), g)
      | Some (Err e) \<Rightarrow> (Err e, g)
      | Some Panic \<Rightarrow> (Err (Internal ''Failed to receive response from resolver''), g)
      | Some (Ok nr) \<Rightarrow>
          (if resp_status (nr_resp nr) \<noteq> status_ok
           then (Err (Upstream (resp_status (nr_resp nr)) ''Error requested provider''), g)
           else if gk_cache_control_max_size (g_cache g) < nr_size nr
           then (Ok (Direct (resp_body (nr_resp nr))), g)
           else (Ok (Duplex (piped (resp_body (nr_resp nr)))),
                 g\<lparr>g_writers := g_writers g @ [(k, resp_body (nr_resp nr))]\<rparr>)))"

fun collect_body :: "chunk list \<Rightarrow> bytes \<Rightarrow> bytes option" where
  "collect_body [] acc = Some acc"
| "collect_body (Chunk b # cs) acc = collect_body cs (acc @ b)"
| "collect_body (BodyError # cs) acc = None"

text \<open>The spawned stream writer, at its end: only a body read to its end is inserted.\<close>

definition writer_finish :: "string \<Rightarrow> chunk list \<Rightarrow> gateway \<Rightarrow> gateway" where
  "writer_finish k body g =
     (case collect_body body [] of None \<Rightarrow> g | Some v \<Rightarrow> snd (send_cmd (InsertSync k v) g))"

definition error_handler :: "nat \<Rightarrow> string \<Rightarrow> car_response" where
  "error_handler status msg = \<lparr>cr_status = status, cr_headers = [], cr_stream = None, cr_message = Some msg\<rparr>"

definition car_response_of ::
  "string \<Rightarrow> bool \<Rightarrow> nat \<Rightarrow> (stream_response_body, gw_error) result \<Rightarrow> car_response" where
  "car_response_of cid no_cache max_age r =
     (case r of
        Ok stream \<Rightarrow>
          \<lparr>cr_status = status_ok,
           cr_headers = [(''content-type'', ''application/vnd.curl.car; charset=utf-8''),
             (''content-disposition'', ''attachment; filename='' @ [CHR 0x22] @ cid @ ''.car'' @ [CHR 0x22]),
             (''cache-control'', if no_cache then ''no-cache''
                else ''public, max-age='' @ dec max_age @ '', immutable'')],
           cr_stream = Some stream, cr_message = None\<rparr>
      | Err (Upstream status msg) \<Rightarrow> error_handler status msg
      | Err (Internal msg) \<Rightarrow> error_handler 500 msg
      | Panic \<Rightarrow> error_handler 500 ''Internal Server Error'')"

definition reply_to :: "string \<Rightarrow> bool \<Rightarrow> (stream_response_body, gw_error) result \<Rightarrow> gateway \<Rightarrow> gateway" where
  "reply_to cid no_cache r g =
     g\<lparr>g_replies := g_replies g @
        [(cid, car_response_of cid no_cache (sc_cache_control_max_age (gc_server (g_config g))) r)]\<rparr>"

text \<open>The handler up to its wait, and after it. Whether the text is a content id is the answer of \<open>libipld\<close>.\<close>

definition get_car_handler :: "(string \<Rightarrow> bool) \<Rightarrow> string \<Rightarrow> bool \<Rightarrow> gateway \<Rightarrow> gateway" where
  "get_car_handler is_cid cid no_cache g =
     (if \<not> is_cid cid
      then g\<lparr>g_replies := g_replies g @
             [(cid, error_handler 400 (''Invalid cid string, cannot parse '' @ cid @ '' to CID''))]\<rparr>
      else (case get_announce cid no_cache g of
              (Answered r, g1) \<Rightarrow> reply_to cid no_cache r g1
            | (Await n, g1) \<Rightarrow> g1\<lparr>g_waiting := (n, cid, no_cache) # g_waiting g1\<rparr>))"

definition get_car_resume :: "nat \<Rightarrow> string \<Rightarrow> bool \<Rightarrow> gateway \<Rightarrow> gateway" where
  "get_car_resume n cid no_cache g =
     (let (r, g1) = fetch_finish cid (g_oneshot g n) g
      in reply_to cid no_cache r (g1\<lparr>g_waiting := removeAll (n, cid, no_cache) (g_waiting g1)\<rparr>))"

section \<open>The main worker\<close>

text \<open>One turn of the worker's loop that receives a command: the command becomes a task.\<close>

definition worker_recv :: "gateway \<Rightarrow> gateway" where
  "worker_recv g =
     (case g_queue g of
        [] \<Rightarrow> g
      | cmd # q \<Rightarrow> g\<lparr>g_queue := q, g_tasks := g_tasks g @ [cmd]\<rparr>)"

definition finish_task :: "(unit, tl_error) result \<times> gw_cache \<Rightarrow> gateway \<Rightarrow> gateway" where
  "finish_task rc g =
     (case rc of
        (Ok _, c) \<Rightarrow> g\<lparr>g_cache := c\<rparr>
      | (Err e, c) \<Rightarrow> g\<lparr>g_cache := c, g_signals := Suc (g_signals g)\<rparr>
      | (Panic, c) \<Rightarrow> g\<lparr>g_cache := c\<rparr>)"

text \<open>A spawned task; \<open>env\<close> is the network and \<open>clock\<close> the clock while it runs.\<close>

fun run_task :: "'u http_env \<Rightarrow> (nat \<Rightarrow> nat option) \<Rightarrow> cache_command \<Rightarrow> gateway \<Rightarrow> gateway" where
  "run_task env clock (GetSync k) g = finish_task (worker_get (g_cache g) k (clock 0)) g"
| "run_task env clock (InsertSync k v) g = finish_task (worker_insert (g_cache g) k v (clock 0)) g"
| "run_task env clock (Fetch cid n) g =
     (let r = resolve_content env (ic_cid_url (gc_indexer (g_config g))) cid
      in g\<lparr>g_oneshot := (g_oneshot g)(n \<mapsto> r),
           g_answers := (case r of Ok nr \<Rightarrow> (cid, nr) # g_answers g | _ \<Rightarrow> g_answers g)\<rparr>)"
| "run_task env clock TtlCleanUp g = finish_task (worker_ttl_cleanup (g_cache g) clock) g"

definition worker_stop :: "gateway \<Rightarrow> gateway" where
  "worker_stop g = g\<lparr>g_open := False, g_queue := []\<rparr>"

definition purge_cache_handler :: "gateway \<Rightarrow> nat \<times> gateway" where
  "purge_cache_handler g = (status_ok, g\<lparr>g_cache := admin_purge (g_cache g)\<rparr>)"

text \<open>The interval task of the daemon: one more clean-up command; a closed channel is a signal.\<close>

definition ttl_tick :: "gateway \<Rightarrow> gateway" where
  "ttl_tick g =
     (let (sent, g1) = send_cmd TtlCleanUp g
      in if sent then g1 else g1\<lparr>g_signals := Suc (g_signals g1)\<rparr>)"

definition fetch_pending :: "nat \<Rightarrow> gateway \<Rightarrow> bool" where
  "fetch_pending n g = (\<exists>cid. Fetch cid n \<in> set (g_queue g) \<union> set (g_tasks g))"

inductive gw_step :: "gateway \<Rightarrow> gateway \<Rightarrow> bool" where
  step_request: "gw_step g (get_car_handler is_cid cid no_cache g)"
| step_resume: "(n, cid, no_cache) \<in> set (g_waiting g) \<Longrightarrow> g_oneshot g n \<noteq> None \<or> \<not> fetch_pending n g \<Longrightarrow>
    gw_step g (get_car_resume n cid no_cache g)"
| step_writer: "g_writers g = ws @ (k, body) # ws' \<Longrightarrow>
    gw_step g (writer_finish k body (g\<lparr>g_writers := ws @ ws'\<rparr>))"
| step_recv: "gw_step g (worker_recv g)"
| step_task: "g_tasks g = ts @ cmd # ts' \<Longrightarrow>
    gw_step g (run_task (env :: string http_env) clock cmd (g\<lparr>g_tasks := ts @ ts'\<rparr>))"
| step_purge: "gw_step g (snd (purge_cache_handler g))"
| step_tick: "gw_step g (ttl_tick g)"
| step_stop: "gw_step g (worker_stop g)"

inductive gw_reach :: "gateway_config \<Rightarrow> gateway \<Rightarrow> bool" for cfg where
  gw_start: "gw_reach cfg (daemon_start cfg)"
| gw_next: "gw_reach cfg g \<Longrightarrow> gw_step g g' \<Longrightarrow> gw_reach cfg g'"

section \<open>Where the cached bytes come from\<close>

text \<open>
  The store of the cache only ever shrinks, except for the entry of an insertion. These
  facts need no invariant of the cache.
\<close>

lemma tl_evict_one_content:
  "tl_evict_one c = (r, c') \<Longrightarrow> tl_dirty_get c' k = Some v \<Longrightarrow> tl_dirty_get c k = Some v"
  by (auto simp: tl_evict_one_def tl_dirty_get_def hm_get_remove
      split: option.splits prod.splits result.splits if_splits)

lemma tl_evict_content:
  "tl_dirty_get (snd (tl_evict n c)) k = Some v \<Longrightarrow> tl_dirty_get c k = Some v"
proof (induction n c rule: tl_evict.induct)
  case (1 n c)
  obtain r c' where e: "tl_evict_one c = (r, c')" by (cases "tl_evict_one c")
  show ?case
    using 1 e tl_evict_one_content [OF e, of k v]
    by (auto simp: tl_evict.simps [of n c] split: if_splits result.splits)
qed

lemma tl_insert_content_any:
  "tl_dirty_get (snd (tl_insert c k v t)) x = Some w \<Longrightarrow> tl_dirty_get c x = Some w \<or> (x = k \<and> w = v)"
proof -
  obtain r c1 where e: "tl_evict (byte_size v) c = (r, c1)" by (cases "tl_evict (byte_size v) c")
  assume "tl_dirty_get (snd (tl_insert c k v t)) x = Some w"
  then show ?thesis
    using tl_evict_content [of "byte_size v" c x w] e
    by (cases "x = k"; cases "tl_contains c k"; cases r)
       (auto simp: tl_insert_def Let_def tl_dirty_get_def hm_get_insert
         split: if_splits prod.splits result.splits option.splits)
qed

lemma tl_get_content_any: "tl_dirty_get (snd (tl_get c k t)) x = tl_dirty_get c x"
  by (cases "x = k")
     (auto simp: tl_get_def tl_renew_def Let_def tl_dirty_get_def hm_get_insert
       split: prod.splits result.splits option.splits)

lemma tl_expire_one_content:
  "tl_expire_one now c = (r, c') \<Longrightarrow> tl_dirty_get c' k = Some v \<Longrightarrow> tl_dirty_get c k = Some v"
  by (auto simp: tl_expire_one_def tl_dirty_get_def hm_get_remove Let_def
      split: option.splits prod.splits if_splits)

lemma tl_clean_content:
  "tl_dirty_get (snd (tl_clean now n c)) k = Some v \<Longrightarrow> tl_dirty_get c k = Some v"
proof (induction now n c rule: tl_clean.induct)
  case (1 now n c)
  obtain r c' where e: "tl_expire_one (now n) c = (r, c')" by (cases "tl_expire_one (now n) c")
  show ?case
    using 1 e tl_expire_one_content [OF e, of k v]
    by (auto simp: tl_clean.simps [of now n c] split: result.splits bool.splits)
qed

definition good_answer :: "nat \<Rightarrow> (string \<times> node_response) list \<Rightarrow> string \<Rightarrow> node_response \<Rightarrow> bool" where
  "good_answer lim ans k nr \<longleftrightarrow> (k, nr) \<in> set ans \<and> resp_status (nr_resp nr) = status_ok \<and> nr_size nr \<le> lim"

definition from_answer :: "nat \<Rightarrow> (string \<times> node_response) list \<Rightarrow> string \<Rightarrow> bytes \<Rightarrow> bool" where
  "from_answer lim ans k v \<longleftrightarrow> (\<exists>nr. good_answer lim ans k nr \<and> collect_body (resp_body (nr_resp nr)) [] = Some v)"

text \<open>What is collected is the whole body, all of its chunks in order.\<close>

lemma collect_body_acc: "collect_body cs acc = Some v \<longleftrightarrow> (\<exists>bs. cs = map Chunk bs \<and> v = acc @ concat bs)"
proof (induction cs acc rule: collect_body.induct)
  case (2 b cs acc)
  have "(\<exists>bs. Chunk b # cs = map Chunk bs \<and> v = acc @ concat bs) \<longleftrightarrow>
      (\<exists>bs. cs = map Chunk bs \<and> v = acc @ concat (b # bs))"
    by (auto simp: Cons_eq_map_conv)
  with 2 show ?case by simp
qed (auto simp: Cons_eq_map_conv)

lemma collect_body_complete: "collect_body cs [] = Some v \<longleftrightarrow> (\<exists>bs. cs = map Chunk bs \<and> v = concat bs)"
  by (simp add: collect_body_acc)

abbreviation g_limit :: "gateway \<Rightarrow> nat" where
  "g_limit g \<equiv> gk_cache_control_max_size (g_cache g)"

definition g_cmds :: "gateway \<Rightarrow> cache_command set" where
  "g_cmds g = set (g_queue g) \<union> set (g_tasks g)"

text \<open>The bytes: cached ones, those on the way to the cache and those being streamed.\<close>

definition bytes_ok ::
  "nat \<Rightarrow> (string \<times> node_response) list \<Rightarrow> (string \<Rightarrow> bytes option) \<Rightarrow> cache_command set \<Rightarrow>
   (string \<times> chunk list) set \<Rightarrow> bool" where
  "bytes_ok lim ans content cmds writers \<longleftrightarrow>
     (\<forall>k v. content k = Some v \<longrightarrow> from_answer lim ans k v) \<and>
     (\<forall>k v. InsertSync k v \<in> cmds \<longrightarrow> from_answer lim ans k v) \<and>
     (\<forall>k body. (k, body) \<in> writers \<longrightarrow> (\<exists>nr. good_answer lim ans k nr \<and> body = resp_body (nr_resp nr)))"

text \<open>The one-shot channels: numbers are fresh, and a request waits for its own content id.\<close>

definition channels_ok ::
  "(string \<times> node_response) list \<Rightarrow> nat \<Rightarrow> cache_command set \<Rightarrow>
   (nat \<Rightarrow> (node_response, gw_error) result option) \<Rightarrow> (nat \<times> string \<times> bool) set \<Rightarrow> bool" where
  "channels_ok ans next cmds os waiting \<longleftrightarrow>
     (\<forall>cid n. Fetch cid n \<in> cmds \<longrightarrow> n < next) \<and>
     (\<forall>n r. os n = Some r \<longrightarrow> n < next) \<and>
     (\<forall>n k b. (n, k, b) \<in> waiting \<longrightarrow> n < next) \<and>
     (\<forall>n k b cid. (n, k, b) \<in> waiting \<longrightarrow> Fetch cid n \<in> cmds \<longrightarrow> cid = k) \<and>
     (\<forall>n k b nr. (n, k, b) \<in> waiting \<longrightarrow> os n = Some (Ok nr) \<longrightarrow> (k, nr) \<in> set ans)"

text \<open>
  The responses: a stream carries the body of an answer for the content id that was asked for. Passed
  on directly it is that body, errors included; through the pipe it is the bytes of the chunks up to the first
  error, and then it ends.
\<close>

fun carries :: "stream_response_body \<Rightarrow> chunk list \<Rightarrow> bool" where
  "carries (Direct cs) body \<longleftrightarrow> cs = body"
| "carries (Duplex cs) body \<longleftrightarrow>
     (\<exists>bs bs' rest. cs = map Chunk bs' \<and> concat bs' = concat bs \<and> body = map Chunk bs @ rest \<and> (rest = [] \<or> hd rest = BodyError))"

lemma carries_piped: "carries (Duplex (piped body)) body"
proof -
  have "\<exists>bs rest. piped body = map Chunk bs \<and> body = map Chunk bs @ rest \<and> (rest = [] \<or> hd rest = BodyError)"
  proof (induction body rule: piped.induct)
    case (2 b cs)
    then obtain bs rest where "piped cs = map Chunk bs" "cs = map Chunk bs @ rest" "rest = [] \<or> hd rest = BodyError" by blast
    then show ?case by (intro exI [of _ "b # bs"] exI [of _ rest]) simp
  qed auto
  then show ?thesis by auto
qed

definition stream_from :: "(string \<times> node_response) list \<Rightarrow> string \<Rightarrow> stream_response_body \<Rightarrow> bool" where
  "stream_from ans cid st \<longleftrightarrow>
     (\<exists>nr. (cid, nr) \<in> set ans \<and> resp_status (nr_resp nr) = status_ok \<and> carries st (resp_body (nr_resp nr)))"

definition replies_ok :: "(string \<times> node_response) list \<Rightarrow> (string \<times> car_response) set \<Rightarrow> bool" where
  "replies_ok ans rs \<longleftrightarrow> (\<forall>cid r st. (cid, r) \<in> rs \<longrightarrow> cr_stream r = Some st \<longrightarrow> stream_from ans cid st)"

definition gw_inv :: "gateway \<Rightarrow> bool" where
  "gw_inv g \<longleftrightarrow>
     bytes_ok (g_limit g) (g_answers g) (tl_dirty_get (gk_tlrfu (g_cache g))) (g_cmds g) (set (g_writers g)) \<and>
     channels_ok (g_answers g) (g_next g) (g_cmds g) (g_oneshot g) (set (g_waiting g)) \<and>
     replies_ok (g_answers g) (set (g_replies g))"

lemma from_answer_mono:
  "from_answer lim ans k v \<Longrightarrow> set ans \<subseteq> set ans' \<Longrightarrow> from_answer lim ans' k v"
  by (auto simp: from_answer_def good_answer_def)

lemma good_answer_mono: "good_answer lim ans k nr \<Longrightarrow> set ans \<subseteq> set ans' \<Longrightarrow> good_answer lim ans' k nr"
  by (auto simp: good_answer_def)

lemma bytes_ok_mono:
  assumes "bytes_ok lim ans ct cmds ws" and "set ans \<subseteq> set ans'" and "ws' \<subseteq> ws"
    and "\<And>k v. ct' k = Some v \<Longrightarrow> ct k = Some v \<or> from_answer lim ans k v"
    and "\<And>k v. InsertSync k v \<in> cmds' \<Longrightarrow> InsertSync k v \<in> cmds \<or> from_answer lim ans k v"
  shows "bytes_ok lim ans' ct' cmds' ws'"
  using assms from_answer_mono [OF _ assms(2)] good_answer_mono [OF _ assms(2)]
  unfolding bytes_ok_def by blast

lemma channels_ok_mono:
  assumes "channels_ok ans n cmds os w" and "set ans \<subseteq> set ans'" and "w' \<subseteq> w"
    and "\<And>cid i. Fetch cid i \<in> cmds' \<Longrightarrow> Fetch cid i \<in> cmds"
  shows "channels_ok ans' n cmds' os w'"
  using assms unfolding channels_ok_def by blast

lemma channels_ok_fresh:
  assumes "channels_ok ans n cmds os w"
  shows "channels_ok ans (Suc n) (insert (Fetch k n) cmds) os (insert (n, k, b) w)"
    and "channels_ok ans (Suc n) cmds os w"
proof -
  have *: "\<And>cid i. Fetch cid i \<in> cmds \<Longrightarrow> i < n" "\<And>i r. os i = Some r \<Longrightarrow> i < n"
    "\<And>i k b. (i, k, b) \<in> w \<Longrightarrow> i < n"
    "\<And>i k b cid. (i, k, b) \<in> w \<Longrightarrow> Fetch cid i \<in> cmds \<Longrightarrow> cid = k"
    "\<And>i k b nr. (i, k, b) \<in> w \<Longrightarrow> os i = Some (Ok nr) \<Longrightarrow> (k, nr) \<in> set ans"
    using assms unfolding channels_ok_def by blast+
  note less = *(1-3) [THEN less_SucI]
  show "channels_ok ans (Suc n) cmds os w"
    unfolding channels_ok_def using * less by blast
  show "channels_ok ans (Suc n) (insert (Fetch k n) cmds) os (insert (n, k, b) w)"
    unfolding channels_ok_def
  proof (intro conjI allI impI)
    fix i x c cid assume "(i, x, c) \<in> insert (n, k, b) w" "Fetch cid i \<in> insert (Fetch k n) cmds"
    then show "cid = x" using * by (metis Pair_inject cache_command.inject(3) insert_iff less_irrefl)
  next
    fix i x c nr assume "(i, x, c) \<in> insert (n, k, b) w" "os i = Some (Ok nr)"
    then show "(x, nr) \<in> set ans" using * by (metis Pair_inject insert_iff less_irrefl)
  qed (use less in auto)
qed

lemma channels_ok_answer:
  assumes "channels_ok ans n cmds os w" and "Fetch cid i \<in> cmds"
    and "set ans \<subseteq> set ans'" and "\<And>nr. r = Ok nr \<Longrightarrow> (cid, nr) \<in> set ans'"
  shows "channels_ok ans' n cmds (os(i \<mapsto> r)) w"
  using assms unfolding channels_ok_def by (auto split: if_splits) (metis in_mono)+

lemma replies_ok_mono: "replies_ok ans rs \<Longrightarrow> set ans \<subseteq> set ans' \<Longrightarrow> replies_ok ans' rs"
  unfolding replies_ok_def stream_from_def by blast

lemma send_cmd_fields [simp]:
  "g_cache (snd (send_cmd cmd g)) = g_cache g" "g_tasks (snd (send_cmd cmd g)) = g_tasks g"
  "g_next (snd (send_cmd cmd g)) = g_next g" "g_waiting (snd (send_cmd cmd g)) = g_waiting g"
  "g_oneshot (snd (send_cmd cmd g)) = g_oneshot g" "g_writers (snd (send_cmd cmd g)) = g_writers g"
  "g_answers (snd (send_cmd cmd g)) = g_answers g" "g_replies (snd (send_cmd cmd g)) = g_replies g"
  "g_config (snd (send_cmd cmd g)) = g_config g"
  by (simp_all add: send_cmd_def)

lemma send_cmd_cmds: "g_cmds (snd (send_cmd cmd g)) = (if g_open g then insert cmd (g_cmds g) else g_cmds g)"
  by (simp add: send_cmd_def g_cmds_def)

lemma gw_inv_send:
  assumes "gw_inv g" and "\<And>k v. cmd = InsertSync k v \<Longrightarrow> from_answer (g_limit g) (g_answers g) k v"
    and "\<And>cid n. cmd \<noteq> Fetch cid n"
  shows "gw_inv (snd (send_cmd cmd g))"
proof -
  have b: "bytes_ok (g_limit g) (g_answers g) (tl_dirty_get (gk_tlrfu (g_cache g))) (insert cmd (g_cmds g)) (set (g_writers g))"
    by (rule bytes_ok_mono) (use assms in \<open>auto simp: gw_inv_def\<close>)
  have "channels_ok (g_answers g) (g_next g) (insert cmd (g_cmds g)) (g_oneshot g) (set (g_waiting g))"
    by (rule channels_ok_mono) (use assms in \<open>auto simp: gw_inv_def\<close>)
  with b assms(1) show ?thesis by (simp add: gw_inv_def send_cmd_cmds)
qed

lemma gw_inv_reply:
  assumes "gw_inv g" and "\<And>st. r = Ok st \<Longrightarrow> stream_from (g_answers g) cid st"
  shows "gw_inv (reply_to cid no_cache r g)"
proof -
  have "cr_stream (car_response_of cid no_cache a r) = Some st \<longleftrightarrow> r = Ok st" for a st
    by (auto simp: car_response_of_def error_handler_def split: result.split gw_error.split)
  with assms show ?thesis
    by (auto simp: gw_inv_def replies_ok_def reply_to_def g_cmds_def)
qed

lemma gw_inv_fetch:
  assumes inv: "gw_inv g" and f: "fetch_start k g = (a, g1)"
  shows "(case a of Answered r \<Rightarrow> gw_inv (reply_to k b r g1)
          | Await n \<Rightarrow> gw_inv (g1\<lparr>g_waiting := (n, k, b) # g_waiting g1\<rparr>))"
proof (cases "g_open g")
  case True
  then have eq: "a = Await (g_next g)" "g1 = g\<lparr>g_next := Suc (g_next g), g_queue := g_queue g @ [Fetch k (g_next g)]\<rparr>"
    using f by (auto simp: fetch_start_def Let_def send_cmd_def)
  have "bytes_ok (g_limit g) (g_answers g) (tl_dirty_get (gk_tlrfu (g_cache g)))
      (insert (Fetch k (g_next g)) (g_cmds g)) (set (g_writers g))"
    by (rule bytes_ok_mono) (use inv in \<open>auto simp: gw_inv_def\<close>)
  moreover have "g_cmds (g1\<lparr>g_waiting := w\<rparr>) = insert (Fetch k (g_next g)) (g_cmds g)" for w
    by (simp add: g_cmds_def eq)
  ultimately show ?thesis
    using inv channels_ok_fresh(1) by (simp add: eq gw_inv_def)
next
  case False
  then have eq: "a = Answered (Err (Internal ''Failed to dispatch Fetch command''))" "g1 = g\<lparr>g_next := Suc (g_next g)\<rparr>"
    using f by (auto simp: fetch_start_def Let_def send_cmd_def)
  have "gw_inv g1" using inv channels_ok_fresh(2) by (simp add: eq gw_inv_def g_cmds_def)
  then have "gw_inv (reply_to k b (Err e) g1)" for e by (rule gw_inv_reply) simp
  then show ?thesis by (simp add: eq)
qed

lemma gw_inv_request:
  assumes inv: "gw_inv g"
  shows "gw_inv (get_car_handler is_cid cid no_cache g)"
proof (cases "is_cid cid")
  case False
  with inv show ?thesis
    by (auto simp: get_car_handler_def gw_inv_def replies_ok_def error_handler_def g_cmds_def)
next
  case True
  let ?hit = "tl_dirty_get (gk_tlrfu (g_cache g)) cid"
  show ?thesis
  proof (cases "no_cache \<or> ?hit = None")
    case fetch: True
    obtain a g1 where f: "fetch_start cid g = (a, g1)" by (cases "fetch_start cid g")
    then have "get_announce cid no_cache g = (a, g1)" using fetch by (auto simp: get_announce_def)
    with gw_inv_fetch [OF inv f, of no_cache] True show ?thesis
      by (simp add: get_car_handler_def split: announce.split_asm announce.split)
  next
    case False
    then obtain data where d: "?hit = Some data" and nc: "\<not> no_cache" by auto
    then have fa: "from_answer (g_limit g) (g_answers g) cid data"
      using inv by (simp add: gw_inv_def bytes_ok_def)
    have sf: "stream_from (g_answers (snd (send_cmd (GetSync cid) g))) cid (Duplex [Chunk data])"
      using fa by (fastforce simp: stream_from_def from_answer_def good_answer_def collect_body_complete intro: exI [of _ "[data]"])
    have inv1: "gw_inv (snd (send_cmd (GetSync cid) g))" by (rule gw_inv_send [OF inv]) auto
    define r where "r = (if fst (send_cmd (GetSync cid) g) then Ok (Duplex [Chunk data])
        else Err (Internal ''Failed to dispatch GetSync command''))"
    have "get_announce cid no_cache g = (Answered r, snd (send_cmd (GetSync cid) g))"
      using d nc by (simp add: get_announce_def Let_def case_prod_unfold r_def)
    moreover have "gw_inv (reply_to cid no_cache r (snd (send_cmd (GetSync cid) g)))"
      by (rule gw_inv_reply [OF inv1]) (use sf in \<open>auto simp: r_def split: if_splits\<close>)
    ultimately show ?thesis using True by (simp add: get_car_handler_def)
  qed
qed

lemma gw_inv_resume:
  assumes inv: "gw_inv g" and w: "(n, cid, b) \<in> set (g_waiting g)"
  shows "gw_inv (get_car_resume n cid b g)"
proof -
  obtain r g1 where f: "fetch_finish cid (g_oneshot g n) g = (r, g1)" by (cases "fetch_finish cid (g_oneshot g n) g")
  let ?g = "g1\<lparr>g_waiting := removeAll (n, cid, b) (g_waiting g1)\<rparr>"
  have chan: "channels_ok (g_answers g) (g_next g) (g_cmds g) (g_oneshot g) (set (g_waiting g) - {(n, cid, b)})"
    by (rule channels_ok_mono) (use inv in \<open>auto simp: gw_inv_def\<close>)
  have drop: "gw_inv (g\<lparr>g_waiting := removeAll (n, cid, b) (g_waiting g)\<rparr>)"
    using inv chan by (simp add: gw_inv_def g_cmds_def)
  have "gw_inv ?g \<and> (\<forall>st. r = Ok st \<longrightarrow> stream_from (g_answers ?g) cid st)"
  proof (cases "\<exists>nr. g_oneshot g n = Some (Ok nr) \<and> resp_status (nr_resp nr) = status_ok")
    case True
    then obtain nr where nr: "g_oneshot g n = Some (Ok nr)" "resp_status (nr_resp nr) = status_ok" by blast
    have ans: "(cid, nr) \<in> set (g_answers g)" using inv w nr(1) unfolding gw_inv_def channels_ok_def by blast
    have st: "r = Ok st \<Longrightarrow> stream_from (g_answers g) cid st" for st
      using f nr ans carries_piped by (fastforce simp: fetch_finish_def stream_from_def simp del: carries.simps(2) split: if_splits)
    show ?thesis
    proof (cases "g_limit g < nr_size nr")
      case True
      then have "g1 = g" using f nr by (simp add: fetch_finish_def)
      with drop st show ?thesis by simp
    next
      case False
      then have g1: "g1 = g\<lparr>g_writers := g_writers g @ [(cid, resp_body (nr_resp nr))]\<rparr>"
        using f nr by (simp add: fetch_finish_def)
      have "good_answer (g_limit g) (g_answers g) cid nr" using False nr(2) ans by (simp add: good_answer_def)
      then have "bytes_ok (g_limit g) (g_answers g) (tl_dirty_get (gk_tlrfu (g_cache g))) (g_cmds g)
          (set (g_writers g) \<union> {(cid, resp_body (nr_resp nr))})"
        using inv by (auto simp: gw_inv_def bytes_ok_def)
      with drop st show ?thesis by (simp add: g1 gw_inv_def g_cmds_def)
    qed
  next
    case False
    then have "g1 = g" "\<And>st. r \<noteq> Ok st"
      using f by (auto simp: fetch_finish_def split: option.splits result.splits if_splits)
    with drop show ?thesis by simp
  qed
  then show ?thesis
    using gw_inv_reply [of ?g r cid b] by (simp add: get_car_resume_def f)
qed

text \<open>The worker's operations on the cache, seen from outside: content and limit.\<close>

lemma worker_content:
  "tl_dirty_get (gk_tlrfu (snd (worker_get c k t))) x = tl_dirty_get (gk_tlrfu c) x"
  "tl_dirty_get (gk_tlrfu (snd (worker_insert c k v t))) x = Some w \<Longrightarrow>
     tl_dirty_get (gk_tlrfu c) x = Some w \<or> (x = k \<and> w = v)"
  "tl_dirty_get (gk_tlrfu (snd (worker_ttl_cleanup c clock))) x = Some w \<Longrightarrow> tl_dirty_get (gk_tlrfu c) x = Some w"
proof -
  show "tl_dirty_get (gk_tlrfu (snd (worker_get c k t))) x = tl_dirty_get (gk_tlrfu c) x"
    using tl_get_content_any [of "gk_tlrfu c" k t x]
    by (auto simp: worker_get_def split: prod.split result.split)
  show "tl_dirty_get (gk_tlrfu (snd (worker_insert c k v t))) x = Some w \<Longrightarrow>
     tl_dirty_get (gk_tlrfu c) x = Some w \<or> (x = k \<and> w = v)"
    using tl_insert_content_any [of "gk_tlrfu c" k v t x w]
    by (auto simp: worker_insert_def case_prod_unfold Let_def split: if_splits)
  show "tl_dirty_get (gk_tlrfu (snd (worker_ttl_cleanup c clock))) x = Some w \<Longrightarrow> tl_dirty_get (gk_tlrfu c) x = Some w"
    using tl_clean_content [of clock 0 "gk_tlrfu c" x w]
    by (auto simp: worker_ttl_cleanup_def tl_process_ttl_clean_up_def split: prod.splits result.splits)
qed

lemma worker_limit [simp]:
  "gk_cache_control_max_size (snd (worker_get c k t)) = gk_cache_control_max_size c"
  "gk_cache_control_max_size (snd (worker_insert c k v t)) = gk_cache_control_max_size c"
  "gk_cache_control_max_size (snd (worker_ttl_cleanup c clock)) = gk_cache_control_max_size c"
  by (auto simp: worker_get_def worker_insert_def worker_ttl_cleanup_def Let_def case_prod_unfold
      split: prod.splits result.splits)

lemma finish_task_fields [simp]:
  "g_cache (finish_task rc g) = snd rc" "g_answers (finish_task rc g) = g_answers g"
  "g_next (finish_task rc g) = g_next g" "g_oneshot (finish_task rc g) = g_oneshot g"
  "g_waiting (finish_task rc g) = g_waiting g" "g_writers (finish_task rc g) = g_writers g"
  "g_replies (finish_task rc g) = g_replies g" "g_cmds (finish_task rc g) = g_cmds g"
  by (auto simp: finish_task_def g_cmds_def split: prod.split result.split)

lemma gw_inv_finish:
  assumes "gw_inv g" and "gk_cache_control_max_size (snd rc) = g_limit g"
    and "\<And>k v. tl_dirty_get (gk_tlrfu (snd rc)) k = Some v \<Longrightarrow>
           tl_dirty_get (gk_tlrfu (g_cache g)) k = Some v \<or> from_answer (g_limit g) (g_answers g) k v"
  shows "gw_inv (finish_task rc g)"
proof -
  have "bytes_ok (g_limit g) (g_answers g) (tl_dirty_get (gk_tlrfu (snd rc))) (g_cmds g) (set (g_writers g))"
    by (rule bytes_ok_mono) (use assms in \<open>auto simp: gw_inv_def\<close>)
  with assms show ?thesis by (simp add: gw_inv_def)
qed

lemma gw_inv_shrink:
  assumes "gw_inv g" and "set q \<union> set ts \<subseteq> g_cmds g" and "set ws \<subseteq> set (g_writers g)"
  shows "gw_inv (g\<lparr>g_queue := q, g_tasks := ts, g_writers := ws\<rparr>)"
proof -
  have "bytes_ok (g_limit g) (g_answers g) (tl_dirty_get (gk_tlrfu (g_cache g))) (set q \<union> set ts) (set ws)"
    by (rule bytes_ok_mono) (use assms in \<open>auto simp: gw_inv_def\<close>)
  moreover have "channels_ok (g_answers g) (g_next g) (set q \<union> set ts) (g_oneshot g) (set (g_waiting g))"
    by (rule channels_ok_mono) (use assms in \<open>auto simp: gw_inv_def\<close>)
  ultimately show ?thesis using assms(1) by (simp add: gw_inv_def g_cmds_def)
qed

lemma gw_inv_task:
  assumes inv: "gw_inv g" and t: "g_tasks g = ts @ cmd # ts'"
  shows "gw_inv (run_task env clock cmd (g\<lparr>g_tasks := ts @ ts'\<rparr>))"
proof -
  let ?g = "g\<lparr>g_tasks := ts @ ts'\<rparr>"
  have inv1: "gw_inv ?g"
    using gw_inv_shrink [OF inv, of "g_queue g" "ts @ ts'" "g_writers g"] t by (auto simp: g_cmds_def)
  have cmd: "cmd \<in> g_cmds g" using t by (simp add: g_cmds_def)
  show ?thesis
  proof (cases cmd)
    case (GetSync k)
    then show ?thesis by (auto intro!: gw_inv_finish [OF inv1] simp: worker_content(1))
  next
    case (InsertSync k v)
    then have "from_answer (g_limit g) (g_answers g) k v"
      using inv cmd by (simp add: gw_inv_def bytes_ok_def)
    then show ?thesis using InsertSync by (auto intro!: gw_inv_finish [OF inv1] dest: worker_content(2))
  next
    case TtlCleanUp
    then show ?thesis by (auto intro!: gw_inv_finish [OF inv1] dest: worker_content(3))
  next
    case (Fetch cid n)
    define r where "r = resolve_content env (ic_cid_url (gc_indexer (g_config g))) cid"
    define ans where "ans = (case r of Ok nr \<Rightarrow> (cid, nr) # g_answers g | _ \<Rightarrow> g_answers g)"
    have sub: "set (g_answers g) \<subseteq> set ans" and new: "\<And>nr. r = Ok nr \<Longrightarrow> (cid, nr) \<in> set ans"
      by (auto simp: ans_def split: result.split)
    have "bytes_ok (g_limit g) ans (tl_dirty_get (gk_tlrfu (g_cache g))) (g_cmds ?g) (set (g_writers g))"
      by (rule bytes_ok_mono) (use inv1 sub in \<open>auto simp: gw_inv_def\<close>)
    moreover have "channels_ok ans (g_next g) (g_cmds g) ((g_oneshot g)(n \<mapsto> r)) (set (g_waiting g))"
      by (rule channels_ok_answer [OF _ _ sub new]) (use inv cmd Fetch in \<open>auto simp: gw_inv_def\<close>)
    then have "channels_ok ans (g_next g) (g_cmds ?g) ((g_oneshot g)(n \<mapsto> r)) (set (g_waiting g))"
      by (rule channels_ok_mono) (use t in \<open>auto simp: g_cmds_def\<close>)
    moreover have "replies_ok ans (set (g_replies g))" using inv sub by (auto simp: gw_inv_def intro: replies_ok_mono)
    ultimately show ?thesis
      unfolding Fetch run_task.simps Let_def
      by (simp add: gw_inv_def g_cmds_def r_def ans_def cong: result.case_cong)
  qed
qed

lemma gw_step_inv: "gw_step g g' \<Longrightarrow> gw_inv g \<Longrightarrow> gw_inv g'"
proof (induction rule: gw_step.induct)
  case (step_writer g ws k body ws')
  let ?g = "g\<lparr>g_writers := ws @ ws'\<rparr>"
  have inv: "gw_inv ?g"
    using gw_inv_shrink [OF step_writer(2), of "g_queue g" "g_tasks g" "ws @ ws'"] step_writer(1)
    by (auto simp: g_cmds_def)
  obtain nr where "good_answer (g_limit g) (g_answers g) k nr" "body = resp_body (nr_resp nr)"
    using step_writer unfolding gw_inv_def bytes_ok_def by (metis in_set_conv_decomp)
  then have "collect_body body [] = Some v \<Longrightarrow> from_answer (g_limit g) (g_answers g) k v" for v
    by (auto simp: from_answer_def)
  then show ?case
    using inv by (auto simp: writer_finish_def split: option.split intro!: gw_inv_send)
next
  case (step_recv g)
  then show ?case
    using gw_inv_shrink [OF step_recv, of "tl (g_queue g)" "g_tasks g @ [hd (g_queue g)]" "g_writers g"]
    by (cases "g_queue g") (auto simp: worker_recv_def g_cmds_def)
next
  case (step_purge g)
  have "bytes_ok (g_limit g) (g_answers g) (tl_dirty_get (tl_purge (gk_tlrfu (g_cache g)))) (g_cmds g) (set (g_writers g))"
    by (rule bytes_ok_mono) (use step_purge in \<open>auto simp: gw_inv_def tl_purge_content\<close>)
  with step_purge show ?case
    by (simp add: purge_cache_handler_def admin_purge_def gw_inv_def g_cmds_def)
next
  case (step_tick g)
  then have "gw_inv (snd (send_cmd TtlCleanUp g))" by (rule gw_inv_send) auto
  then show ?case by (auto simp: ttl_tick_def Let_def case_prod_unfold gw_inv_def g_cmds_def)
next
  case (step_stop g)
  then show ?case
    using gw_inv_shrink [OF step_stop, of "[]" "g_tasks g" "g_writers g"]
    by (auto simp: worker_stop_def g_cmds_def gw_inv_def)
qed (auto intro: gw_inv_request gw_inv_resume gw_inv_task)

lemma gw_reach_inv: "gw_reach cfg g \<Longrightarrow> gw_inv g"
proof (induction rule: gw_reach.induct)
  case gw_start
  show ?case
    by (simp add: daemon_start_def gw_inv_def bytes_ok_def channels_ok_def replies_ok_def g_cmds_def
        cache_new_def tl_new_def tl_dirty_get_def)
next
  case (gw_next g g')
  then show ?case using gw_step_inv by blast
qed

section \<open>Properties\<close>

text \<open>
  C9. In every state the gateway can reach, whatever the order of requests, tasks,
  clean-ups, purges and shutdown, a cached value is the complete body of an answer with
  status 200 that the resolver gave for that very content id and whose announced size does
  not exceed the configured limit; a body that broke off is never cached.
\<close>

theorem gateway_caches_only_answers:
  assumes "gw_reach cfg g" and "tl_dirty_get (gk_tlrfu (g_cache g)) k = Some v"
  shows "\<exists>nr. (k, nr) \<in> set (g_answers g) \<and> resp_status (nr_resp nr) = status_ok \<and>
              nr_size nr \<le> gk_cache_control_max_size (g_cache g) \<and>
              (\<exists>bs. resp_body (nr_resp nr) = map Chunk bs \<and> v = concat bs)"
  using gw_reach_inv [OF assms(1)] assms(2)
  by (auto simp: gw_inv_def bytes_ok_def from_answer_def good_answer_def collect_body_complete)

text \<open>
  C11. A response with a stream carries the body of an answer that the resolver gave for
  the content id of that request, both when it comes from the cache and when it is passed
  on; requests that wait at the same time do not get each other's answers. A body that is passed on
  directly is passed on as it is; what goes through the pipe is complete, or it is everything up to the place
  where the body broke off.
\<close>

theorem gateway_replies_match_requests:
  assumes "gw_reach cfg g" and "(cid, r) \<in> set (g_replies g)" and "cr_stream r = Some st"
  shows "\<exists>nr. (cid, nr) \<in> set (g_answers g) \<and> resp_status (nr_resp nr) = status_ok \<and>
    (case st of
       Direct cs \<Rightarrow> cs = resp_body (nr_resp nr)
     | Duplex cs \<Rightarrow> \<exists>bs bs' rest. cs = map Chunk bs' \<and> concat bs' = concat bs \<and>
         resp_body (nr_resp nr) = map Chunk bs @ rest \<and> (rest = [] \<or> hd rest = BodyError))"
proof -
  have "stream_from (g_answers g) cid st"
    using gw_reach_inv [OF assms(1)] assms(2,3) by (auto simp: gw_inv_def replies_ok_def)
  then show ?thesis by (cases st) (auto simp: stream_from_def)
qed

text \<open>
  The reader of the pipe is not told that a body broke off: it gets the bytes before the error and
  a regular end.\<close>

theorem truncated_body_ends_regularly:
  assumes "resp_status (nr_resp nr) = status_ok" and "nr_size nr \<le> gk_cache_control_max_size (g_cache g)"
    and "resp_body (nr_resp nr) = map Chunk bs @ BodyError # rest"
  shows "fst (fetch_finish k (Some (Ok nr)) g) = Ok (Duplex (map Chunk bs))"
proof -
  have "piped (map Chunk bs @ BodyError # rest) = map Chunk bs" by (induction bs) simp_all
  with assms show ?thesis by (simp add: fetch_finish_def)
qed

text \<open>A run: a miss, the fetch, the answer, the insertion of the body, and a hit.\<close>

definition demo_config :: gateway_config where
  "demo_config = default_gateway_config ''/home''"

definition demo0 :: gateway where "demo0 = get_car_handler (\<lambda>_. True) ''c'' False (daemon_start demo_config)"
definition demo1 :: gateway where "demo1 = worker_recv demo0"
definition demo2 :: gateway where
  "demo2 = run_task demo_env (\<lambda>_. Some 5) (Fetch ''c'' 0) (demo1\<lparr>g_tasks := []\<rparr>)"
definition demo3 :: gateway where "demo3 = get_car_resume 0 ''c'' False demo2"
definition demo4 :: gateway where
  "demo4 = worker_recv (writer_finish ''c'' [Chunk [1, 2], Chunk [3]] (demo3\<lparr>g_writers := []\<rparr>))"
definition demo5 :: gateway where
  "demo5 = run_task demo_env (\<lambda>_. Some 7) (InsertSync ''c'' [1, 2, 3]) (demo4\<lparr>g_tasks := []\<rparr>)"
definition demo6 :: gateway where "demo6 = get_car_handler (\<lambda>_. True) ''c'' False demo5"

lemmas demo_eval = demo_config_def default_gateway_config_def daemon_start_def cache_new_def
  get_car_handler_def get_announce_def fetch_start_def send_cmd_def worker_recv_def
  get_car_resume_def fetch_finish_def reply_to_def status_ok_def car_response_of_def writer_finish_def
  finish_task_def worker_insert_def Let_def

lemma demo0_eq: "demo0 = (daemon_start demo_config)\<lparr>g_next := 1, g_queue := [Fetch ''c'' 0], g_waiting := [(0, ''c'', False)]\<rparr>"
  by (simp add: demo0_def demo_eval tl_new_def tl_dirty_get_def)

lemma demo2_eq:
  "demo2 = (daemon_start demo_config)\<lparr>g_next := 1, g_waiting := [(0, ''c'', False)],
     g_oneshot := [0 \<mapsto> Ok \<lparr>nr_resp = \<lparr>resp_status = 200, resp_body = [Chunk [1, 2], Chunk [3]]\<rparr>, nr_size = 3\<rparr>],
     g_answers := [(''c'', \<lparr>nr_resp = \<lparr>resp_status = 200, resp_body = [Chunk [1, 2], Chunk [3]]\<rparr>, nr_size = 3\<rparr>)]\<rparr>"
  by (simp add: demo2_def demo1_def demo0_eq worker_recv_def daemon_start_def demo_resolve Let_def)

lemma demo4_eq:
  "g_writers demo3 = [(''c'', [Chunk [1, 2], Chunk [3]])]" "g_tasks demo4 = [InsertSync ''c'' [1, 2, 3]]"
  "g_cache demo4 = g_cache (daemon_start demo_config)" "g_open demo4"
  by (simp_all add: demo4_def demo3_def demo2_eq demo_eval)

lemma demo5_content: "tl_dirty_get (gk_tlrfu (g_cache demo5)) ''c'' = Some [1, 2, 3]" "g_open demo5"
  by (simp_all add: demo5_def demo4_eq worker_insert_def finish_task_def daemon_start_def cache_new_def
      demo_config_def default_gateway_config_def tl_eval)

lemma demo6_reply:
  "(''c'', car_response_of ''c'' False (sc_cache_control_max_age (gc_server (g_config demo5)))
      (Ok (Duplex [Chunk [1, 2, 3]]))) \<in> set (g_replies demo6)"
  using demo5_content by (simp add: demo6_def get_car_handler_def get_announce_def send_cmd_def reply_to_def)

lemma demo_reach: "gw_reach demo_config demo5" "gw_reach demo_config demo6"
proof -
  have "gw_reach demo_config demo0" unfolding demo0_def by (rule gw_next [OF gw_start step_request])
  then have "gw_reach demo_config demo1" unfolding demo1_def by (rule gw_next [OF _ step_recv])
  moreover have "g_tasks demo1 = [] @ Fetch ''c'' 0 # []" by (simp add: demo1_def demo0_eq worker_recv_def daemon_start_def)
  ultimately have "gw_reach demo_config demo2"
    unfolding demo2_def using gw_next step_task [of demo1 "[]" "Fetch ''c'' 0" "[]" demo_env "\<lambda>_. Some 5"] by simp
  then have "gw_reach demo_config demo3"
    unfolding demo3_def by (rule gw_next [OF _ step_resume]) (simp_all add: demo2_eq)
  moreover have "g_writers demo3 = [] @ (''c'', [Chunk [1, 2], Chunk [3]]) # []" by (simp add: demo4_eq)
  ultimately have "gw_reach demo_config (writer_finish ''c'' [Chunk [1, 2], Chunk [3]] (demo3\<lparr>g_writers := []\<rparr>))"
    using gw_next step_writer [of demo3 "[]" "''c''" "[Chunk [1, 2], Chunk [3]]" "[]"] by simp
  then have "gw_reach demo_config demo4" unfolding demo4_def by (rule gw_next [OF _ step_recv])
  then show r5: "gw_reach demo_config demo5"
    unfolding demo5_def
    using gw_next step_task [of demo4 "[]" "InsertSync ''c'' [1, 2, 3]" "[]" demo_env "\<lambda>_. Some 7"]
    by (simp add: demo4_eq)
  show "gw_reach demo_config demo6" unfolding demo6_def by (rule gw_next [OF r5 step_request])
qed

theorem gateway_caches_only_answers_witness:
  "\<exists>nr bs. (''c'', nr) \<in> set (g_answers demo5) \<and> resp_body (nr_resp nr) = map Chunk bs \<and> concat bs = [1, 2, 3]"
  using gateway_caches_only_answers [OF demo_reach(1) demo5_content(1)] by metis

theorem gateway_replies_match_requests_witness:
  "\<exists>nr bs rest. (''c'', nr) \<in> set (g_answers demo6) \<and> resp_body (nr_resp nr) = map Chunk bs @ rest \<and> concat bs = [1, 2, 3]"
proof -
  have "cr_stream (car_response_of ''c'' False n (Ok (Duplex [Chunk [1, 2, 3]]))) = Some (Duplex [Chunk [1, 2, 3]])" for n
    by (simp add: car_response_of_def)
  from gateway_replies_match_requests [OF demo_reach(2) demo6_reply this]
  obtain nr bs rest where "(''c'', nr) \<in> set (g_answers demo6)" "concat bs = [1, 2, 3]"
    "resp_body (nr_resp nr) = map Chunk bs @ rest" by (elim exE conjE) (auto; metis append_Nil2)
  then show ?thesis by blast
qed

text \<open>
  C40. With the default configuration a body of more than 200 MB whose announced size is
  within the 1 GB limit is handed to the cache, where the insertion empties the cache,
  fails and signals the shutdown of the gateway.
\<close>

theorem default_config_large_content_stops_gateway:
  assumes cfg: "tl_max (gk_tlrfu (g_cache g)) = cc_max_size (gc_cache (default_gateway_config home))"
    and lim: "gk_cache_control_max_size (g_cache g) = sc_cache_control_max_size (gc_server (default_gateway_config home))"
    and core: "tl_core (gk_tlrfu (g_cache g))" and new: "\<not> tl_contains (gk_tlrfu (g_cache g)) k"
    and nr: "resp_status (nr_resp nr) = status_ok" "nr_size nr = length v" "collect_body (resp_body (nr_resp nr)) [] = Some v"
    and len: "200000000 < length v" "length v \<le> 1000000000"
  shows "(k, resp_body (nr_resp nr)) \<in> set (g_writers (snd (fetch_finish k (Some (Ok nr)) g))) \<and>
    g_signals (run_task env clock (InsertSync k v) g) = Suc (g_signals g) \<and>
    (\<forall>x. tl_dirty_get (gk_tlrfu (g_cache (run_task env clock (InsertSync k v) g))) x = None)"
proof -
  let ?c = "gk_tlrfu (g_cache g)"
  have m: "tl_max ?c = 200000000" using cfg by (simp add: default_gateway_config_def)
  note over = tl_insert_oversize [OF core new, of v "clock 0"]
  have "fst (tl_insert ?c k v (clock 0)) = Err TlFreqEmpty \<and> tl_store (snd (tl_insert ?c k v (clock 0))) = []"
    by (rule over) (use m len in \<open>simp_all add: byte_size_def\<close>)
  then obtain t where "tl_insert ?c k v (clock 0) = (Err TlFreqEmpty, t)" "tl_store t = []"
    by (cases "tl_insert ?c k v (clock 0)") auto
  with nr len lim new show ?thesis
    by (simp add: fetch_finish_def default_gateway_config_def worker_insert_def finish_task_def tl_dirty_get_def)
qed

definition large_body :: bytes where
  "large_body = replicate 200000001 0"

lemma length_large_body: "length large_body = 200000001"
  unfolding large_body_def by (rule length_replicate)

theorem default_config_large_content_stops_gateway_witness:
  "g_signals (run_task demo_env (\<lambda>_. Some 1) (InsertSync ''c'' large_body) (daemon_start demo_config)) = 1"
proof -
  let ?nr = "\<lparr>nr_resp = \<lparr>resp_status = 200, resp_body = [Chunk large_body]\<rparr>, nr_size = 200000001\<rparr>"
  have "tl_inv (tl_new (cc_max_size (gc_cache demo_config)) b)" for b
    by (rule tl_new_inv) (simp add: demo_config_def default_gateway_config_def)
  then have "g_signals (run_task demo_env (\<lambda>_. Some 1) (InsertSync ''c'' large_body) (daemon_start demo_config)) =
      Suc (g_signals (daemon_start demo_config))"
    using default_config_large_content_stops_gateway [of "daemon_start demo_config" "''/home''" "''c''" ?nr large_body
        demo_env "\<lambda>_. Some 1"]
    by (simp add: length_large_body tl_inv_def daemon_start_def cache_new_def tl_new_def demo_config_def
        tl_contains_def hm_contains_def status_ok_def default_gateway_config_def)
  then show ?thesis by (simp add: daemon_start_def)
qed

end
