(* ===== verification/Files.thy ===== *)
theory Files
  imports Text
begin

text \<open>
  What the sources use of \<open>std::fs\<close>, \<open>std::path\<close> and \<open>str\<close>: a file system as a map from paths
  to contents and mode, in which any operation can fail, paths split at their slashes, and
  the validity of UTF-8 that \<open>read_to_string\<close> asks for.
\<close>

section \<open>File system\<close>

type_synonym path = string

datatype fs_op = OpExists | OpCreateDir | OpOpen | OpRead | OpCreate | OpWrite | OpSync | OpMetadata | OpSetMode

text \<open>
  \<open>fs_fault op p\<close> is the error that an operation reports, if it fails; a write that fails has
  written the first \<open>fs_partial\<close> bytes. A new file has mode \<open>fs_umask\<close>.
\<close>

record fsys =
  fs_files :: "path \<Rightarrow> (bytes \<times> nat) option"
  fs_fault :: "fs_op \<Rightarrow> path \<Rightarrow> string option"
  fs_partial :: nat
  fs_umask :: nat

definition fs_check :: "fs_op \<Rightarrow> path \<Rightarrow> fsys \<Rightarrow> (unit, string) result" where
  "fs_check op p fs = (case fs_fault fs op p of None \<Rightarrow> Ok () | Some e \<Rightarrow> Err e)"

definition fs_exists :: "path \<Rightarrow> fsys \<Rightarrow> bool" where
  "fs_exists p fs = (fs_fault fs OpExists p = None \<and> fs_files fs p \<noteq> None)"

text \<open>\<open>File::open\<close> and \<open>read_to_end\<close>.\<close>

definition fs_read :: "path \<Rightarrow> fsys \<Rightarrow> (bytes, string) result" where
  "fs_read p fs =
     bind_res (fs_check OpOpen p fs) (\<lambda>_.
       case fs_files fs p of
         None \<Rightarrow> Err ''No such file or directory''
       | Some (b, _) \<Rightarrow> bind_res (fs_check OpRead p fs) (\<lambda>_. Ok b))"

text \<open>\<open>File::create\<close> empties an existing file, which keeps its mode.\<close>

definition fs_create :: "path \<Rightarrow> fsys \<Rightarrow> (unit, string) result \<times> fsys" where
  "fs_create p fs =
     (case fs_fault fs OpCreate p of
        Some e \<Rightarrow> (Err e, fs)
      | None \<Rightarrow> (Ok (), fs\<lparr>fs_files := (fs_files fs)(p \<mapsto>
          ([], case fs_files fs p of None \<Rightarrow> fs_umask fs | Some (_, m) \<Rightarrow> m))\<rparr>))"

definition fs_set_contents :: "path \<Rightarrow> bytes \<Rightarrow> fsys \<Rightarrow> fsys" where
  "fs_set_contents p b fs = fs\<lparr>fs_files := (fs_files fs)(p := map_option (\<lambda>(_, m). (b, m)) (fs_files fs p))\<rparr>"

definition fs_write_all :: "path \<Rightarrow> bytes \<Rightarrow> fsys \<Rightarrow> (unit, string) result \<times> fsys" where
  "fs_write_all p b fs =
     (case fs_fault fs OpWrite p of
        Some e \<Rightarrow> (Err e, fs_set_contents p (take (fs_partial fs) b) fs)
      | None \<Rightarrow> (Ok (), fs_set_contents p b fs))"

definition fs_set_mode :: "path \<Rightarrow> nat \<Rightarrow> fsys \<Rightarrow> (unit, string) result \<times> fsys" where
  "fs_set_mode p mode fs =
     (case fs_fault fs OpSetMode p of
        Some e \<Rightarrow> (Err e, fs)
      | None \<Rightarrow> (Ok (), fs\<lparr>fs_files := (fs_files fs)(p := map_option (\<lambda>(b, _). (b, mode)) (fs_files fs p))\<rparr>))"

text \<open>A step of a function that changes the file system and may fail with \<open>?\<close>.\<close>

fun bind_fs :: "('a, 'e) result \<times> fsys \<Rightarrow> ('a \<Rightarrow> fsys \<Rightarrow> ('b, 'e) result \<times> fsys) \<Rightarrow> ('b, 'e) result \<times> fsys" where
  "bind_fs (Ok x, fs) f = f x fs"
| "bind_fs (Err e, fs) f = (Err e, fs)"
| "bind_fs (Panic, fs) f = (Panic, fs)"

lemma bind_fs_Ok_iff: "bind_fs r f = (Ok y, fs') \<longleftrightarrow> (\<exists>x fs. r = (Ok x, fs) \<and> f x fs = (Ok y, fs'))"
  by (cases "(r, f)" rule: bind_fs.cases) auto

section \<open>Restarts\<close>

text \<open>What a sequence of starts returns, each with its own input \<open>g\<close> (the key it would make, for instance).\<close>

fun restarts :: "('g \<Rightarrow> fsys \<Rightarrow> ('a, 'e) result \<times> fsys) \<Rightarrow> 'g list \<Rightarrow> fsys \<Rightarrow> ('a, 'e) result list \<times> fsys" where
  "restarts load [] fs = ([], fs)"
| "restarts load (g # gs) fs = (let (r, fs1) = load g fs; (rs, fs2) = restarts load gs fs1 in (r # rs, fs2))"

text \<open>
  The contract of state that outlives the process: where \<open>ok\<close> holds, a start that succeeds leaves
  a file system on which every later start returns the same and writes nothing.
\<close>

locale restartable =
  fixes load :: "'g \<Rightarrow> fsys \<Rightarrow> ('a, 'e) result \<times> fsys"
    and ok :: "fsys \<Rightarrow> bool"
  assumes load_again: "ok fs \<Longrightarrow> load g fs = (Ok x, fs') \<Longrightarrow> load g' fs' = (Ok x, fs')"
begin

lemma restarts_same:
  assumes "ok fs" and "load g fs = (Ok x, fs')"
  shows "restarts load gs fs' = (replicate (length gs) (Ok x), fs')"
  by (induction gs) (simp_all add: load_again [OF assms])

lemma restarts_agree:
  assumes "ok fs" and "restarts load (g # gs) fs = (Ok x # rs, fs')"
  shows "rs = replicate (length gs) (Ok x) \<and> load g fs = (Ok x, fs')"
proof -
  obtain fs1 where l: "load g fs = (Ok x, fs1)" using assms(2) by (auto split: prod.splits)
  with assms restarts_same [OF assms(1) l, of gs] show ?thesis by simp
qed

end

section \<open>UTF-8\<close>

text \<open>The byte sequences that \<open>str::from_utf8\<close> accepts.\<close>

definition cont_byte :: "byte \<Rightarrow> bool" where
  "cont_byte b = (128 \<le> b \<and> b \<le> 191)"

fun utf8_valid :: "bytes \<Rightarrow> bool" where
  "utf8_valid [] = True"
| "utf8_valid (a # bs) =
     (if a \<le> 127 then utf8_valid bs
      else case bs of
        [] \<Rightarrow> False
      | b # cs \<Rightarrow>
          if 194 \<le> a \<and> a \<le> 223 then cont_byte b \<and> utf8_valid cs
          else (case cs of
            [] \<Rightarrow> False
          | c # ds \<Rightarrow>
              if a = 224 then 160 \<le> b \<and> b \<le> 191 \<and> cont_byte c \<and> utf8_valid ds
              else if a = 237 then 128 \<le> b \<and> b \<le> 159 \<and> cont_byte c \<and> utf8_valid ds
              else if 225 \<le> a \<and> a \<le> 239 then cont_byte b \<and> cont_byte c \<and> utf8_valid ds
              else (case ds of
                [] \<Rightarrow> False
              | d # es \<Rightarrow>
                  cont_byte c \<and> cont_byte d \<and> utf8_valid es \<and>
                  (if a = 240 then 144 \<le> b \<and> b \<le> 191
                   else if a = 244 then 128 \<le> b \<and> b \<le> 143
                   else 241 \<le> a \<and> a \<le> 243 \<and> cont_byte b))))"

lemma utf8_valid_ascii: "list_all (\<lambda>b. b \<le> 127) bs \<Longrightarrow> utf8_valid bs"
  by (induction bs) auto

text \<open>\<open>read_to_string\<close>.\<close>

definition fs_read_string :: "path \<Rightarrow> fsys \<Rightarrow> (bytes, string) result" where
  "fs_read_string p fs =
     bind_res (fs_read p fs) (\<lambda>b. if utf8_valid b then Ok b else Err ''stream did not contain valid UTF-8'')"

section \<open>Paths\<close>

fun split_on :: "char \<Rightarrow> string \<Rightarrow> string list" where
  "split_on s [] = [[]]"
| "split_on s (c # cs) =
     (if c = s then [] # split_on s cs
      else (case split_on s cs of [] \<Rightarrow> [[c]] | w # ws \<Rightarrow> (c # w) # ws))"

text \<open>The components of a path, without the empty and \<open>.\<close> ones at its end.\<close>

definition segments :: "path \<Rightarrow> string list" where
  "segments p = rev (dropWhile (\<lambda>s. s = [] \<or> s = ''.'') (rev (split_on CHR ''/'' p)))"

definition path_parent :: "path \<Rightarrow> path option" where
  "path_parent p =
     (if segments p = [] then (if hd (split_on CHR ''/'' p) = ''.'' then Some [] else None)
      else Some (join ''/'' (butlast (segments p))))"

definition path_join :: "path \<Rightarrow> string \<Rightarrow> path" where
  "path_join dir name =
     (if (case name of c # _ \<Rightarrow> c = CHR ''/'' | [] \<Rightarrow> False) \<or> dir = [] then name
      else if last dir = CHR ''/'' then dir @ name
      else dir @ CHR ''/'' # name)"

text \<open>\<open>file_stem\<close> is what precedes the last dot, unless that is the first character.\<close>

definition file_stem :: "string \<Rightarrow> string" where
  "file_stem f =
     (let before = rev (drop 1 (dropWhile (\<lambda>c. c \<noteq> CHR ''.'') (rev f)))
      in if CHR ''.'' \<in> set f \<and> before \<noteq> [] then before else f)"

definition set_extension :: "string \<Rightarrow> path \<Rightarrow> path" where
  "set_extension ext p =
     (if segments p = [] \<or> last (segments p) = ''..'' then p
      else join ''/'' (butlast (segments p) @ [file_stem (last (segments p)) @ CHR ''.'' # ext]))"

lemma split_on_nonempty [simp]: "split_on s cs \<noteq> []"
  by (induction cs) (auto split: list.splits)

lemma split_on_join: "s \<notin> set xs \<Longrightarrow> split_on s (xs @ s # ys) = xs # split_on s ys"
  by (induction xs) (auto split: list.splits)

lemma split_on_none: "s \<notin> set xs \<Longrightarrow> split_on s xs = [xs]"
  by (induction xs) auto

lemma join_split [simp]: "join [s] (split_on s cs) = cs"
proof (induction cs)
  case (Cons c cs)
  obtain w ws where "split_on s cs = w # ws" using split_on_nonempty by (meson neq_Nil_conv)
  with Cons show ?case by (cases ws) auto
qed simp

lemma file_stem_dot:
  "stem \<noteq> [] \<Longrightarrow> CHR ''.'' \<notin> set x \<Longrightarrow> file_stem (stem @ CHR ''.'' # x) = stem"
  by (simp add: file_stem_def Let_def dropWhile_append3 dropWhile_append)

end
