(* ===== verification/Fairness.thy ===== *)
theory Fairness
  imports Main
begin

text \<open>
  Runs of a labelled step relation in which some actions are weakly fair: an action that stays possible from some
  point on is taken at some later point. Between steps a run may pause, and nothing is promised of the
  other actions, which stand for what the environment does.
\<close>

definition fair_run :: "('l \<Rightarrow> 's \<Rightarrow> 's \<Rightarrow> bool) \<Rightarrow> 'l set \<Rightarrow> (nat \<Rightarrow> 's) \<Rightarrow> bool" where
  "fair_run step fair f \<longleftrightarrow>
     (\<forall>i. f (Suc i) = f i \<or> (\<exists>l. step l (f i) (f (Suc i)))) \<and>
     (\<forall>l \<in> fair. \<forall>i. (\<forall>j \<ge> i. \<exists>s'. step l (f j) s') \<longrightarrow> (\<exists>j \<ge> i. step l (f j) (f (Suc j))))"

text \<open>Whenever \<open>P\<close> holds in the run, \<open>Q\<close> holds then or later.\<close>

definition leads_to :: "(nat \<Rightarrow> 's) \<Rightarrow> ('s \<Rightarrow> bool) \<Rightarrow> ('s \<Rightarrow> bool) \<Rightarrow> bool" where
  "leads_to f P Q \<longleftrightarrow> (\<forall>i. P (f i) \<longrightarrow> (\<exists>j \<ge> i. Q (f j)))"

lemma leads_toD: "leads_to f P Q \<Longrightarrow> P (f i) \<Longrightarrow> \<exists>j \<ge> i. Q (f j)"
  by (simp add: leads_to_def)

lemma leads_to_trans: "leads_to f P Q \<Longrightarrow> leads_to f Q R \<Longrightarrow> leads_to f P R"
  unfolding leads_to_def by (meson order_trans)

lemma leads_to_unless: "leads_to f (\<lambda>s. P s \<and> \<not> Q s) Q \<Longrightarrow> leads_to f P Q"
  unfolding leads_to_def by blast

text \<open>A measure that is bound to become smaller while it is not 0 becomes 0.\<close>

lemma leads_to_zero:
  fixes m :: "'s \<Rightarrow> nat"
  assumes "\<And>k. 0 < k \<Longrightarrow> leads_to f (\<lambda>s. P s \<and> m s = k) (\<lambda>s. P s \<and> m s < k)"
  shows "leads_to f P (\<lambda>s. P s \<and> m s = 0)"
proof -
  have "\<exists>j \<ge> i. P (f j) \<and> m (f j) = 0" if "P (f i)" for i
    using that
  proof (induction "m (f i)" arbitrary: i rule: less_induct)
    case less
    show ?case
    proof (cases "m (f i) = 0")
      case False
      then obtain j where "i \<le> j" "P (f j)" "m (f j) < m (f i)"
        using leads_toD [OF assms [of "m (f i)"], of i] less.prems by auto
      with less.hyps [of j] show ?thesis by (meson order_trans)
    qed (use less.prems in blast)
  qed
  then show ?thesis by (simp add: leads_to_def)
qed

locale fair_system =
  fixes step :: "'l \<Rightarrow> 's \<Rightarrow> 's \<Rightarrow> bool" and fair :: "'l set" and inv :: "'s \<Rightarrow> bool"
  assumes inv_step: "step l s s' \<Longrightarrow> inv s \<Longrightarrow> inv s'"
begin

lemma inv_run: "fair_run step fair f \<Longrightarrow> inv (f 0) \<Longrightarrow> inv (f i)"
proof (induction i)
  case (Suc i)
  then show ?case using inv_step unfolding fair_run_def by metis
qed

text \<open>
  The rule for one fair action: while \<open>P\<close> holds it is possible, it makes \<open>Q\<close> true, and every other step keeps \<open>P\<close> or
  makes \<open>Q\<close> true as well.
\<close>

lemma fair_leads_to:
  assumes "fair_run step fair f" and "inv (f 0)" and "l \<in> fair"
    and "\<And>s. inv s \<Longrightarrow> P s \<Longrightarrow> \<exists>s'. step l s s'"
    and "\<And>s s'. inv s \<Longrightarrow> P s \<Longrightarrow> step l s s' \<Longrightarrow> Q s'"
    and "\<And>k s s'. inv s \<Longrightarrow> P s \<Longrightarrow> step k s s' \<Longrightarrow> P s' \<or> Q s'"
  shows "leads_to f P Q"
proof -
  have "\<exists>j \<ge> i. Q (f j)" if "P (f i)" for i
  proof (rule ccontr)
    assume no: "\<not> (\<exists>j \<ge> i. Q (f j))"
    have P: "P (f j)" if "i \<le> j" for j
      using that
    proof (induction rule: dec_induct)
      case base
      show ?case by fact
    next
      case (step n)
      from assms(1) consider "f (Suc n) = f n" | k where "step k (f n) (f (Suc n))"
        unfolding fair_run_def by blast
      then show ?case
      proof cases
        case 2
        with assms(6) [OF inv_run [OF assms(1,2)] step.IH] no step.hyps show ?thesis by (meson le_Suc_eq)
      qed (use step.IH in simp)
    qed
    then have "\<forall>j \<ge> i. \<exists>s'. step l (f j) s'" using assms(4) inv_run [OF assms(1,2)] by blast
    then obtain j where "i \<le> j" "step l (f j) (f (Suc j))"
      using assms(1,3) unfolding fair_run_def by blast
    with assms(5) [OF inv_run [OF assms(1,2)] P] no show False by (meson le_Suc_eq)
  qed
  then show ?thesis by (simp add: leads_to_def)
qed

end

end
