(* ===== verification/Gateway_Daemon.thy ===== *)
theory Gateway_Daemon
  imports Gateway_Config Files Fairness
begin

text \<open>
  The gateway as a process, \<open>ursa-gateway/src/main.rs\<close> with \<open>server/mod.rs\<close>, \<open>admin/mod.rs\<close> and
  the end of \<open>worker/mod.rs\<close>: its configuration file, the start of its two servers, and how it
  stops. The processes of a gateway are the main task, the server, the admin server, the task
  of the interval and the main worker; a step of \<open>daemon_step\<close> is a step of one of them or of their
  environment, in any order.
\<close>

section \<open>Configuration file\<close>

record gateway_toml =
  gt_home :: string
  gt_print :: "gateway_config \<Rightarrow> (bytes, string) result"
  gt_parse :: "bytes \<Rightarrow> (gateway_config, string) result"

text \<open>The file is created before the text is made, so an error in between leaves it empty.\<close>

definition init_config :: "gateway_toml \<Rightarrow> path \<Rightarrow> fsys \<Rightarrow> (unit, string) result \<times> fsys" where
  "init_config lib path fs =
     (if \<not> fs_exists path fs then
        (case path_parent path of
           None \<Rightarrow> (Err ''Couldn't get parent dir'', fs)
         | Some parent_dir \<Rightarrow>
             bind_fs (fs_check OpCreateDir parent_dir fs, fs) (\<lambda>_ fs.
             bind_fs (fs_create path fs) (\<lambda>_ fs.
             bind_fs (gt_print lib (default_gateway_config (gt_home lib)), fs) (\<lambda>toml fs.
               fs_write_all path toml fs))))
      else (Ok (), fs))"

definition load_config :: "gateway_toml \<Rightarrow> path \<Rightarrow> fsys \<Rightarrow> (gateway_config, string) result" where
  "load_config lib path fs =
     bind_res (fs_read_string path fs) (\<lambda>toml. map_err (\<lambda>_. ''Failed to deserialize'') (gt_parse lib toml))"

section \<open>Starting the servers\<close>

record server_ops =
  so_tls :: "string \<Rightarrow> string \<Rightarrow> (unit, string) result"
  so_ipv4 :: "string \<Rightarrow> string option"
  so_serve :: "string \<times> nat \<Rightarrow> (unit, string) result"

definition server_start :: "server_ops \<Rightarrow> gateway_config \<Rightarrow> (unit, string) result" where
  "server_start so config =
     bind_res (map_err (\<lambda>_. ''Failed to init tls'') (so_tls so (sc_cert_path (gc_server config)) (sc_key_path (gc_server config)))) (\<lambda>_.
     bind_res (ok_or ''Failed to parse IPv4'' (so_ipv4 so (server_config.sc_addr (gc_server config)))) (\<lambda>ip.
       map_err (\<lambda>_. ''Failed to start server'') (so_serve so (ip, unat (server_config.sc_port (gc_server config))))))"

definition admin_start :: "server_ops \<Rightarrow> gateway_config \<Rightarrow> (unit, string) result" where
  "admin_start so config =
     bind_res (ok_or ''Failed to parse IPv4'' (so_ipv4 so (ac_addr (gc_admin_server config)))) (\<lambda>ip.
       map_err (\<lambda>_. ''Failed to start admin server'') (so_serve so (ip, unat (ac_port (gc_admin_server config)))))"

datatype panic_payload = PanicString string | PanicStr string | PanicOther

text \<open>The message of a panic is logged; the answer does not show it.\<close>

fun panic_message :: "panic_payload \<Rightarrow> string" where
  "panic_message (PanicString e) = e"
| "panic_message (PanicStr e) = e"
| "panic_message PanicOther = ''Unknown panic message''"

definition recover :: "panic_payload \<Rightarrow> string \<times> nat \<times> string" where
  "recover e = (''Unhandled error: '' @ panic_message e, 500, ''Internal Server Error'')"

section \<open>Stopping\<close>

datatype task_state = Up | Down

datatype worker = ServerWorker | AdminWorker | TtlWorker

text \<open>
  Where the main task is: serving, waiting for the workers of a list, having stopped the main
  worker and waiting for it, or done.
\<close>

datatype phase = Serving | Awaiting "worker list" | AwaitingMain | Finished

text \<open>
  \<open>dm_signal\<close>: an operating system signal or a message on one of the signal channels is
  pending. \<open>dm_stop\<close>: the shutdown was broadcast. \<open>dm_grace\<close>: the seconds that the server's
  handle still grants. \<open>dm_arrivals\<close>: connections that clients asked for and the server did not
  accept yet; \<open>dm_conns\<close>: open connections. \<open>dm_work\<close>: commands that requests and tasks in
  progress may still send to the main worker, \<open>dm_queue\<close>: those that wait there. \<open>dm_tick\<close>: the
  interval is over.
\<close>

record daemon =
  dm_phase :: phase
  dm_signal :: bool
  dm_stop :: bool
  dm_server :: task_state
  dm_grace :: "nat option"
  dm_arrivals :: nat
  dm_conns :: nat
  dm_admin :: task_state
  dm_ttl :: task_state
  dm_tick :: bool
  dm_main :: task_state
  dm_main_stop :: bool
  dm_work :: nat
  dm_queue :: nat

definition daemon_init :: daemon where
  "daemon_init = \<lparr>dm_phase = Serving, dm_signal = False, dm_stop = False, dm_server = Up, dm_grace = None,
     dm_arrivals = 0, dm_conns = 0, dm_admin = Up, dm_ttl = Up, dm_tick = False, dm_main = Up, dm_main_stop = False,
     dm_work = 0, dm_queue = 0\<rparr>"

fun worker_state :: "worker \<Rightarrow> daemon \<Rightarrow> task_state" where
  "worker_state ServerWorker s = dm_server s"
| "worker_state AdminWorker s = dm_admin s"
| "worker_state TtlWorker s = dm_ttl s"

text \<open>
  What the servers do when the shutdown was broadcast: the server stops accepting and gives its
  connections thirty seconds, the admin server closes at once.
\<close>

definition server_graceful_shutdown :: "daemon \<Rightarrow> daemon" where
  "server_graceful_shutdown s = s\<lparr>dm_grace := Some 30\<rparr>"

definition admin_graceful_shutdown :: "daemon \<Rightarrow> daemon" where
  "admin_graceful_shutdown s = s\<lparr>dm_admin := Down\<rparr>"

lemmas graceful_shutdown_defs [simp] = server_graceful_shutdown_def admin_graceful_shutdown_def

text \<open>
  The actions of the program during a shutdown. Everything else a step can be is \<open>Environment\<close>: what clients do, when
  the answers of requests are ready, signals, errors, and the end of the interval.
\<close>

datatype action = Shutdown | ServerTold | Second | ServerExit | AdminExit | TtlExit | Joined | StopMain | MainExit | JoinedMain | Environment

text \<open>
  A request sends at most two commands: one for a cached value, or one to fetch and one to
  insert. Clients may ask for a connection at any time, also when the gateway is stopping, and none of them has to close
  one. \<open>Second\<close> is the passing of a second after the server was told to stop; when the thirty seconds are
  over the server ends with the connections that are still open.
\<close>

inductive daemon_step :: "action \<Rightarrow> daemon \<Rightarrow> daemon \<Rightarrow> bool" where
  arrive: "daemon_step Environment s (s\<lparr>dm_arrivals := Suc (dm_arrivals s)\<rparr>)"
| accept: "dm_server s = Up \<Longrightarrow> dm_grace s = None \<Longrightarrow> dm_arrivals s = Suc n \<Longrightarrow>
    daemon_step Environment s (s\<lparr>dm_arrivals := n, dm_conns := Suc (dm_conns s), dm_work := dm_work s + 2\<rparr>)"
| send: "dm_work s = Suc n \<Longrightarrow>
    daemon_step Environment s (s\<lparr>dm_work := n, dm_queue := (if dm_main s = Up then Suc (dm_queue s) else dm_queue s)\<rparr>)"
| no_send: "dm_work s = Suc n \<Longrightarrow> daemon_step Environment s (s\<lparr>dm_work := n\<rparr>)"
| close: "dm_conns s = Suc n \<Longrightarrow> daemon_step Environment s (s\<lparr>dm_conns := n\<rparr>)"
| recv: "dm_main s = Up \<Longrightarrow> dm_queue s = Suc n \<Longrightarrow> daemon_step Environment s (s\<lparr>dm_queue := n\<rparr>)"
| task_error: "daemon_step Environment s (s\<lparr>dm_signal := True\<rparr>)"
| os_signal: "daemon_step Environment s (s\<lparr>dm_signal := True\<rparr>)"
| server_error: "dm_server s = Up \<Longrightarrow> dm_conns s = 0 \<Longrightarrow> daemon_step Environment s (s\<lparr>dm_server := Down, dm_signal := True\<rparr>)"
| admin_error: "dm_admin s = Up \<Longrightarrow> daemon_step Environment s (s\<lparr>dm_admin := Down, dm_signal := True\<rparr>)"
| elapse: "dm_ttl s = Up \<Longrightarrow> daemon_step Environment s (s\<lparr>dm_tick := True\<rparr>)"
| ttl_send: "dm_ttl s = Up \<Longrightarrow> dm_tick s \<Longrightarrow> daemon_step Environment s (s\<lparr>dm_tick := False, dm_queue := Suc (dm_queue s)\<rparr>)"
| shutdown: "dm_phase s = Serving \<Longrightarrow> dm_signal s \<Longrightarrow>
    daemon_step Shutdown s (s\<lparr>dm_stop := True, dm_phase := Awaiting [ServerWorker, AdminWorker, TtlWorker]\<rparr>)"
| server_told: "dm_stop s \<Longrightarrow> dm_server s = Up \<Longrightarrow> dm_grace s = None \<Longrightarrow> daemon_step ServerTold s (server_graceful_shutdown s)"
| second: "dm_server s = Up \<Longrightarrow> dm_grace s = Some (Suc n) \<Longrightarrow> daemon_step Second s (s\<lparr>dm_grace := Some n\<rparr>)"
| server_exit: "dm_server s = Up \<Longrightarrow> dm_grace s = Some n \<Longrightarrow> dm_conns s = 0 \<or> n = 0 \<Longrightarrow>
    daemon_step ServerExit s (s\<lparr>dm_server := Down, dm_conns := 0\<rparr>)"
| admin_exit: "dm_stop s \<Longrightarrow> dm_admin s = Up \<Longrightarrow> daemon_step AdminExit s (admin_graceful_shutdown s)"
| ttl_exit: "dm_stop s \<Longrightarrow> dm_ttl s = Up \<Longrightarrow> daemon_step TtlExit s (s\<lparr>dm_ttl := Down\<rparr>)"
| joined: "dm_phase s = Awaiting (w # ws) \<Longrightarrow> worker_state w s = Down \<Longrightarrow> daemon_step Joined s (s\<lparr>dm_phase := Awaiting ws\<rparr>)"
| stop_main: "dm_phase s = Awaiting [] \<Longrightarrow> dm_main s = Up \<Longrightarrow> daemon_step StopMain s (s\<lparr>dm_phase := AwaitingMain, dm_main_stop := True\<rparr>)"
| main_exit: "dm_main_stop s \<Longrightarrow> dm_main s = Up \<Longrightarrow> daemon_step MainExit s (s\<lparr>dm_main := Down\<rparr>)"
| joined_main: "dm_phase s = AwaitingMain \<Longrightarrow> dm_main s = Down \<Longrightarrow> daemon_step JoinedMain s (s\<lparr>dm_phase := Finished\<rparr>)"

inductive_cases daemon_stepE: "daemon_step a s s'"

inductive_simps daemon_step_simps:
  "daemon_step Shutdown s s'" "daemon_step ServerTold s s'" "daemon_step Second s s'" "daemon_step ServerExit s s'"
  "daemon_step AdminExit s s'" "daemon_step TtlExit s s'" "daemon_step Joined s s'" "daemon_step StopMain s s'"
  "daemon_step MainExit s s'" "daemon_step JoinedMain s s'"

definition daemon_reach :: "daemon \<Rightarrow> bool" where
  "daemon_reach s \<longleftrightarrow> (\<lambda>x y. \<exists>a. daemon_step a x y)\<^sup>*\<^sup>* daemon_init s"

lemma daemon_reach_init: "daemon_reach daemon_init"
  by (simp add: daemon_reach_def)

lemma daemon_reach_step: "daemon_reach s \<Longrightarrow> daemon_step a s s' \<Longrightarrow> daemon_reach s'"
  unfolding daemon_reach_def by (erule rtranclp.rtrancl_into_rtrancl) blast

text \<open>A run of the gateway: its own actions are weakly fair, the environment owes nothing.\<close>

abbreviation gateway_run :: "(nat \<Rightarrow> daemon) \<Rightarrow> bool" where
  "gateway_run f \<equiv> fair_run daemon_step (- {Environment}) f"

section \<open>Order of the shutdown\<close>

definition all_down :: "daemon \<Rightarrow> bool" where
  "all_down s \<longleftrightarrow> dm_server s = Down \<and> dm_admin s = Down \<and> dm_ttl s = Down"

definition daemon_inv :: "daemon \<Rightarrow> bool" where
  "daemon_inv s \<longleftrightarrow>
     (dm_stop s \<longleftrightarrow> dm_phase s \<noteq> Serving) \<and> (dm_main_stop s \<longleftrightarrow> dm_phase s = AwaitingMain \<or> dm_phase s = Finished) \<and>
     (case dm_phase s of
        Serving \<Rightarrow> True
      | Awaiting ws \<Rightarrow> \<forall>w. w \<notin> set ws \<longrightarrow> worker_state w s = Down
      | _ \<Rightarrow> all_down s) \<and>
     (dm_phase s = Finished \<longrightarrow> dm_main s = Down) \<and> (dm_main s = Down \<longrightarrow> dm_main_stop s) \<and>
     (\<forall>n. dm_grace s = Some n \<longrightarrow> dm_stop s \<and> n \<le> 30) \<and> (0 < dm_conns s \<longrightarrow> dm_server s = Up) \<and> (dm_ttl s = Down \<longrightarrow> dm_stop s)"

lemma daemon_inv_init: "daemon_inv daemon_init"
  by (simp add: daemon_inv_def daemon_init_def)

lemma worker_all: "(\<forall>w. P w) \<longleftrightarrow> P ServerWorker \<and> P AdminWorker \<and> P TtlWorker"
  by (metis worker.exhaust)

lemma daemon_inv_step:
  assumes "daemon_step a s s'" and "daemon_inv s"
  shows "daemon_inv s'"
  using assms by (cases rule: daemon_step.cases) (auto simp: daemon_inv_def all_down_def worker_all split: phase.splits)

lemma daemon_inv_reachable: "daemon_reach s \<Longrightarrow> daemon_inv s"
  unfolding daemon_reach_def by (induction rule: rtranclp_induct) (auto intro: daemon_inv_init daemon_inv_step)

interpretation gateway: fair_system daemon_step "- {Environment}" daemon_inv
  by unfold_locales (rule daemon_inv_step)

section \<open>The shutdown ends\<close>

text \<open>What the server still has to do: to be told, to wait, and to end.\<close>

definition server_left :: "daemon \<Rightarrow> nat" where
  "server_left s = (if dm_server s = Down then 0 else case dm_grace s of None \<Rightarrow> 32 | Some n \<Rightarrow> Suc n)"

text \<open>What the main task has left when the other workers have ended.\<close>

fun main_left :: "phase \<Rightarrow> task_state \<Rightarrow> nat" where
  "main_left Serving t = 7"
| "main_left (Awaiting ws) t = 3 + length ws"
| "main_left AwaitingMain t = (if t = Up then 2 else 1)"
| "main_left Finished t = 0"

text \<open>The shutdown is not taken back, and a worker that has ended stays so.\<close>

lemma stop_stable: "daemon_step a s s' \<Longrightarrow> dm_stop s \<Longrightarrow> dm_stop s'"
  by (elim daemon_stepE) auto

lemma down_stable: "daemon_step a s s' \<Longrightarrow> worker_state w s = Down \<Longrightarrow> worker_state w s' = Down"
  by (elim daemon_stepE; cases w) auto

lemma server_left_mono:
  assumes "daemon_step a s s'" and "daemon_inv s" and "dm_stop s"
  shows "server_left s' \<le> server_left s"
  using assms by (elim daemon_stepE) (auto simp: server_left_def)

lemma main_left_mono:
  assumes "daemon_step a s s'" and "daemon_inv s" and "dm_stop s"
  shows "main_left (dm_phase s') (dm_main s') \<le> main_left (dm_phase s) (dm_main s)"
  using assms by (elim daemon_stepE) (auto simp: daemon_inv_def)

text \<open>The action that brings the server on is possible and does so; at the end of the grace period it is its exit.\<close>

definition server_action :: "nat \<Rightarrow> action" where
  "server_action k = (if k = 32 then ServerTold else if k = 1 then ServerExit else Second)"

lemma server_can_go_on:
  assumes "daemon_inv s" and "dm_stop s" and "server_left s = k" and "0 < k"
  shows "\<exists>s'. daemon_step (server_action k) s s'"
proof -
  have up: "dm_server s = Up" using assms(3,4) by (cases "dm_server s") (auto simp: server_left_def)
  show ?thesis
  proof (cases "dm_grace s")
    case None
    with up assms(2,3) show ?thesis by (auto simp: server_left_def server_action_def daemon_step_simps)
  next
    case (Some n)
    with up assms(1,3) show ?thesis
      by (cases n) (auto simp: server_left_def server_action_def daemon_step_simps daemon_inv_def)
  qed
qed

lemma server_goes_on:
  assumes "daemon_step (server_action k) s s'" and "server_left s = k"
  shows "server_left s' < k"
  using assms by (auto simp: server_left_def server_action_def daemon_step_simps split: if_splits)

definition main_action :: "nat \<Rightarrow> action" where
  "main_action k = (if k = 1 then JoinedMain else if k = 2 then MainExit else if k = 3 then StopMain else Joined)"

lemma main_can_go_on:
  assumes "daemon_inv s" and "dm_stop s" and "all_down s" and "main_left (dm_phase s) (dm_main s) = k" and "0 < k"
  shows "\<exists>s'. daemon_step (main_action k) s s'"
proof (cases "dm_phase s")
  case (Awaiting ws)
  show ?thesis
  proof (cases ws)
    case Nil
    with Awaiting assms(1,4) show ?thesis
      by (cases "dm_main s") (auto simp: main_action_def daemon_step_simps daemon_inv_def)
  next
    case (Cons w ws')
    moreover have "worker_state w s = Down" using assms(3) by (cases w) (simp_all add: all_down_def)
    ultimately show ?thesis using Awaiting assms(4) by (auto simp: main_action_def daemon_step_simps)
  qed
next
  case AwaitingMain
  with assms(1,4) show ?thesis by (cases "dm_main s") (auto simp: main_action_def daemon_step_simps daemon_inv_def)
qed (use assms in \<open>auto simp: daemon_inv_def\<close>)

lemma main_goes_on:
  assumes "daemon_step (main_action k) s s'" and "main_left (dm_phase s) (dm_main s) = k"
  shows "main_left (dm_phase s') (dm_main s') < k"
  using assms by (cases "dm_phase s") (auto simp: main_action_def daemon_step_simps split: if_splits)

lemma shutdown_begins:
  assumes "gateway_run f" and "daemon_inv (f 0)"
  shows "leads_to f dm_signal dm_stop"
proof (rule leads_to_unless, rule gateway.fair_leads_to [OF assms, of Shutdown])
  fix s s' k
  assume i: "daemon_inv s" "dm_signal s \<and> \<not> dm_stop s"
  then show "\<exists>s'. daemon_step Shutdown s s'" by (auto simp: daemon_step_simps daemon_inv_def)
  show "daemon_step Shutdown s s' \<Longrightarrow> dm_stop s'" by (auto simp: daemon_step_simps)
  show "daemon_step k s s' \<Longrightarrow> (dm_signal s' \<and> \<not> dm_stop s') \<or> dm_stop s'" using i(2) by (elim daemon_stepE) auto
qed simp

lemma server_ends:
  assumes "gateway_run f" and "daemon_inv (f 0)"
  shows "leads_to f dm_stop (\<lambda>s. dm_stop s \<and> server_left s = 0)"
proof (rule leads_to_zero, rule gateway.fair_leads_to [OF assms])
  fix n :: nat and k s s'
  assume n: "0 < n"
  show "server_action n \<in> - {Environment}" by (simp add: server_action_def)
  assume i: "daemon_inv s" and p: "dm_stop s \<and> server_left s = n"
  show "\<exists>s'. daemon_step (server_action n) s s'" using server_can_go_on [OF i] p n by blast
  show "daemon_step (server_action n) s s' \<Longrightarrow> dm_stop s' \<and> server_left s' < n"
    using server_goes_on stop_stable p by blast
  show "daemon_step k s s' \<Longrightarrow> dm_stop s' \<and> server_left s' = n \<or> dm_stop s' \<and> server_left s' < n"
    using server_left_mono [OF _ i] stop_stable p by (metis le_neq_implies_less)
qed

text \<open>The admin server and the interval task end next; \<open>exit\<close> is the action with which a worker ends.\<close>

lemma worker_ends:
  assumes "gateway_run f" and "daemon_inv (f 0)" and "(w, exit) \<in> {(AdminWorker, AdminExit), (TtlWorker, TtlExit)}"
    and "\<And>a s s'. daemon_step a s s' \<Longrightarrow> P s \<Longrightarrow> P s'"
  shows "leads_to f (\<lambda>s. dm_stop s \<and> P s) (\<lambda>s. dm_stop s \<and> P s \<and> worker_state w s = Down)"
proof (rule leads_to_unless, rule gateway.fair_leads_to [OF assms(1,2), of exit])
  fix s s' k
  show "exit \<in> - {Environment}" using assms(3) by auto
  assume p: "(dm_stop s \<and> P s) \<and> \<not> (dm_stop s \<and> P s \<and> worker_state w s = Down)"
  then have "worker_state w s = Up" by (cases "worker_state w s") auto
  with p show "\<exists>s'. daemon_step exit s s'" using assms(3) by (auto simp: daemon_step_simps)
  have keep: "dm_stop s' \<and> P s'" if "daemon_step a s s'" for a using p that stop_stable assms(4) by blast
  then show "daemon_step k s s' \<Longrightarrow> (dm_stop s' \<and> P s') \<and> \<not> (dm_stop s' \<and> P s' \<and> worker_state w s' = Down) \<or>
      dm_stop s' \<and> P s' \<and> worker_state w s' = Down" by blast
  assume e: "daemon_step exit s s'"
  then have "worker_state w s' = Down" using assms(3) by (auto simp: daemon_step_simps)
  with keep [OF e] show "dm_stop s' \<and> P s' \<and> worker_state w s' = Down" by blast
qed

lemma main_task_ends:
  assumes "gateway_run f" and "daemon_inv (f 0)"
  shows "leads_to f (\<lambda>s. dm_stop s \<and> all_down s)
    (\<lambda>s. (dm_stop s \<and> all_down s) \<and> main_left (dm_phase s) (dm_main s) = 0)"
proof (rule leads_to_zero, rule gateway.fair_leads_to [OF assms])
  fix n :: nat and k s s'
  assume n: "0 < n"
  show "main_action n \<in> - {Environment}" by (simp add: main_action_def)
  assume i: "daemon_inv s" and p: "(dm_stop s \<and> all_down s) \<and> main_left (dm_phase s) (dm_main s) = n"
  show "\<exists>s'. daemon_step (main_action n) s s'" using main_can_go_on [OF i] p n by blast
  have keep: "dm_stop s' \<and> all_down s'" if "daemon_step a s s'" for a
    using p that stop_stable down_stable [OF that, of ServerWorker] down_stable [OF that, of AdminWorker] down_stable [OF that, of TtlWorker]
    by (simp add: all_down_def)
  then show "daemon_step (main_action n) s s' \<Longrightarrow> (dm_stop s' \<and> all_down s') \<and> main_left (dm_phase s') (dm_main s') < n"
    using main_goes_on p by blast
  show "daemon_step k s s' \<Longrightarrow> (dm_stop s' \<and> all_down s') \<and> main_left (dm_phase s') (dm_main s') = n \<or>
      (dm_stop s' \<and> all_down s') \<and> main_left (dm_phase s') (dm_main s') < n"
    using main_left_mono [OF _ i] keep p by (metis le_neq_implies_less)
qed

lemma main_left_zero: "main_left ph t = 0 \<longleftrightarrow> ph = Finished"
  by (cases ph) auto

lemma shutdown_finishes:
  assumes "gateway_run f" and "daemon_inv (f 0)"
  shows "leads_to f dm_signal (\<lambda>s. dm_phase s = Finished)"
proof -
  have "leads_to f (\<lambda>s. dm_stop s \<and> server_left s = 0) (\<lambda>s. dm_stop s \<and> server_left s = 0 \<and> worker_state AdminWorker s = Down)"
    by (rule worker_ends [OF assms, of _ AdminExit])
      (use down_stable [of _ _ _ ServerWorker] in \<open>auto simp: server_left_def split: if_splits option.splits\<close>)
  moreover have "leads_to f (\<lambda>s. dm_stop s \<and> server_left s = 0 \<and> worker_state AdminWorker s = Down)
      (\<lambda>s. dm_stop s \<and> (server_left s = 0 \<and> worker_state AdminWorker s = Down) \<and> worker_state TtlWorker s = Down)"
    by (rule worker_ends [OF assms, of _ TtlExit])
      (use down_stable [of _ _ _ ServerWorker] down_stable [of _ _ _ AdminWorker] in \<open>auto simp: server_left_def split: if_splits option.splits\<close>)
  moreover have "leads_to f (\<lambda>s. dm_stop s \<and> (server_left s = 0 \<and> worker_state AdminWorker s = Down) \<and> worker_state TtlWorker s = Down)
      (\<lambda>s. dm_stop s \<and> all_down s)"
    by (auto simp: leads_to_def server_left_def all_down_def split: if_splits option.splits)
  moreover have "leads_to f (\<lambda>s. dm_stop s \<and> all_down s) (\<lambda>s. dm_phase s = Finished)"
    using main_task_ends [OF assms] by (auto simp: leads_to_def main_left_zero)
  ultimately show ?thesis
    using shutdown_begins [OF assms] server_ends [OF assms] by (blast intro: leads_to_trans)
qed

text \<open>
  C14. Once a signal to stop is pending, every run of the gateway shuts down completely, whatever the order
  of its steps, as long as it does not neglect its own actions for ever. Nothing is asked of the environment: clients may connect
  at any time and keep their connections open, requests may hang, the interval may go on
  ending. The server ends when its connections have closed or thirty seconds are over, the other workers end, the main
  worker is told last and the process is done. Until then the main worker serves: it is up as
  long as a connection is open or one of the other workers runs.\<close>

theorem gateway_shutdown_completes:
  assumes "daemon_reach (f 0)" and "dm_signal (f 0)" and "fair_run daemon_step (- {Environment}) f"
  shows "(\<exists>i. dm_phase (f i) = Finished \<and> all_down (f i) \<and> dm_main (f i) = Down) \<and>
    (\<forall>i. 0 < dm_conns (f i) \<or> \<not> all_down (f i) \<longrightarrow> dm_main (f i) = Up)"
proof -
  note start = daemon_inv_reachable [OF assms(1)]
  note inv = gateway.inv_run [OF assms(3) start]
  obtain i where "dm_phase (f i) = Finished"
    using leads_toD [OF shutdown_finishes [OF assms(3) start] assms(2)] by blast
  moreover from this have "all_down (f i)" "dm_main (f i) = Down" using inv [of i] by (auto simp: daemon_inv_def)
  moreover have "dm_main (f j) = Up" if "0 < dm_conns (f j) \<or> \<not> all_down (f j)" for j
    using inv [of j] that by (cases "dm_main (f j)") (auto simp: daemon_inv_def all_down_def split: phase.splits)
  ultimately show ?thesis by blast
qed

text \<open>The first start: the file that was written is the default configuration.\<close>

lemma init_then_load:
  assumes "\<not> fs_exists path fs" and "init_config lib path fs = (Ok (), fs')"
    and "fs_fault fs OpOpen path = None" and "fs_fault fs OpRead path = None"
    and "\<And>c t. gt_print lib c = Ok t \<Longrightarrow> utf8_valid t \<and> gt_parse lib t = Ok c"
  shows "load_config lib path fs' = Ok (default_gateway_config (gt_home lib))"
  using assms
  by (auto simp: init_config_def load_config_def bind_fs_Ok_iff fs_create_def fs_write_all_def fs_set_contents_def
      fs_read_string_def fs_read_def fs_check_def split: option.splits)

text \<open>
  A client that never closes its connection: the server is told, thirty seconds pass, the server ends with the
  connection, and the other tasks follow.
\<close>

definition demo_run :: "nat \<Rightarrow> daemon" where
  "demo_run i =
     \<lparr>dm_phase = (if i \<le> 34 then Awaiting [ServerWorker, AdminWorker, TtlWorker] else if i = 35 then Awaiting [AdminWorker, TtlWorker]
        else if i = 36 then Awaiting [TtlWorker] else if i = 37 then Awaiting [] else if i \<le> 39 then AwaitingMain else Finished),
      dm_signal = True, dm_stop = True, dm_server = (if i \<le> 31 then Up else Down),
      dm_grace = (if i = 0 then None else Some (31 - i)),
      dm_arrivals = 0, dm_conns = (if i \<le> 31 then 1 else 0), dm_admin = (if i \<le> 32 then Up else Down),
      dm_ttl = (if i \<le> 33 then Up else Down),
      dm_tick = False, dm_main = (if i \<le> 38 then Up else Down), dm_main_stop = (38 \<le> i), dm_work = 2, dm_queue = 0\<rparr>"

lemma demo_run_start: "daemon_reach (demo_run 0)"
proof -
  let ?a = "daemon_init\<lparr>dm_arrivals := Suc 0\<rparr>" and ?b = "daemon_init\<lparr>dm_conns := 1, dm_work := 2\<rparr>"
  have "daemon_step Environment daemon_init ?a" using arrive [of daemon_init] by (simp add: daemon_init_def)
  moreover have "daemon_step Environment ?a ?b" using accept [of ?a 0] by (simp add: daemon_init_def numeral_2_eq_2)
  moreover have "daemon_step Environment ?b (?b\<lparr>dm_signal := True\<rparr>)" by (rule os_signal)
  moreover have "daemon_step Shutdown (?b\<lparr>dm_signal := True\<rparr>) (demo_run 0)"
    using shutdown [of "?b\<lparr>dm_signal := True\<rparr>"] by (simp add: daemon_init_def demo_run_def)
  ultimately show ?thesis using daemon_reach_init daemon_reach_step by blast
qed

lemma demo_run_steps: "i < 40 \<Longrightarrow> \<exists>a. daemon_step a (demo_run i) (demo_run (Suc i))"
proof -
  assume "i < 40"
  then have "i = 0 \<or> 1 \<le> i \<and> i \<le> 30 \<or> i = 31 \<or> i = 32 \<or> i = 33 \<or> i = 34 \<or> i = 35 \<or> i = 36 \<or> i = 37 \<or> i = 38 \<or> i = 39"
    by arith
  then consider "i = 0" | "1 \<le> i" "i \<le> 30" | "i = 31" | "i = 32" | "i = 33" | "i = 34" | "i = 35" | "i = 36" | "i = 37" | "i = 38" | "i = 39"
    by blast
  then show ?thesis
  proof cases
    case 1 then show ?thesis using server_told [of "demo_run 0"] by (auto simp: demo_run_def)
  next
    case 2
    then have "31 - i = Suc (31 - Suc i)" by simp
    with 2 show ?thesis using second [of "demo_run i" "31 - Suc i"] by (intro exI [of _ Second]) (simp add: demo_run_def)
  next
    case 3 then show ?thesis using server_exit [of "demo_run 31" 0] by (auto simp: demo_run_def)
  next
    case 4 then show ?thesis using admin_exit [of "demo_run 32"] by (auto simp: demo_run_def)
  next
    case 5 then show ?thesis using ttl_exit [of "demo_run 33"] by (auto simp: demo_run_def)
  next
    case 6 then show ?thesis using joined [of "demo_run 34" ServerWorker "[AdminWorker, TtlWorker]"] by (auto simp: demo_run_def)
  next
    case 7 then show ?thesis using joined [of "demo_run 35" AdminWorker "[TtlWorker]"] by (auto simp: demo_run_def)
  next
    case 8 then show ?thesis using joined [of "demo_run 36" TtlWorker "[]"] by (auto simp: demo_run_def)
  next
    case 9 then show ?thesis using stop_main [of "demo_run 37"] by (auto simp: demo_run_def)
  next
    case 10 then show ?thesis using main_exit [of "demo_run 38"] by (auto simp: demo_run_def)
  next
    case 11 then show ?thesis using joined_main [of "demo_run 39"] by (auto simp: demo_run_def)
  qed
qed

lemma demo_run_fair: "fair_run daemon_step (- {Environment}) demo_run"
proof -
  have "\<not> daemon_step a (demo_run j) s'" if "40 \<le> j" "a \<noteq> Environment" for a j s'
    using that by (cases a) (auto simp: demo_run_def daemon_step_simps)
  then have "\<not> (\<forall>j \<ge> i. \<exists>s'. daemon_step a (demo_run j) s')" if "a \<noteq> Environment" for a i
    using that by (meson max.cobounded1 max.cobounded2)
  moreover have "demo_run (Suc i) = demo_run i" if "40 \<le> i" for i using that by (simp add: demo_run_def)
  ultimately show ?thesis using demo_run_steps unfolding fair_run_def by (metis ComplD not_le singletonI)
qed

theorem gateway_shutdown_completes_witness:
  "(\<exists>i. dm_phase (demo_run i) = Finished) \<and> 0 < dm_conns (demo_run 31) \<and> dm_main (demo_run 31) = Up"
proof -
  have "dm_signal (demo_run 0)" "0 < dm_conns (demo_run 31)" by (simp_all add: demo_run_def)
  with gateway_shutdown_completes [OF demo_run_start _ demo_run_fair] show ?thesis by blast
qed

end
