(* ===== verification/Gateway_Process.thy ===== *)
theory Gateway_Process
  imports Telemetry Gateway Gateway_Daemon
begin

text \<open>
  The gateway as a process, from the command line to its first request: the beginning of \<open>main\<close>
  in \<open>ursa-gateway/src/main.rs\<close>, and the routes and layers that \<open>server/mod.rs\<close> and \<open>admin/mod.rs\<close> put
  around the handlers.
\<close>

section \<open>Main\<close>

text \<open>\<open>level_of\<close> is how the tracing library reads the text of a level.\<close>

definition gateway_telemetry :: "level \<Rightarrow> telemetry_config" where
  "gateway_telemetry l = with_jaeger_tracer (with_pretty_log (with_log_level (level_str l) (telemetry_new ''ursa-gateway'')))"

definition gateway_main ::
  "'f tele_ops \<Rightarrow> (string \<Rightarrow> level option) \<Rightarrow> gateway_toml \<Rightarrow> level option \<Rightarrow> path \<Rightarrow> daemon_cmd_opts \<Rightarrow> fsys \<Rightarrow>
   (gateway, string) result \<times> 'f subscriber option \<times> fsys" where
  "gateway_main tops level_of lib log path opts fs =
     (case init_config lib path fs of
        (Ok _, fs1) \<Rightarrow>
          (case load_config lib path fs1 of
             Ok file \<Rightarrow>
               (let config = merge_log_level log file
                in case level_of (gc_log_level config) of
                     None \<Rightarrow> (Err ''invalid level'', None, fs1)
                   | Some l \<Rightarrow>
                       (case telemetry_init tops (gateway_telemetry (unwrap_or l log)) None of
                          (Ok _, g) \<Rightarrow> (Ok (daemon_start (merge_daemon_opts opts config)), g, fs1)
                        | (Err e, g) \<Rightarrow> (Err e, g, fs1)
                        | (Panic, g) \<Rightarrow> (Panic, g, fs1)))
           | Err e \<Rightarrow> (Err e, None, fs1)
           | Panic \<Rightarrow> (Panic, None, fs1))
      | (Err e, fs1) \<Rightarrow> (Err e, None, fs1)
      | (Panic, fs1) \<Rightarrow> (Panic, None, fs1))"

lemma gateway_telemetry_init:
  assumes "to_jaeger tops ''ursa-gateway'' = Ok u"
  shows "telemetry_init tops (gateway_telemetry l) None =
    (Ok (), Some \<lparr>sb_filter = env_filter tops (gateway_telemetry l),
      sb_layers = [PrettyLayer, JaegerLayer ''ursa-gateway'', ErrorLayer]\<rparr>)"
  using assms by (simp add: telemetry_init_def gateway_telemetry_def telemetry_builders tracing_layers_def)

text \<open>
  The first start of a gateway, with no file at the path of its configuration: it writes one, and it
  comes up with the default values changed by exactly the options of the command line. The level that is logged is
  the one of \<open>RUST_LOG\<close> if that can be read, else the one of the command line, else \<open>INFO\<close>.\<close>

theorem gateway_first_start:
  assumes "\<not> fs_exists path fs" and "init_config lib path fs = (Ok (), fs')"
    and "fs_fault fs OpOpen path = None" and "fs_fault fs OpRead path = None"
    and "\<And>c t. gt_print lib c = Ok t \<Longrightarrow> utf8_valid t \<and> gt_parse lib t = Ok c"
    and "\<And>l. level_of (level_str l) = Some l" and "to_jaeger tops ''ursa-gateway'' = Ok u"
  shows "\<exists>s. gateway_main tops level_of lib log path opts fs =
      (Ok (daemon_start (merge_daemon_opts opts (merge_log_level log (default_gateway_config (gt_home lib))))), Some s, fs') \<and>
    sb_filter s = (case Option.bind (to_env tops) (to_parse tops) of
       Some f \<Rightarrow> f | None \<Rightarrow> to_filter tops (level_str (unwrap_or Info log)))"
proof -
  let ?c = "default_gateway_config (gt_home lib)"
  have load: "load_config lib path fs' = Ok ?c" by (rule init_then_load [OF assms(1-5)])
  have level: "level_of (gc_log_level (merge_log_level log ?c)) = Some (unwrap_or Info log)"
    using assms(6) by (cases log) (simp_all add: merge_log_level_def default_gateway_config_def flip: level_str.simps)
  have same: "unwrap_or (unwrap_or Info log) log = unwrap_or Info log" by (cases log) simp_all
  show ?thesis
    by (simp add: gateway_main_def assms(2) load level same gateway_telemetry_init [OF assms(7)])
      (simp add: env_filter_def gateway_telemetry_def telemetry_builders split: option.splits)
qed

text \<open>
  A configuration file with a level that cannot be read keeps the gateway from starting, and the
  option of the command line mends it.\<close>

theorem gateway_level_error:
  assumes "fs_exists path fs" and "load_config lib path fs = Ok file" and "level_of (gc_log_level file) = None"
    and "\<And>l. level_of (level_str l) = Some l" and "to_jaeger tops ''ursa-gateway'' = Ok u"
  shows "is_ok (fst (gateway_main tops level_of lib log path opts fs)) \<longleftrightarrow> log \<noteq> None"
  using assms by (cases log) (simp_all add: gateway_main_def init_config_def merge_log_level_def gateway_telemetry_init)

section \<open>Routes of the server\<close>

datatype server_route = CarRoute string | MetricsRoute | PingRoute | MethodNotAllowed | NoRouteFound

text \<open>
  A handler for \<open>GET\<close> answers \<open>HEAD\<close> too. \<open>trim\<close> is the library function that trims slashes; a fixed
  path goes before a path with a parameter.
\<close>

definition for_get :: "string \<Rightarrow> server_route \<Rightarrow> server_route" where
  "for_get verb r = (if verb \<in> {''GET'', ''HEAD''} then r else MethodNotAllowed)"

definition server_route_of :: "(string \<Rightarrow> string) \<Rightarrow> string \<Rightarrow> string \<Rightarrow> server_route" where
  "server_route_of trim verb path =
     (let p = trim path
      in if p = ''/metrics'' then for_get verb MetricsRoute
         else if p = ''/ping'' then for_get verb PingRoute
         else if p \<noteq> [] \<and> hd p = CHR ''/'' \<and> tl p \<noteq> [] \<and> CHR ''/'' \<notin> set (tl p) then for_get verb (CarRoute (tl p))
         else NoRouteFound)"

text \<open>
  The layers around the content handler: a panic becomes the answer of \<open>recover\<close>, and a handler that takes
  longer than the configured time is dropped.
\<close>

definition server_layers :: "gateway_config \<Rightarrow> nat \<Rightarrow> panic_payload + car_response \<Rightarrow> car_response" where
  "server_layers config elapsed outcome =
     (if sc_request_timeout (gc_server config) < elapsed
      then \<lparr>cr_status = 408, cr_headers = [], cr_stream = None, cr_message = None\<rparr>
      else case outcome of
        Inr r \<Rightarrow> r
      | Inl e \<Rightarrow> (case recover e of (logged, status, text) \<Rightarrow> error_handler status text))"

text \<open>What a handler panics with is not told to the client.\<close>

lemma server_layers_hide_panics:
  "server_layers config elapsed (Inl e) = server_layers config elapsed (Inl e')"
  "cr_status (server_layers config elapsed (Inl e)) \<in> {408, 500}"
  by (simp_all add: server_layers_def recover_def error_handler_def)

section \<open>The admin server\<close>

datatype admin_route = ConfigRoute | PurgeRoute | AdminMethodNotAllowed | AdminNotFound

definition admin_route_of :: "string \<Rightarrow> string \<Rightarrow> admin_route" where
  "admin_route_of verb path =
     (if path = ''/config'' then (if verb \<in> {''GET'', ''HEAD''} then ConfigRoute else AdminMethodNotAllowed)
      else if path = ''/purge-cache'' then (if verb = ''POST'' then PurgeRoute else AdminMethodNotAllowed)
      else AdminNotFound)"

definition get_config_handler :: "(gateway_config \<Rightarrow> string) \<Rightarrow> gateway \<Rightarrow> string" where
  "get_config_handler to_json g = to_json (g_config g)"

definition admin_serve ::
  "(gateway_config \<Rightarrow> string) \<Rightarrow> string \<Rightarrow> string \<Rightarrow> gateway \<Rightarrow> (nat \<times> string) \<times> gateway" where
  "admin_serve to_json verb path g =
     (case admin_route_of verb path of
        ConfigRoute \<Rightarrow> ((200, get_config_handler to_json g), g)
      | PurgeRoute \<Rightarrow> (case purge_cache_handler g of (status, g1) \<Rightarrow> ((status, []), g1))
      | AdminMethodNotAllowed \<Rightarrow> ((405, []), g)
      | AdminNotFound \<Rightarrow> ((404, []), g))"

text \<open>
  A purge takes effect at once: the request that follows it, for whatever content, waits for a fetch,
  even if the content was cached and commands of earlier requests are still queued.\<close>

theorem purged_content_is_fetched:
  assumes "admin_serve to_json ''POST'' ''/purge-cache'' g = (reply, g1)" and "g_open g" and "is_cid c"
  shows "fst reply = 200 \<and>
    (\<exists>g2. get_car_handler is_cid c no_cache g1 = g2 \<and> g_replies g2 = g_replies g \<and>
       g_waiting g2 = (g_next g, c, no_cache) # g_waiting g \<and> g_queue g2 = g_queue g @ [Fetch c (g_next g)])"
proof -
  have g1: "g1 = g\<lparr>g_cache := admin_purge (g_cache g)\<rparr>" "fst reply = 200"
    using assms(1) by (auto simp: admin_serve_def admin_route_of_def purge_cache_handler_def status_ok_def)
  have "get_announce c no_cache g1 = (Await (g_next g), g1\<lparr>g_next := Suc (g_next g), g_queue := g_queue g @ [Fetch c (g_next g)]\<rparr>)"
    using assms(2) by (simp add: get_announce_def g1 admin_purge_def tl_purge_def tl_dirty_get_def fetch_start_def send_cmd_def Let_def)
  with assms(3) g1 show ?thesis by (simp add: get_car_handler_def)
qed

end
