(* ===== verification/Store.thy ===== *)
theory Store
  imports Prelude
begin

text \<open>
  The block store of a node, \<open>ursa-store/src/store.rs\<close>: traversal of a content-addressed
  graph, the size of its CAR file, typed access, and the adapters that bitswap and
  graphsync use. The database, the hash functions and the codecs are third-party code and
  appear as the fields of the records \<open>db_ops\<close> and \<open>ipld_ops\<close>. A content id is its binary
  form. A loop whose end depends on the stored data is a partial function into \<open>option\<close>;
  that it ends is proved where the store is finite or the graph has no cycle.
\<close>

section \<open>Parameters\<close>

type_synonym cid = bytes

record ('d, 'e) db_ops =
  db_get :: "'d \<Rightarrow> cid \<Rightarrow> (bytes option, 'e) result"
  db_has :: "'d \<Rightarrow> cid \<Rightarrow> (bool, 'e) result"
  db_put_keyed :: "'d \<Rightarrow> cid \<Rightarrow> bytes \<Rightarrow> (unit, 'e) result \<times> 'd"
  db_put_many_keyed :: "'d \<Rightarrow> (cid \<times> bytes) list \<Rightarrow> (unit, 'e) result \<times> 'd"
  db_delete :: "'d \<Rightarrow> bytes \<Rightarrow> (unit, 'e) result \<times> 'd"

text \<open>
  \<open>block_new\<close> checks the hash of the data against the content id, \<open>references\<close> lists the
  links of a block, \<open>pick\<close> is the position of the element that the iteration of a hash set
  yields first.
\<close>

record 'e ipld_ops =
  block_new :: "cid \<Rightarrow> bytes \<Rightarrow> (unit, 'e) result"
  references :: "cid \<Rightarrow> bytes \<Rightarrow> (cid list, 'e) result"
  pick :: "cid list \<Rightarrow> nat"
  car_header :: "cid list \<Rightarrow> nat \<Rightarrow> (bytes, 'e) result"
  encode_var :: "nat \<Rightarrow> bytes"

datatype 'e store_error = StoreError 'e | BlockMissing cid cid

section \<open>Traversal of a graph\<close>

definition picked :: "'e ipld_ops \<Rightarrow> cid list \<Rightarrow> cid" where
  "picked ip cs = cs ! (pick ip cs mod length cs)"

text \<open>A hash set as a list without repetition.\<close>

definition set_add :: "'a list \<Rightarrow> 'a list \<Rightarrow> 'a list" where
  "set_add new cs = cs @ filter (\<lambda>c. c \<notin> set cs) (remdups new)"

partial_function (option) dag_loop ::
  "('d, 'e) db_ops \<Rightarrow> 'e ipld_ops \<Rightarrow> 'd \<Rightarrow> cid \<Rightarrow> cid list \<Rightarrow> cid list \<Rightarrow> (cid \<times> bytes) list \<Rightarrow>
     ((cid \<times> bytes) list, 'e store_error) result option" where
  "dag_loop db ip d root current refs res =
     (if current = [] then Some (Ok res)
      else (let c = picked ip current; current1 = removeAll c current
            in if c \<in> set refs then dag_loop db ip d root current1 refs res
               else (case db_get db d c of
                       Err e \<Rightarrow> Some (Err (StoreError e))
                     | Panic \<Rightarrow> Some Panic
                     | Ok None \<Rightarrow> Some (Err (BlockMissing c root))
                     | Ok (Some data) \<Rightarrow>
                         (case block_new ip c data of
                            Err e \<Rightarrow> Some (Err (StoreError e))
                          | Panic \<Rightarrow> Some Panic
                          | Ok _ \<Rightarrow>
                              (case references ip c data of
                                 Err e \<Rightarrow> Some (Err (StoreError e))
                               | Panic \<Rightarrow> Some Panic
                               | Ok rs \<Rightarrow>
                                   dag_loop db ip d root (set_add rs current1) (c # refs) (res @ [(c, data)]))))))"

definition dag_traversal ::
  "('d, 'e) db_ops \<Rightarrow> 'e ipld_ops \<Rightarrow> 'd \<Rightarrow> cid \<Rightarrow> ((cid \<times> bytes) list, 'e store_error) result option" where
  "dag_traversal db ip d root = dag_loop db ip d root [root] [] []"

section \<open>Size of a CAR file\<close>

definition car_add :: "'e ipld_ops \<Rightarrow> nat \<Rightarrow> cid \<times> bytes \<Rightarrow> nat" where
  "car_add ip len b =
     (let block_len = u64_add (length (snd b)) (length (fst b))
      in u64_add (u64_add len (length (encode_var ip block_len))) block_len)"

definition car_size ::
  "('d, 'e) db_ops \<Rightarrow> 'e ipld_ops \<Rightarrow> 'd \<Rightarrow> cid \<Rightarrow> (nat, 'e store_error) result option" where
  "car_size db ip d root =
     map_option (\<lambda>r. bind_res r (\<lambda>dag.
       bind_res (map_err StoreError (car_header ip [root] 1)) (\<lambda>header.
         Ok (foldl (car_add ip) (length header) dag)))) (dag_traversal db ip d root)"

section \<open>Typed access\<close>

definition get_obj ::
  "('d, 'e) db_ops \<Rightarrow> (bytes \<Rightarrow> ('a, 'e) result) \<Rightarrow> 'd \<Rightarrow> cid \<Rightarrow> ('a option, 'e) result" where
  "get_obj db from_slice d c =
     bind_res (db_get db d c) (\<lambda>m. case m of
       Some bz \<Rightarrow> bind_res (from_slice bz) (\<lambda>x. Ok (Some x))
     | None \<Rightarrow> Ok None)"

text \<open>\<open>cid_v1 digest bytes\<close> stands for \<open>Cid::new_v1(DAG_CBOR, code.digest(&bytes))\<close>.\<close>

definition put_raw ::
  "('d, 'e) db_ops \<Rightarrow> (bytes \<Rightarrow> cid) \<Rightarrow> 'd \<Rightarrow> bytes \<Rightarrow> (cid, 'e) result \<times> 'd" where
  "put_raw db cid_v1 d bs =
     (let c = cid_v1 bs; (r, d1) = db_put_keyed db d c bs
      in (bind_res r (\<lambda>_. Ok c), d1))"

definition put_obj ::
  "('d, 'e) db_ops \<Rightarrow> (bytes \<Rightarrow> cid) \<Rightarrow> ('a \<Rightarrow> (bytes, 'e) result) \<Rightarrow> 'd \<Rightarrow> 'a \<Rightarrow> (cid, 'e) result \<times> 'd" where
  "put_obj db cid_v1 to_vec d obj =
     (case to_vec obj of
        Ok bs \<Rightarrow> put_raw db cid_v1 d bs
      | Err e \<Rightarrow> (Err e, d)
      | Panic \<Rightarrow> (Panic, d))"

fun collect_keyed :: "(bytes \<Rightarrow> cid) \<Rightarrow> ('a \<Rightarrow> (bytes, 'e) result) \<Rightarrow> 'a list \<Rightarrow> ((cid \<times> bytes) list, 'e) result" where
  "collect_keyed cid_v1 to_vec [] = Ok []"
| "collect_keyed cid_v1 to_vec (x # xs) =
     bind_res (to_vec x) (\<lambda>bs. bind_res (collect_keyed cid_v1 to_vec xs) (\<lambda>ks. Ok ((cid_v1 bs, bs) # ks)))"

definition bulk_put ::
  "('d, 'e) db_ops \<Rightarrow> (bytes \<Rightarrow> cid) \<Rightarrow> ('a \<Rightarrow> (bytes, 'e) result) \<Rightarrow> 'd \<Rightarrow> 'a list \<Rightarrow> (cid list, 'e) result \<times> 'd" where
  "bulk_put db cid_v1 to_vec d values =
     (case collect_keyed cid_v1 to_vec values of
        Ok ks \<Rightarrow> (let (r, d1) = db_put_many_keyed db d ks in (bind_res r (\<lambda>_. Ok (map fst ks)), d1))
      | Err e \<Rightarrow> (Err e, d)
      | Panic \<Rightarrow> (Panic, d))"

section \<open>Bitswap and graphsync adapters\<close>

definition bitswap_contains :: "('d, 'e) db_ops \<Rightarrow> 'd \<Rightarrow> cid \<Rightarrow> (bool, 'e) result" where
  "bitswap_contains db d c = db_has db d c"

definition bitswap_get :: "('d, 'e) db_ops \<Rightarrow> 'd \<Rightarrow> cid \<Rightarrow> (bytes option, 'e) result" where
  "bitswap_get db d c = unwrap (db_get db d c)"

definition bitswap_insert :: "('d, 'e) db_ops \<Rightarrow> 'd \<Rightarrow> cid \<Rightarrow> bytes \<Rightarrow> (unit, 'e) result \<times> 'd" where
  "bitswap_insert db d c data = (let (r, d1) = db_put_keyed db d c data in (unwrap r, d1))"

text \<open>The stack has its top at the head; \<open>references\<close> pushes the links in order.\<close>

partial_function (option) missing_loop ::
  "('d, 'e) db_ops \<Rightarrow> 'e ipld_ops \<Rightarrow> 'd \<Rightarrow> cid list \<Rightarrow> cid list \<Rightarrow> (cid list, 'e) result option" where
  "missing_loop db ip d stack missing =
     (case stack of
        [] \<Rightarrow> Some (Ok missing)
      | c # rest \<Rightarrow>
          (case bitswap_get db d c of
             Panic \<Rightarrow> Some Panic
           | Err e \<Rightarrow> Some (Err e)
           | Ok None \<Rightarrow> missing_loop db ip d rest (missing @ [c])
           | Ok (Some data) \<Rightarrow>
               (case references ip c data of
                  Err e \<Rightarrow> Some (Err e)
                | Panic \<Rightarrow> Some Panic
                | Ok rs \<Rightarrow> missing_loop db ip d (rev rs @ rest) missing)))"

definition missing_blocks :: "('d, 'e) db_ops \<Rightarrow> 'e ipld_ops \<Rightarrow> 'd \<Rightarrow> cid \<Rightarrow> (cid list, 'e) result option" where
  "missing_blocks db ip d c = missing_loop db ip d [c] []"

definition graphsync_get :: "('d, 'e) db_ops \<Rightarrow> 'd \<Rightarrow> cid \<Rightarrow> (bytes option, 'e) result" where
  "graphsync_get db d c = unwrap (db_get db d c)"

definition graphsync_insert :: "('d, 'e) db_ops \<Rightarrow> 'd \<Rightarrow> cid \<Rightarrow> bytes \<Rightarrow> (unit, 'e) result \<times> 'd" where
  "graphsync_insert db d c data = (let (r, d1) = db_put_keyed db d c data in (unwrap r, d1))"

definition gs_get :: "('d, 'e) db_ops \<Rightarrow> 'd \<Rightarrow> cid \<Rightarrow> (bytes option, 'e) result" where
  "gs_get db d c = db_get db d c"

definition gs_put_keyed :: "('d, 'e) db_ops \<Rightarrow> 'd \<Rightarrow> cid \<Rightarrow> bytes \<Rightarrow> (unit, 'e) result \<times> 'd" where
  "gs_put_keyed db d c data = db_put_keyed db d c data"

definition gs_delete_block :: "('d, 'e) db_ops \<Rightarrow> 'd \<Rightarrow> cid \<Rightarrow> (unit, 'e) result \<times> 'd" where
  "gs_delete_block db d c = db_delete db d c"

section \<open>Reachability in the graph\<close>

definition links :: "('d, 'e) db_ops \<Rightarrow> 'e ipld_ops \<Rightarrow> 'd \<Rightarrow> cid \<Rightarrow> cid \<Rightarrow> bool" where
  "links db ip d c c' \<longleftrightarrow>
     (\<exists>data rs. db_get db d c = Ok (Some data) \<and> references ip c data = Ok rs \<and> c' \<in> set rs)"

abbreviation reachable :: "('d, 'e) db_ops \<Rightarrow> 'e ipld_ops \<Rightarrow> 'd \<Rightarrow> cid \<Rightarrow> cid \<Rightarrow> bool" where
  "reachable db ip d \<equiv> (links db ip d)\<^sup>*\<^sup>*"

text \<open>A block that the traversal can take: stored, with the right hash, with readable links.\<close>

definition good_block :: "('d, 'e) db_ops \<Rightarrow> 'e ipld_ops \<Rightarrow> 'd \<Rightarrow> cid \<Rightarrow> bytes \<Rightarrow> bool" where
  "good_block db ip d c data \<longleftrightarrow>
     db_get db d c = Ok (Some data) \<and> is_ok (block_new ip c data) \<and> is_ok (references ip c data)"

definition dag_inv ::
  "('d, 'e) db_ops \<Rightarrow> 'e ipld_ops \<Rightarrow> 'd \<Rightarrow> cid \<Rightarrow> cid list \<Rightarrow> cid list \<Rightarrow> (cid \<times> bytes) list \<Rightarrow> bool" where
  "dag_inv db ip d root current refs res \<longleftrightarrow>
     root \<in> set current \<union> set refs \<and>
     (\<forall>c \<in> set current \<union> set refs. reachable db ip d root c) \<and>
     refs = rev (map fst res) \<and> distinct refs \<and>
     (\<forall>(c, data) \<in> set res. good_block db ip d c data) \<and>
     (\<forall>c \<in> set refs. \<forall>c'. links db ip d c c' \<longrightarrow> c' \<in> set current \<union> set refs)"

lemma set_set_add [simp]: "set (set_add new cs) = set cs \<union> set new"
  by (auto simp: set_add_def)

lemma picked_in: "cs \<noteq> [] \<Longrightarrow> picked ip cs \<in> set cs"
  by (simp add: picked_def)

lemma dag_inv_skip:
  assumes "dag_inv db ip d root current refs res" and "c \<in> set refs"
  shows "dag_inv db ip d root (removeAll c current) refs res"
proof -
  have u: "set (removeAll c current) \<union> set refs = set current \<union> set refs" using assms(2) by auto
  show ?thesis using assms(1) unfolding dag_inv_def u .
qed

lemma dag_inv_visit:
  assumes inv: "dag_inv db ip d root current refs res" and c: "c \<in> set current" "c \<notin> set refs"
    and g: "db_get db d c = Ok (Some data)" "block_new ip c data = Ok u" "references ip c data = Ok rs"
  shows "dag_inv db ip d root (set_add rs (removeAll c current)) (c # refs) (res @ [(c, data)])"
proof -
  have r: "reachable db ip d root c" using inv c(1) by (auto simp: dag_inv_def)
  have l: "links db ip d c c' \<longleftrightarrow> c' \<in> set rs" for c' using g by (simp add: links_def)
  have "reachable db ip d root c'" if "c' \<in> set rs" for c'
    using r that l rtranclp.rtrancl_into_rtrancl by metis
  moreover have "good_block db ip d c data" using g by (simp add: good_block_def)
  moreover have inv': "root \<in> set current \<union> set refs" "\<forall>c \<in> set current \<union> set refs. reachable db ip d root c"
      "refs = rev (map fst res)" "distinct refs" "\<forall>(c, data) \<in> set res. good_block db ip d c data"
      "\<forall>c \<in> set refs. \<forall>c'. links db ip d c c' \<longrightarrow> c' \<in> set current \<union> set refs"
    using inv unfolding dag_inv_def by blast+
  ultimately show ?thesis
    unfolding dag_inv_def
  proof (intro conjI)
    show "\<forall>x \<in> set (c # refs). \<forall>c'. links db ip d x c' \<longrightarrow>
        c' \<in> set (set_add rs (removeAll c current)) \<union> set (c # refs)"
      using inv'(6) l by auto
  qed (use inv'(1-5) c in auto)
qed

lemma dag_loop_step:
  assumes "current \<noteq> []" and "c = picked ip current"
  shows "dag_loop db ip d root current refs res =
     (if c \<in> set refs then dag_loop db ip d root (removeAll c current) refs res
      else (case db_get db d c of
              Err e \<Rightarrow> Some (Err (StoreError e)) | Panic \<Rightarrow> Some Panic
            | Ok None \<Rightarrow> Some (Err (BlockMissing c root))
            | Ok (Some data) \<Rightarrow>
                (case block_new ip c data of
                   Err e \<Rightarrow> Some (Err (StoreError e)) | Panic \<Rightarrow> Some Panic
                 | Ok _ \<Rightarrow>
                     (case references ip c data of
                        Err e \<Rightarrow> Some (Err (StoreError e)) | Panic \<Rightarrow> Some Panic
                      | Ok rs \<Rightarrow> dag_loop db ip d root (set_add rs (removeAll c current)) (c # refs) (res @ [(c, data)])))))"
  unfolding assms(2) using assms(1) by (subst dag_loop.simps) (simp add: Let_def)

text \<open>
  What the loop returns, by induction on the number of stored blocks not yet visited and
  the size of the work set.
\<close>

fun dag_outcome ::
  "('d, 'e) db_ops \<Rightarrow> 'e ipld_ops \<Rightarrow> 'd \<Rightarrow> cid \<Rightarrow> ((cid \<times> bytes) list, 'e store_error) result \<Rightarrow> bool" where
  "dag_outcome db ip d root (Ok res) = dag_inv db ip d root [] (rev (map fst res)) res"
| "dag_outcome db ip d root (Err (BlockMissing c r)) =
     (r = root \<and> reachable db ip d root c \<and> db_get db d c = Ok None)"
| "dag_outcome db ip d root _ =
     (\<exists>c. reachable db ip d root c \<and> \<not> is_ok (bind_res (db_get db d c) (\<lambda>m. case m of None \<Rightarrow> Ok ()
        | Some data \<Rightarrow> bind_res (block_new ip c data) (\<lambda>_. bind_res (references ip c data) (\<lambda>_. Ok ())))))"

lemma dag_loop_total:
  assumes fin: "finite {c. \<exists>data. db_get db d c = Ok (Some data)}"
    and "dag_inv db ip d root current refs res"
  shows "\<exists>r. dag_loop db ip d root current refs res = Some r \<and> dag_outcome db ip d root r"
  using assms(2)
proof (induction "(card ({c. \<exists>data. db_get db d c = Ok (Some data)} - set refs), length current)"
    arbitrary: current refs res rule: wf_induct_rule [OF wf_lex_prod [OF wf_less_than wf_less_than]])
  case (1 current refs res)
  let ?S = "{c. \<exists>data. db_get db d c = Ok (Some data)}"
  show ?case
  proof (cases "current = []")
    case True
    have "refs = rev (map fst res)" using 1(2) by (simp add: dag_inv_def)
    with 1(2) True show ?thesis by (subst dag_loop.simps) simp
  next
    case False
    define c where "c = picked ip current"
    have c: "c \<in> set current" using picked_in [OF False] by (simp add: c_def)
    have reach: "reachable db ip d root c" using 1(2) c by (auto simp: dag_inv_def)
    note eq = dag_loop_step [OF False c_def, of db d root refs res]
    show ?thesis
    proof (cases "c \<in> set refs")
      case True
      have "length (removeAll c current) < length current" using c by (rule length_removeAll_less)
      then show ?thesis
        using 1(1) [OF _ dag_inv_skip [OF 1(2) True]] True by (simp add: eq)
    next
      case new: False
      show ?thesis
      proof (cases "\<exists>data u rs. db_get db d c = Ok (Some data) \<and> block_new ip c data = Ok u \<and> references ip c data = Ok rs")
        case True
        then obtain data u rs where g: "db_get db d c = Ok (Some data)" "block_new ip c data = Ok u"
          "references ip c data = Ok rs" by blast
        have "card (?S - set (c # refs)) < card (?S - set refs)"
          using fin new g(1) by (intro psubset_card_mono) auto
        then show ?thesis
          using 1(1) [OF _ dag_inv_visit [OF 1(2) c new g]] new g by (simp add: eq)
      next
        case False
        with new reach show ?thesis
          by (auto simp: eq split: result.split option.split)
      qed
    qed
  qed
qed

lemma dag_inv_start: "dag_inv db ip d root [root] [] []"
  by (simp add: dag_inv_def)

lemma dag_inv_end:
  assumes "dag_inv db ip d root [] refs res"
  shows "set refs = {c. reachable db ip d root c}"
proof -
  have cl: "root \<in> set refs" "\<forall>c \<in> set refs. reachable db ip d root c"
    "\<forall>c \<in> set refs. \<forall>c'. links db ip d c c' \<longrightarrow> c' \<in> set refs"
    using assms unfolding dag_inv_def by auto
  have "c \<in> set refs" if "reachable db ip d root c" for c
    using that by (induction rule: rtranclp_induct) (use cl in blast)+
  with cl(2) show ?thesis by blast
qed

lemma dag_traversal_ok:
  assumes "finite {c. \<exists>data. db_get db d c = Ok (Some data)}" and "dag_traversal db ip d root = Some (Ok res)"
  shows "fst ` set res = {c. reachable db ip d root c}"
    and "\<forall>(c, data) \<in> set res. good_block db ip d c data"
proof -
  have "dag_outcome db ip d root (Ok res)"
    using dag_loop_total [OF assms(1) dag_inv_start, of ip root] assms(2) by (auto simp: dag_traversal_def)
  then have inv: "dag_inv db ip d root [] (rev (map fst res)) res" by simp
  from dag_inv_end [OF inv] show "fst ` set res = {c. reachable db ip d root c}" by simp
  from inv show "\<forall>(c, data) \<in> set res. good_block db ip d c data" by (simp add: dag_inv_def)
qed

section \<open>Properties of the traversal\<close>

text \<open>
  C12. On a finite store the traversal always ends, whatever order the hash set yields. If
  it succeeds, the result holds every block that is reachable from the root exactly once,
  with the data of the store, and nothing else; it fails only for a reachable block that is
  missing, damaged or unreadable.
\<close>

theorem dag_traversal_correct:
  assumes "finite {c. \<exists>data. db_get db d c = Ok (Some data)}"
  shows "\<exists>r. dag_traversal db ip d root = Some r \<and>
    (case r of
       Ok res \<Rightarrow> distinct (map fst res) \<and> fst ` set res = {c. reachable db ip d root c} \<and>
                 (\<forall>(c, data) \<in> set res. db_get db d c = Ok (Some data))
     | Err (BlockMissing c r') \<Rightarrow> r' = root \<and> reachable db ip d root c \<and> db_get db d c = Ok None
     | _ \<Rightarrow> \<exists>c. reachable db ip d root c \<and> (\<forall>data. \<not> good_block db ip d c data))"
proof -
  obtain r where r: "dag_traversal db ip d root = Some r" "dag_outcome db ip d root r"
    using dag_loop_total [OF assms dag_inv_start] by (auto simp: dag_traversal_def)
  have bad: "(\<exists>c. reachable db ip d root c \<and> \<not> is_ok (bind_res (db_get db d c) (\<lambda>m. case m of None \<Rightarrow> Ok ()
        | Some data \<Rightarrow> bind_res (block_new ip c data) (\<lambda>_. bind_res (references ip c data) (\<lambda>_. Ok ()))))) \<Longrightarrow>
      \<exists>c. reachable db ip d root c \<and> (\<forall>data. \<not> good_block db ip d c data)"
    by (auto simp: good_block_def is_ok_iff)
  have "distinct (map fst res) \<and> fst ` set res = {c. reachable db ip d root c} \<and>
      (\<forall>(c, data) \<in> set res. db_get db d c = Ok (Some data))" if "r = Ok res" for res
  proof -
    have inv: "dag_inv db ip d root [] (rev (map fst res)) res" using r(2) that by simp
    then have "distinct (map fst res)" "\<forall>(c, data) \<in> set res. good_block db ip d c data"
      by (simp_all add: dag_inv_def)
    with dag_inv_end [OF inv] show ?thesis by (auto simp: good_block_def)
  qed
  with r bad show ?thesis
    by (cases r) (auto split: store_error.split elim!: dag_outcome.elims)
qed

text \<open>
  The traversal succeeds whenever every reachable block is stored intact.
\<close>

theorem dag_traversal_complete:
  assumes "finite {c. \<exists>data. db_get db d c = Ok (Some data)}"
    and "\<And>c. reachable db ip d root c \<Longrightarrow> \<exists>data. good_block db ip d c data"
  shows "\<exists>res. dag_traversal db ip d root = Some (Ok res) \<and> fst ` set res = {c. reachable db ip d root c}"
proof -
  obtain r where r: "dag_traversal db ip d root = Some r" "dag_outcome db ip d root r"
    using dag_loop_total [OF assms(1) dag_inv_start] by (auto simp: dag_traversal_def)
  have "\<not> (reachable db ip d root c \<and> \<not> is_ok (bind_res (db_get db d c) (\<lambda>m. case m of None \<Rightarrow> Ok ()
        | Some data \<Rightarrow> bind_res (block_new ip c data) (\<lambda>_. bind_res (references ip c data) (\<lambda>_. Ok ())))))" for c
    using assms(2) [of c] by (auto simp: good_block_def is_ok_iff)
  moreover have "\<not> (reachable db ip d root c \<and> db_get db d c = Ok None)" for c
    using assms(2) [of c] by (auto simp: good_block_def)
  ultimately obtain res where res: "r = Ok res" "dag_inv db ip d root [] (rev (map fst res)) res"
    using r(2) by (cases "(db, ip, d, root, r)" rule: dag_outcome.cases) auto
  with r(1) dag_inv_end [OF res(2)] show ?thesis by simp
qed

text \<open>A store in memory and a graph of three blocks that share a leaf.\<close>

definition mem_db :: "((cid \<times> bytes) list, string) db_ops" where
  "mem_db = \<lparr>db_get = (\<lambda>d c. Ok (map_of d c)), db_has = (\<lambda>d c. Ok (map_of d c \<noteq> None)),
     db_put_keyed = (\<lambda>d c b. (Ok (), (c, b) # d)),
     db_put_many_keyed = (\<lambda>d ks. (Ok (), rev ks @ d)),
     db_delete = (\<lambda>d c. (Ok (), filter (\<lambda>p. fst p \<noteq> c) d))\<rparr>"

definition mem_ipld :: "string ipld_ops" where
  "mem_ipld = \<lparr>block_new = (\<lambda>c b. Ok ()), references = (\<lambda>c b. Ok (map (\<lambda>x. [x]) b)), pick = (\<lambda>cs. 0),
     car_header = (\<lambda>cs v. Ok [9, 9]), encode_var = (\<lambda>n. [of_nat n])\<rparr>"

definition mem_graph :: "(cid \<times> bytes) list" where
  "mem_graph = [([1], [2, 3]), ([2], [3]), ([3], [])]"

lemma mem_db_simps [simp]:
  "db_get mem_db d c = Ok (map_of d c)" "db_put_keyed mem_db d c b = (Ok (), (c, b) # d)"
  "db_put_many_keyed mem_db d ks = (Ok (), rev ks @ d)"
  "references mem_ipld c b = Ok (map (\<lambda>x. [x]) b)" "block_new mem_ipld c b = Ok ()"
  by (simp_all add: mem_db_def mem_ipld_def)

lemma mem_db_finite: "finite {c. \<exists>data. db_get mem_db d c = Ok (Some data)}"
  using finite_dom_map_of [of d] by (simp add: dom_def)

lemma mem_graph_reach: "reachable mem_db mem_ipld mem_graph [1] c \<Longrightarrow> c \<in> {[1], [2], [3]}"
proof (induction rule: rtranclp_induct)
  case (step y z)
  then show ?case by (auto simp: links_def mem_graph_def split: if_splits)
qed simp

theorem dag_traversal_correct_witness: "\<exists>r. dag_traversal mem_db mem_ipld mem_graph [1] = Some r"
  using dag_traversal_correct [OF mem_db_finite] by blast

theorem dag_traversal_complete_witness:
  "\<exists>res. dag_traversal mem_db mem_ipld mem_graph [1] = Some (Ok res) \<and> [3] \<in> fst ` set res"
proof -
  have "\<exists>data. good_block mem_db mem_ipld mem_graph c data" if "reachable mem_db mem_ipld mem_graph [1] c" for c
    using mem_graph_reach [OF that] by (auto simp: good_block_def mem_graph_def)
  then have ex: "\<exists>res. dag_traversal mem_db mem_ipld mem_graph [1] = Some (Ok res) \<and>
      fst ` set res = {c. reachable mem_db mem_ipld mem_graph [1] c}"
    by (rule dag_traversal_complete [OF mem_db_finite])
  have "links mem_db mem_ipld mem_graph [1] [3]" by (simp add: links_def mem_graph_def)
  with ex show ?thesis by blast
qed

section \<open>Size of a CAR file\<close>

text \<open>
  The CAR format (version 1): the header and each block are preceded by their length as an
  unsigned varint; a block is its content id followed by its data.
\<close>

definition car_file :: "'e ipld_ops \<Rightarrow> bytes \<Rightarrow> (cid \<times> bytes) list \<Rightarrow> bytes" where
  "car_file ip header dag =
     encode_var ip (length header) @ header @
     concat (map (\<lambda>(c, b). encode_var ip (length c + length b) @ c @ b) dag)"

lemma car_add_fold:
  assumes "len + length (concat (map (\<lambda>(c, b). encode_var ip (length c + length b) @ c @ b) dag)) < 2 ^ 64"
  shows "foldl (car_add ip) len dag =
    len + length (concat (map (\<lambda>(c, b). encode_var ip (length c + length b) @ c @ b) dag))"
  using assms
proof (induction dag arbitrary: len)
  case Nil
  then show ?case by simp
next
  case (Cons p dag)
  obtain c b where p: "p = (c, b)" by (cases p)
  have a: "car_add ip len (c, b) = len + length (encode_var ip (length c + length b)) + (length c + length b)"
    using Cons.prems by (simp add: p car_add_def u64_add_exact add.commute [of "length b"] Let_def)
  show ?case using Cons.IH [of "car_add ip len (c, b)"] Cons.prems by (simp add: a p)
qed

text \<open>
  The size that \<open>car_size\<close> announces is the length of the CAR file of the graph
  without the varint in front of the header: it is too small by the length of that varint.
\<close>

theorem car_size_misses_header_length:
  assumes "dag_traversal db ip d root = Some (Ok dag)" and "car_header ip [root] 1 = Ok header"
    and "length (car_file ip header dag) < 2 ^ 64"
  shows "\<exists>n. car_size db ip d root = Some (Ok n) \<and>
    length (car_file ip header dag) = n + length (encode_var ip (length header))"
  using assms car_add_fold [of "length header" ip dag]
  by (simp add: car_size_def car_file_def)

theorem car_size_misses_header_length_witness:
  "car_size mem_db mem_ipld [([3], [])] [3] = Some (Ok 4) \<and> length (car_file mem_ipld [9, 9] [([3], [])]) = 5"
proof -
  have t: "dag_traversal mem_db mem_ipld [([3], [])] [3] = Some (Ok [([3], [])])"
    by (simp add: dag_traversal_def dag_loop.simps picked_def set_add_def)
  have h: "car_header mem_ipld [[3]] 1 = Ok [9, 9]" and f: "length (car_file mem_ipld [9, 9] [([3], [])]) = 5"
    and v: "length (encode_var mem_ipld n) = 1" for n
    by (simp_all add: mem_ipld_def car_file_def)
  show ?thesis using car_size_misses_header_length [OF t h] by (simp add: f v)
qed

section \<open>Missing blocks\<close>

text \<open>
  The search keeps no set of visited blocks, so it relies on the graph having no cycle,
  which content addressing gives: \<open>rank\<close> bounds the length of the paths from a block.
\<close>

definition readable :: "('d, 'e) db_ops \<Rightarrow> 'e ipld_ops \<Rightarrow> 'd \<Rightarrow> cid \<Rightarrow> bool" where
  "readable db ip d c \<longleftrightarrow>
     (\<exists>m. db_get db d c = Ok m \<and> (\<forall>data. m = Some data \<longrightarrow> (\<exists>rs. references ip c data = Ok rs)))"

definition missing_from :: "('d, 'e) db_ops \<Rightarrow> 'e ipld_ops \<Rightarrow> 'd \<Rightarrow> cid \<Rightarrow> cid set" where
  "missing_from db ip d c = {x. reachable db ip d c x \<and> db_get db d x = Ok None}"

definition finds :: "('d, 'e) db_ops \<Rightarrow> 'e ipld_ops \<Rightarrow> 'd \<Rightarrow> cid list \<Rightarrow> cid list \<Rightarrow> bool" where
  "finds db ip d cs ms \<longleftrightarrow> (\<forall>rest acc. missing_loop db ip d (cs @ rest) acc = missing_loop db ip d rest (acc @ ms))"

lemma missing_from_leaf:
  assumes "db_get db d c = Ok None"
  shows "missing_from db ip d c = {c}"
proof -
  have "x = c" if "reachable db ip d c x" for x
    using that by (cases rule: converse_rtranclpE) (use assms in \<open>auto simp: links_def\<close>)
  with assms show ?thesis by (auto simp: missing_from_def)
qed

lemma missing_from_node:
  assumes "db_get db d c = Ok (Some data)" and "references ip c data = Ok rs"
  shows "missing_from db ip d c = \<Union> (missing_from db ip d ` set rs)"
proof -
  have l: "links db ip d c x \<longleftrightarrow> x \<in> set rs" for x using assms by (simp add: links_def)
  have "reachable db ip d c x \<longleftrightarrow> x = c \<or> (\<exists>y \<in> set rs. reachable db ip d y x)" for x
  proof
    assume "reachable db ip d c x"
    then show "x = c \<or> (\<exists>y \<in> set rs. reachable db ip d y x)"
      by (cases rule: converse_rtranclpE) (use l in auto)
  next
    assume "x = c \<or> (\<exists>y \<in> set rs. reachable db ip d y x)"
    then show "reachable db ip d c x"
      using l by (auto intro: converse_rtranclp_into_rtranclp)
  qed
  with assms(1) show ?thesis by (auto simp: missing_from_def)
qed

lemma finds_list:
  assumes "\<And>c. c \<in> set cs \<Longrightarrow> \<exists>ms. finds db ip d [c] ms \<and> set ms = missing_from db ip d c"
  shows "\<exists>ms. finds db ip d cs ms \<and> set ms = \<Union> (missing_from db ip d ` set cs)"
  using assms
proof (induction cs)
  case Nil
  have "finds db ip d [] []" by (simp add: finds_def)
  then show ?case by fastforce
next
  case (Cons c cs)
  obtain m1 where m1: "finds db ip d [c] m1" "set m1 = missing_from db ip d c" using Cons.prems by auto
  obtain m2 where m2: "finds db ip d cs m2" "set m2 = \<Union> (missing_from db ip d ` set cs)" using Cons by auto
  have "missing_loop db ip d ((c # cs) @ rest) acc = missing_loop db ip d rest (acc @ (m1 @ m2))" for rest acc
    using m1(1) [unfolded finds_def, rule_format, of "cs @ rest" acc]
      m2(1) [unfolded finds_def, rule_format, of rest "acc @ m1"] by simp
  then have "finds db ip d (c # cs) (m1 @ m2)" unfolding finds_def by blast
  then show ?case using m1(2) m2(2) by (intro exI [of _ "m1 @ m2"]) simp
qed

lemma finds_one:
  assumes rank: "\<And>x y. links db ip d x y \<Longrightarrow> rank y < (rank x :: nat)"
    and ok: "\<And>x. reachable db ip d c x \<Longrightarrow> readable db ip d x"
  shows "\<exists>ms. finds db ip d [c] ms \<and> set ms = missing_from db ip d c"
  using ok
proof (induction "rank c" arbitrary: c rule: less_induct)
  case less
  obtain m where m: "db_get db d c = Ok m" "\<And>data. m = Some data \<Longrightarrow> \<exists>rs. references ip c data = Ok rs"
    using less(2) [of c] by (auto simp: readable_def)
  show ?case
  proof (cases m)
    case None
    then have "finds db ip d [c] [c]"
      using m(1) by (simp add: finds_def bitswap_get_def missing_loop.simps [of db ip d "c # _"])
    then show ?thesis using missing_from_leaf [of db d c] m(1) None by fastforce
  next
    case (Some data)
    then obtain rs where rs: "references ip c data = Ok rs" using m(2) by blast
    have l: "links db ip d c x" if "x \<in> set rs" for x using that m(1) Some rs by (simp add: links_def)
    have "\<exists>ms. finds db ip d [x] ms \<and> set ms = missing_from db ip d x" if "x \<in> set (rev rs)" for x
    proof (rule less(1))
      show "rank x < rank c" using rank l that by simp
      show "reachable db ip d x y \<Longrightarrow> readable db ip d y" for y
        using less(2) l that converse_rtranclp_into_rtranclp by (metis set_rev)
    qed
    then obtain ms where ms: "finds db ip d (rev rs) ms" "set ms = \<Union> (missing_from db ip d ` set rs)"
      using finds_list [of "rev rs" db ip d] by auto
    have "finds db ip d [c] ms"
      using ms(1) m(1) Some rs by (simp add: finds_def bitswap_get_def missing_loop.simps [of db ip d "c # _"])
    moreover have "db_get db d c = Ok (Some data)" using m(1) Some by simp
    ultimately show ?thesis using ms(2) missing_from_node [OF _ rs, of db d] by auto
  qed
qed

text \<open>
  C15. On a graph without cycles whose stored blocks are readable, the search for missing
  blocks ends and returns exactly the reachable content ids that the store does not hold.
\<close>

theorem missing_blocks_correct:
  assumes "\<And>x y. links db ip d x y \<Longrightarrow> rank y < (rank x :: nat)"
    and "\<And>x. reachable db ip d c x \<Longrightarrow> readable db ip d x"
  shows "\<exists>ms. missing_blocks db ip d c = Some (Ok ms) \<and>
              set ms = {x. reachable db ip d c x \<and> db_get db d x = Ok None}"
proof -
  obtain ms where ms: "finds db ip d [c] ms" "set ms = missing_from db ip d c"
    using finds_one [where c = c] assms by metis
  have "missing_loop db ip d [c] [] = missing_loop db ip d [] ms"
    using ms(1) [unfolded finds_def, rule_format, of "[]" "[]"] by simp
  then have "missing_blocks db ip d c = Some (Ok ms)"
    by (simp add: missing_blocks_def missing_loop.simps [of db ip d "[]"])
  with ms(2) show ?thesis by (simp add: missing_from_def)
qed

theorem missing_blocks_correct_witness:
  "\<exists>ms. missing_blocks mem_db mem_ipld [([1], [2, 3])] [1] = Some (Ok ms) \<and>
     set ms = {x. reachable mem_db mem_ipld [([1], [2, 3])] [1] x \<and> db_get mem_db [([1], [2, 3])] x = Ok None}"
  by (rule missing_blocks_correct [where rank = "\<lambda>c. if c = [1] then 1 else 0"])
     (auto simp: links_def readable_def split: if_splits)

section \<open>Typed access\<close>

text \<open>What a block store promises: a put that succeeds is visible and touches nothing else.\<close>

definition lawful_db :: "('d, 'e) db_ops \<Rightarrow> bool" where
  "lawful_db db \<longleftrightarrow>
     (\<forall>d c b d'. db_put_keyed db d c b = (Ok (), d') \<longrightarrow>
        (\<forall>x. db_get db d' x = (if x = c then Ok (Some b) else db_get db d x))) \<and>
     (\<forall>d ks d'. db_put_many_keyed db d ks = (Ok (), d') \<longrightarrow>
        (\<forall>x. db_get db d' x = (case map_of (rev ks) x of Some b \<Rightarrow> Ok (Some b) | None \<Rightarrow> db_get db d x)))"

lemma collect_keyed_map:
  assumes "\<And>x. x \<in> set xs \<Longrightarrow> to_vec x = Ok (enc x)"
  shows "collect_keyed cid_v1 to_vec xs = Ok (map (\<lambda>x. (cid_v1 (enc x), enc x)) xs)"
  using assms by (induction xs) auto

text \<open>
  An object that was stored can be read back under the returned content id, provided
  the codec decodes what it encoded and the database keeps what it was given.
\<close>

theorem put_obj_get_obj:
  assumes "lawful_db db" and "\<And>x bs. to_vec x = Ok bs \<Longrightarrow> from_slice bs = Ok x"
    and "put_obj db cid_v1 to_vec d obj = (Ok c, d')"
  shows "get_obj db from_slice d' c = Ok (Some obj)"
proof -
  obtain bs where bs: "to_vec obj = Ok bs" using assms(3) by (cases "to_vec obj") (auto simp: put_obj_def)
  obtain r d1 where put: "db_put_keyed db d (cid_v1 bs) bs = (r, d1)" by (cases "db_put_keyed db d (cid_v1 bs) bs")
  with assms(3) bs have "r = Ok ()" "c = cid_v1 bs" "d' = d1"
    by (auto simp: put_obj_def put_raw_def Let_def bind_res_Ok_iff)
  with put assms(1) have "db_get db d' c = Ok (Some bs)" by (auto simp: lawful_db_def)
  with assms(2) [OF bs] show ?thesis by (simp add: get_obj_def)
qed

theorem put_obj_get_obj_witness:
  "get_obj mem_db Ok (snd (put_obj mem_db (\<lambda>b. b) Ok [] [5])) [5] = Ok (Some [5])"
proof -
  have l: "lawful_db mem_db" by (auto simp: lawful_db_def map_add_def split: option.split)
  have p: "put_obj mem_db (\<lambda>b. b) Ok [] [5] = (Ok [5], [([5], [5])])"
    by (simp add: put_obj_def put_raw_def Let_def)
  show ?thesis using put_obj_get_obj [OF l _ p, of Ok] by (simp add: p)
qed

text \<open>
  A bulk insertion returns one content id per value, in order, and every value can be
  read back under its content id unless two different values share a hash.
\<close>

theorem bulk_put_get:
  assumes "lawful_db db" and "\<And>x. x \<in> set xs \<Longrightarrow> to_vec x = Ok (enc x) \<and> from_slice (enc x) = Ok x"
    and "\<And>x y. x \<in> set xs \<Longrightarrow> y \<in> set xs \<Longrightarrow> cid_v1 (enc x) = cid_v1 (enc y) \<Longrightarrow> x = y"
    and "bulk_put db cid_v1 to_vec d xs = (Ok cs, d')"
  shows "cs = map (\<lambda>x. cid_v1 (enc x)) xs \<and> (\<forall>x \<in> set xs. get_obj db from_slice d' (cid_v1 (enc x)) = Ok (Some x))"
proof -
  let ?ks = "map (\<lambda>x. (cid_v1 (enc x), enc x)) xs"
  have ks: "collect_keyed cid_v1 to_vec xs = Ok ?ks" using assms(2) by (intro collect_keyed_map) simp
  obtain r d1 where put: "db_put_many_keyed db d ?ks = (r, d1)" by (cases "db_put_many_keyed db d ?ks")
  with assms(4) ks have r: "r = Ok ()" "cs = map (\<lambda>x. cid_v1 (enc x)) xs" "d' = d1"
    by (auto simp: bulk_put_def bind_res_Ok_iff)
  have "db_get db d' (cid_v1 (enc x)) = Ok (Some (enc x))" if x: "x \<in> set xs" for x
  proof -
    have "map_of (rev ?ks) (cid_v1 (enc x)) \<noteq> None"
      unfolding map_of_eq_None_iff using x by force
    then obtain b where b: "map_of (rev ?ks) (cid_v1 (enc x)) = Some b" by blast
    then obtain y where "y \<in> set xs" "cid_v1 (enc y) = cid_v1 (enc x)" "b = enc y"
      by (auto dest!: map_of_SomeD)
    then have "b = enc x" using assms(3) x by metis
    with assms(1) put r b show ?thesis unfolding lawful_db_def by fastforce
  qed
  with r(2) assms(2) show ?thesis by (simp add: get_obj_def)
qed

theorem bulk_put_get_witness:
  "get_obj mem_db Ok (snd (bulk_put mem_db (\<lambda>b. b) Ok [] [[5], [6]])) [6] = Ok (Some [6])"
proof -
  have l: "lawful_db mem_db" by (auto simp: lawful_db_def map_add_def split: option.split)
  have p: "bulk_put mem_db (\<lambda>b. b) Ok [] [[5], [6]] = (Ok [[5], [6]], [([6], [6]), ([5], [5])])"
    by (simp add: bulk_put_def)
  have "([[5], [6]] :: bytes list) = map (\<lambda>x. x) [[5], [6]] \<and>
      (\<forall>x \<in> set [[5], [6]]. get_obj mem_db Ok [([6], [6]), ([5], [5])] x = Ok (Some x))"
    by (rule bulk_put_get [OF l _ _ p, of "\<lambda>b. b"]) auto
  then show ?thesis by (simp add: p)
qed

end
