(* ===== verification/Network.thy ===== *)
theory Network
  imports Store
begin

text \<open>
  The network service of a node, \<open>ursa-network/src/service.rs\<close>, with the parts of
  \<open>behaviour.rs\<close> and \<open>utils/cache_summary.rs\<close> that it calls. The libp2p swarm and its
  protocols are third-party code: the record \<open>swarm_ops\<close> holds the calls the service makes,
  each on an abstract swarm state. The cuckoo filter of a cache summary is a parameter of
  the same kind. A one-shot channel is a number; \<open>alive\<close> says whether its receiver still
  exists, and \<open>us_replies\<close> collects what was sent. Log output and metrics are left out.
\<close>

section \<open>Parameters\<close>

type_synonym peer_id = string

datatype net_proto = P2p peer_id | P2pCircuit | NetTcp u16 | NetUdp u16 | NetProto string

type_synonym net_addr = "net_proto list"

text \<open>\<open>utils/cache_summary.rs\<close>: a summary is its filter.\<close>

record 'f filter_ops =
  filter_new :: "nat \<Rightarrow> nat \<Rightarrow> 'f"
  filter_insert :: "bytes \<Rightarrow> 'f \<Rightarrow> 'f"
  filter_contains :: "bytes \<Rightarrow> 'f \<Rightarrow> bool"
  filter_remove :: "bytes \<Rightarrow> 'f \<Rightarrow> 'f"

record 'f cache_summary =
  cs_filter :: 'f

text \<open>The false positive rate is given per mille; the default is 0.1.\<close>

definition summary_new :: "'f filter_ops \<Rightarrow> nat \<Rightarrow> nat \<Rightarrow> 'f cache_summary" where
  "summary_new fo capacity fp_rate = \<lparr>cs_filter = filter_new fo capacity fp_rate\<rparr>"

definition summary_default :: "'f filter_ops \<Rightarrow> 'f cache_summary" where
  "summary_default fo = summary_new fo 10000 100"

definition summary_insert :: "'f filter_ops \<Rightarrow> bytes \<Rightarrow> 'f cache_summary \<Rightarrow> 'f cache_summary" where
  "summary_insert fo v s = s\<lparr>cs_filter := filter_insert fo v (cs_filter s)\<rparr>"

definition summary_contains :: "'f filter_ops \<Rightarrow> bytes \<Rightarrow> 'f cache_summary \<Rightarrow> bool" where
  "summary_contains fo v s = filter_contains fo v (cs_filter s)"

definition summary_remove :: "'f filter_ops \<Rightarrow> bytes \<Rightarrow> 'f cache_summary \<Rightarrow> 'f cache_summary" where
  "summary_remove fo v s = s\<lparr>cs_filter := filter_remove fo v (cs_filter s)\<rparr>"

text \<open>\<open>codec/protocol.rs\<close>: requests and responses between nodes.\<close>

datatype 'f request_type = CarRequest string | CacheRequest cid | StoreSummary "'f cache_summary"

datatype response_type = CarResponse string bytes | CacheResponse | StoreSummaryRequest

record ('w, 'f) swarm_ops =
  sw_sync :: "cid \<Rightarrow> peer_id list \<Rightarrow> cid list \<Rightarrow> 'w \<Rightarrow> nat \<times> 'w"
  sw_get :: "cid \<Rightarrow> peer_id list \<Rightarrow> 'w \<Rightarrow> nat \<times> 'w"
  sw_send_request :: "peer_id \<Rightarrow> 'f request_type \<Rightarrow> 'w \<Rightarrow> nat \<times> 'w"
  sw_send_response :: "nat \<Rightarrow> response_type \<Rightarrow> 'w \<Rightarrow> bool \<times> 'w"
  sw_graphsync_request :: "peer_id \<Rightarrow> cid \<Rightarrow> 'w \<Rightarrow> 'w"
  sw_dial :: "net_addr \<Rightarrow> 'w \<Rightarrow> (unit, string) result \<times> 'w"
  sw_listen_on :: "net_addr \<Rightarrow> 'w \<Rightarrow> (unit, string) result \<times> 'w"
  sw_listeners :: "'w \<Rightarrow> net_addr list"
  sw_autonat_address :: "'w \<Rightarrow> net_addr option"
  sw_relay_enabled :: "'w \<Rightarrow> bool"
  sw_subscribe :: "string \<Rightarrow> 'w \<Rightarrow> (bool, string) result \<times> 'w"
  sw_unsubscribe :: "string \<Rightarrow> 'w \<Rightarrow> (bool, string) result \<times> 'w"
  sw_publish :: "string \<Rightarrow> bytes \<Rightarrow> 'w \<Rightarrow> (string, string) result \<times> 'w"
  sw_add_explicit_peer :: "peer_id \<Rightarrow> 'w \<Rightarrow> 'w"
  sw_bitswap_add_address :: "peer_id \<Rightarrow> net_addr \<Rightarrow> 'w \<Rightarrow> 'w"
  sw_kad_add_address :: "peer_id \<Rightarrow> net_addr \<Rightarrow> 'w \<Rightarrow> 'w"
  sw_reqres_add_address :: "peer_id \<Rightarrow> net_addr \<Rightarrow> 'w \<Rightarrow> 'w"
  sw_graphsync_add_address :: "peer_id \<Rightarrow> net_addr \<Rightarrow> 'w \<Rightarrow> 'w"

section \<open>State\<close>

datatype gossipsub_event =
    GsMessage peer_id string bytes
  | GsSubscribed peer_id string
  | GsUnsubscribed peer_id string

datatype network_event =
    PeerConnected peer_id
  | PeerDisconnected peer_id
  | GossipsubEv gossipsub_event
  | RequestMessage nat
  | BitswapHave cid nat
  | BitswapWant cid nat

datatype gossipsub_message =
    GmSubscribe peer_id string nat
  | GmUnsubscribe peer_id string nat
  | GmPublish string bytes nat

datatype 'f network_command =
    GetBitswap cid nat
  | Put cid nat
  | GetPeers nat
  | GetListenerAddresses nat
  | SendRequest peer_id "'f request_type" nat
  | GossipsubMessage peer_id gossipsub_message

datatype reply =
    RUnit "(unit, string) result"
  | RPeers "peer_id list"
  | RAddrs "net_addr list"
  | RResponse response_type
  | RBool "(bool, string) result"
  | RMessageId "(string, string) result"

record ('w, 'f) ursa_service =
  us_swarm :: 'w
  us_bitswap_queries :: "(nat, cid) hmap"
  us_response_channels :: "(cid, nat list) hmap"
  us_pending_responses :: "(nat, nat) hmap"
  us_peers :: "peer_id list"
  us_bootstraps :: "net_addr list"
  us_cached_content :: "'f cache_summary"
  us_peer_cached_content :: "(peer_id, 'f cache_summary) hmap"
  us_events :: "network_event list"
  us_replies :: "(nat \<times> reply) list"

definition emit_event :: "network_event \<Rightarrow> ('w, 'f) ursa_service \<Rightarrow> ('w, 'f) ursa_service" where
  "emit_event e s = s\<lparr>us_events := us_events s @ [e]\<rparr>"

definition send_oneshot :: "(nat \<Rightarrow> bool) \<Rightarrow> nat \<Rightarrow> reply \<Rightarrow> ('w, 'f) ursa_service \<Rightarrow> bool \<times> ('w, 'f) ursa_service" where
  "send_oneshot alive ch v s =
     (if alive ch then (True, s\<lparr>us_replies := us_replies s @ [(ch, v)]\<rparr>) else (False, s))"

text \<open>A send whose failure is turned into an error by \<open>map_err\<close>.\<close>

definition send_or_fail ::
  "(nat \<Rightarrow> bool) \<Rightarrow> nat \<Rightarrow> reply \<Rightarrow> string \<Rightarrow> ('w, 'f) ursa_service \<Rightarrow>
     (unit, string) result \<times> ('w, 'f) ursa_service" where
  "send_or_fail alive ch v msg s =
     (let (ok, s1) = send_oneshot alive ch v s in (if ok then Ok () else Err msg, s1))"

definition peers_insert :: "peer_id \<Rightarrow> peer_id list \<Rightarrow> bool \<times> peer_id list" where
  "peers_insert p ps = (if p \<in> set ps then (False, ps) else (True, ps @ [p]))"

section \<open>Behaviour\<close>

definition add_address :: "('w, 'f) swarm_ops \<Rightarrow> peer_id \<Rightarrow> net_addr \<Rightarrow> 'w \<Rightarrow> 'w" where
  "add_address ops p a w =
     (let w = sw_bitswap_add_address ops p a w;
          w = sw_kad_add_address ops p a w;
          w = sw_reqres_add_address ops p a w
      in sw_graphsync_add_address ops p a w)"

definition sync_block :: "('w, 'f) swarm_ops \<Rightarrow> cid \<Rightarrow> peer_id list \<Rightarrow> 'w \<Rightarrow> (nat, string) result \<times> 'w" where
  "sync_block ops c providers w = (let (q, w1) = sw_sync ops c providers [c] w in (Ok q, w1))"

definition get_block :: "('w, 'f) swarm_ops \<Rightarrow> cid \<Rightarrow> peer_id list \<Rightarrow> 'w \<Rightarrow> (nat, string) result \<times> 'w" where
  "get_block ops c providers w = (let (q, w1) = sw_get ops c providers w in (Ok q, w1))"

definition public_address :: "('w, 'f) swarm_ops \<Rightarrow> 'w \<Rightarrow> net_addr option" where
  "public_address ops w = sw_autonat_address ops w"

definition behaviour_publish :: "('w, 'f) swarm_ops \<Rightarrow> string \<Rightarrow> bytes \<Rightarrow> 'w \<Rightarrow> (string, string) result \<times> 'w" where
  "behaviour_publish ops topic data w = sw_publish ops topic data w"

definition behaviour_subscribe :: "('w, 'f) swarm_ops \<Rightarrow> string \<Rightarrow> 'w \<Rightarrow> (bool, string) result \<times> 'w" where
  "behaviour_subscribe ops topic w = sw_subscribe ops topic w"

definition behaviour_unsubscribe :: "('w, 'f) swarm_ops \<Rightarrow> string \<Rightarrow> 'w \<Rightarrow> (bool, string) result \<times> 'w" where
  "behaviour_unsubscribe ops topic w = sw_unsubscribe ops topic w"

text \<open>
  The bootstrap loop of \<open>Behaviour::new\<close>: peers with a final \<open>p2p\<close> part become known. The library's
  \<open>PeerId::from_multihash\<close>, an argument, says which multihashes are peer ids; one that is none panics.
\<close>

definition addr_multihash :: "net_addr \<Rightarrow> string option" where
  "addr_multihash a = (if a = [] then None else case last a of P2p p \<Rightarrow> Some p | _ \<Rightarrow> None)"

fun init_bootstraps ::
  "(string \<Rightarrow> peer_id option) \<Rightarrow> ('w, 'f) swarm_ops \<Rightarrow> net_addr list \<Rightarrow> 'w \<times> peer_id list \<Rightarrow> ('w \<times> peer_id list, string) result" where
  "init_bootstraps from_multihash ops [] (w, ps) = Ok (w, ps)"
| "init_bootstraps from_multihash ops (a # as) (w, ps) =
     (case addr_multihash a of
        Some mh \<Rightarrow>
          (case from_multihash mh of
             Some p \<Rightarrow> init_bootstraps from_multihash ops as (sw_kad_add_address ops p a w, snd (peers_insert p ps))
           | None \<Rightarrow> Panic)
      | None \<Rightarrow> init_bootstraps from_multihash ops as (w, ps))"

section \<open>Construction\<close>

fun dial_all :: "('w, 'f) swarm_ops \<Rightarrow> net_addr list \<Rightarrow> 'w \<Rightarrow> (unit, string) result \<times> 'w" where
  "dial_all ops [] w = (Ok (), w)"
| "dial_all ops (a # as) w =
     (case sw_dial ops a w of
        (Ok _, w1) \<Rightarrow> dial_all ops as w1
      | (Err e, w1) \<Rightarrow> (Err e, w1)
      | (Panic, w1) \<Rightarrow> (Panic, w1))"

fun listen_all :: "('w, 'f) swarm_ops \<Rightarrow> net_addr list \<Rightarrow> 'w \<Rightarrow> (unit, string) result \<times> 'w" where
  "listen_all ops [] w = (Ok (), w)"
| "listen_all ops (a # as) w =
     (case sw_listen_on ops a w of
        (Ok _, w1) \<Rightarrow> listen_all ops as w1
      | (Err e, w1) \<Rightarrow> (Panic, w1)
      | (Panic, w1) \<Rightarrow> (Panic, w1))"

text \<open>The second half of \<open>UrsaService::new\<close>; \<open>w\<close> is the swarm that \<open>SwarmBuilder\<close> returned.\<close>

definition service_build ::
  "('w, 'f) swarm_ops \<Rightarrow> 'f filter_ops \<Rightarrow> net_addr list \<Rightarrow> net_addr list \<Rightarrow> peer_id list \<Rightarrow> 'w \<Rightarrow>
     (('w, 'f) ursa_service, string) result" where
  "service_build ops fo bootstrap_nodes swarm_addrs peers w =
     (case dial_all ops bootstrap_nodes w of
           (Err e, _) \<Rightarrow> Err e
         | (Panic, _) \<Rightarrow> Panic
         | (Ok _, w) \<Rightarrow>
             (case listen_all ops swarm_addrs w of
                (Err e, _) \<Rightarrow> Err e
              | (Panic, _) \<Rightarrow> Panic
              | (Ok _, w) \<Rightarrow>
                  (let (_, w) = behaviour_subscribe ops ''/ursa/global'' w
                   in Ok \<lparr>us_swarm = w, us_bitswap_queries = [], us_response_channels = [],
                          us_pending_responses = [], us_peers = peers, us_bootstraps = bootstrap_nodes,
                          us_cached_content = summary_default fo, us_peer_cached_content = [],
                          us_events = [], us_replies = []\<rparr>)))"

section \<open>Events of the swarm\<close>

datatype identify_event = IdReceived peer_id "bytes list" "net_addr list" | IdOther

datatype nat_status = NatUnknown | NatPrivate | NatPublic net_addr

datatype autonat_event = StatusChanged nat_status nat_status | Probe

datatype bitswap_event = BsProgress nat | BsComplete nat "(unit, string) result"

datatype gossip_in =
    GiMessage peer_id string bytes
  | GiSubscribed peer_id string
  | GiUnsubscribed peer_id string
  | GiNotSupported

datatype mdns_event = Discovered "(peer_id \<times> net_addr) list" | Expired

datatype 'f req_res_event =
    RrRequest peer_id nat "'f request_type" nat
  | RrResponse peer_id nat response_type
  | RrOutboundFailure peer_id nat
  | RrInboundFailure peer_id nat
  | RrResponseSent peer_id nat

datatype ping_event = PingRtt peer_id nat | Pong peer_id | PingFailed peer_id

datatype 'f swarm_event =
    EvIdentify identify_event
  | EvAutonat autonat_event
  | EvPing ping_event
  | EvBitswap bitswap_event
  | EvGossipsub gossip_in
  | EvMdns mdns_event
  | EvKad
  | EvRequestResponse "'f req_res_event"
  | EvRelay
  | EvDcutr
  | EvGraphsync
  | ConnectionEstablished peer_id
  | ConnectionClosed peer_id nat
  | EvOther

definition kad_protocol :: bytes where
  "kad_protocol = map of_char ''/ursa/kad/0.0.1''"

definition handle_ping :: "ping_event \<Rightarrow> ('w, 'f) ursa_service \<Rightarrow> (unit, string) result \<times> ('w, 'f) ursa_service" where
  "handle_ping e s = (case e of PingRtt p rtt \<Rightarrow> (Ok (), s) | Pong p \<Rightarrow> (Ok (), s) | PingFailed p \<Rightarrow> (Ok (), s))"

definition handle_identify ::
  "('w, 'f) swarm_ops \<Rightarrow> identify_event \<Rightarrow> ('w, 'f) ursa_service \<Rightarrow> (unit, string) result \<times> ('w, 'f) ursa_service" where
  "handle_identify ops e s =
     (case e of
        IdReceived p protocols addrs \<Rightarrow>
          (if kad_protocol \<in> set protocols
           then (Ok (), s\<lparr>us_swarm := foldl (\<lambda>w a. add_address ops p a w)
                            (sw_add_explicit_peer ops p (us_swarm s)) addrs\<rparr>)
           else (Ok (), s))
      | IdOther \<Rightarrow> (Ok (), s))"

text \<open>\<open>rnd\<close> is the position that the random generator yields.\<close>

definition handle_autonat ::
  "('w, 'f) swarm_ops \<Rightarrow> nat \<Rightarrow> autonat_event \<Rightarrow> ('w, 'f) ursa_service \<Rightarrow>
     (unit, string) result \<times> ('w, 'f) ursa_service" where
  "handle_autonat ops rnd e s =
     (case e of
        StatusChanged NatUnknown NatPrivate \<Rightarrow>
          (if sw_relay_enabled ops (us_swarm s) \<and> us_bootstraps s \<noteq> []
           then (let a = us_bootstraps s ! (rnd mod length (us_bootstraps s))
                 in case sw_listen_on ops (a @ [P2pCircuit]) (us_swarm s) of
                      (Ok _, w) \<Rightarrow> (Ok (), s\<lparr>us_swarm := w\<rparr>)
                    | (_, w) \<Rightarrow> (Panic, s\<lparr>us_swarm := w\<rparr>))
           else (Ok (), s))
      | _ \<Rightarrow> (Ok (), s))"

fun answer_all :: "(nat \<Rightarrow> bool) \<Rightarrow> reply \<Rightarrow> nat list \<Rightarrow> ('w, 'f) ursa_service \<Rightarrow> ('w, 'f) ursa_service" where
  "answer_all alive v [] s = s"
| "answer_all alive v (ch # chs) s = answer_all alive v chs (snd (send_oneshot alive ch v s))"

definition handle_bitswap ::
  "(nat \<Rightarrow> bool) \<Rightarrow> bitswap_event \<Rightarrow> ('w, 'f) ursa_service \<Rightarrow> (unit, string) result \<times> ('w, 'f) ursa_service" where
  "handle_bitswap alive e s =
     (case e of
        BsProgress q \<Rightarrow> (Ok (), s)
      | BsComplete q r \<Rightarrow>
          (case hm_get (us_bitswap_queries s) q of
             None \<Rightarrow> (Ok (), s)
           | Some c \<Rightarrow>
               (let s1 = s\<lparr>us_bitswap_queries := hm_remove q (us_bitswap_queries s)\<rparr>
                in case hm_get (us_response_channels s1) c of
                     None \<Rightarrow> (Ok (), s1)
                   | Some chans \<Rightarrow>
                       (Ok (), answer_all alive
                          (RUnit (case r of Ok _ \<Rightarrow> Ok ()
                             | _ \<Rightarrow> Err ''The requested block is not found with any peers''))
                          chans (s1\<lparr>us_response_channels := hm_remove c (us_response_channels s1)\<rparr>)))))"

definition handle_gossip ::
  "gossip_in \<Rightarrow> ('w, 'f) ursa_service \<Rightarrow> (unit, string) result \<times> ('w, 'f) ursa_service" where
  "handle_gossip e s =
     (Ok (), case e of
        GiMessage p i m \<Rightarrow> emit_event (GossipsubEv (GsMessage p i m)) s
      | GiSubscribed p t \<Rightarrow> emit_event (GossipsubEv (GsSubscribed p t)) s
      | GiUnsubscribed p t \<Rightarrow> emit_event (GossipsubEv (GsUnsubscribed p t)) s
      | GiNotSupported \<Rightarrow> s)"

definition handle_kad :: "('w, 'f) ursa_service \<Rightarrow> (unit, string) result \<times> ('w, 'f) ursa_service" where
  "handle_kad s = (Ok (), s)"

fun mdns_discovered :: "('w, 'f) swarm_ops \<Rightarrow> (peer_id \<times> net_addr) list \<Rightarrow> ('w, 'f) ursa_service \<Rightarrow> ('w, 'f) ursa_service" where
  "mdns_discovered ops [] s = s"
| "mdns_discovered ops ((p, a) # ds) s =
     (let w = add_address ops p a (us_swarm s);
          (new, ps) = peers_insert p (us_peers s);
          w1 = (if new then snd (sw_dial ops a w) else w)
      in mdns_discovered ops ds (s\<lparr>us_swarm := w1, us_peers := ps\<rparr>))"

definition handle_mdns ::
  "('w, 'f) swarm_ops \<Rightarrow> mdns_event \<Rightarrow> ('w, 'f) ursa_service \<Rightarrow> (unit, string) result \<times> ('w, 'f) ursa_service" where
  "handle_mdns ops e s = (case e of Discovered ds \<Rightarrow> (Ok (), mdns_discovered ops ds s) | Expired \<Rightarrow> (Ok (), s))"

text \<open>The number in a request stands for the response channel of the protocol.\<close>

definition handle_req_res ::
  "('w, 'f) swarm_ops \<Rightarrow> (nat \<Rightarrow> bool) \<Rightarrow> 'f req_res_event \<Rightarrow> ('w, 'f) ursa_service \<Rightarrow>
     (unit, string) result \<times> ('w, 'f) ursa_service" where
  "handle_req_res ops alive e s =
     (case e of
        RrRequest peer request_id request ch \<Rightarrow>
          (let s1 = (case request of
                CarRequest x \<Rightarrow> s
              | CacheRequest c \<Rightarrow>
                  (let w = sw_graphsync_request ops peer c (us_swarm s);
                       (sent, w1) = sw_send_response ops ch CacheResponse w
                   in s\<lparr>us_swarm := w1\<rparr>)
              | StoreSummary cs \<Rightarrow>
                  (let (sent, w1) = sw_send_response ops ch StoreSummaryRequest (us_swarm s)
                   in s\<lparr>us_peer_cached_content := hm_insert peer cs (us_peer_cached_content s), us_swarm := w1\<rparr>))
           in (Ok (), emit_event (RequestMessage request_id) s1))
      | RrResponse peer request_id response \<Rightarrow>
          (case hm_get (us_pending_responses s) request_id of
             Some ch \<Rightarrow>
               (Ok (), snd (send_oneshot alive ch (RResponse response)
                  (s\<lparr>us_pending_responses := hm_remove request_id (us_pending_responses s)\<rparr>)))
           | None \<Rightarrow> (Ok (), s))
      | RrOutboundFailure p i \<Rightarrow> (Ok (), s)
      | RrInboundFailure p i \<Rightarrow> (Ok (), s)
      | RrResponseSent p i \<Rightarrow> (Ok (), s))"

definition handle_graphsync :: "('w, 'f) ursa_service \<Rightarrow> (unit, string) result \<times> ('w, 'f) ursa_service" where
  "handle_graphsync s = (Ok (), s)"

definition handle_swarm_event ::
  "('w, 'f) swarm_ops \<Rightarrow> (nat \<Rightarrow> bool) \<Rightarrow> nat \<Rightarrow> 'f swarm_event \<Rightarrow> ('w, 'f) ursa_service \<Rightarrow>
     (unit, string) result \<times> ('w, 'f) ursa_service" where
  "handle_swarm_event ops alive rnd e s =
     (case e of
        EvIdentify x \<Rightarrow> handle_identify ops x s
      | EvAutonat x \<Rightarrow> handle_autonat ops rnd x s
      | EvPing x \<Rightarrow> handle_ping x s
      | EvBitswap x \<Rightarrow> handle_bitswap alive x s
      | EvGossipsub x \<Rightarrow> handle_gossip x s
      | EvMdns x \<Rightarrow> handle_mdns ops x s
      | EvKad \<Rightarrow> handle_kad s
      | EvRequestResponse x \<Rightarrow> handle_req_res ops alive x s
      | EvRelay \<Rightarrow> (Ok (), s)
      | EvDcutr \<Rightarrow> (Ok (), s)
      | EvGraphsync \<Rightarrow> handle_graphsync s
      | ConnectionEstablished p \<Rightarrow>
          (let (new, ps) = peers_insert p (us_peers s)
           in (Ok (), if new then emit_event (PeerConnected p) (s\<lparr>us_peers := ps\<rparr>) else s))
      | ConnectionClosed p num_established \<Rightarrow>
          (Ok (), if num_established = 0 \<and> p \<in> set (us_peers s)
                  then emit_event (PeerDisconnected p)
                         (s\<lparr>us_peers := removeAll p (us_peers s),
                            us_peer_cached_content := hm_remove p (us_peer_cached_content s)\<rparr>)
                  else s)
      | EvOther \<Rightarrow> (Ok (), s))"

section \<open>Commands\<close>

text \<open>The peers worth asking: no summary of theirs, or one that may contain the content id.\<close>

definition likely_peers :: "'f filter_ops \<Rightarrow> cid \<Rightarrow> ('w, 'f) ursa_service \<Rightarrow> peer_id list" where
  "likely_peers fo c s =
     filter (\<lambda>p. case hm_get (us_peer_cached_content s) p of
                   Some cs \<Rightarrow> summary_contains fo c cs | None \<Rightarrow> True) (us_peers s)"

fun request_all :: "('w, 'f) swarm_ops \<Rightarrow> peer_id list \<Rightarrow> 'f request_type \<Rightarrow> 'w \<Rightarrow> 'w" where
  "request_all ops [] r w = w"
| "request_all ops (p # ps) r w = request_all ops ps r (snd (sw_send_request ops p r w))"

definition handle_get_bitswap ::
  "('w, 'f) swarm_ops \<Rightarrow> 'f filter_ops \<Rightarrow> (nat \<Rightarrow> bool) \<Rightarrow> cid \<Rightarrow> nat \<Rightarrow> ('w, 'f) ursa_service \<Rightarrow>
     (unit, string) result \<times> ('w, 'f) ursa_service" where
  "handle_get_bitswap ops fo alive c sender s =
     (if us_peers s = []
      then send_or_fail alive sender
             (RUnit (Err ''There were no peers provided and the block does not exist in local store''))
             ''Failed to get a bitswap block!'' s
      else (let s1 = s\<lparr>us_response_channels :=
                  (case hm_get (us_response_channels s) c of
                     Some chans \<Rightarrow> hm_insert c (chans @ [sender]) (us_response_channels s)
                   | None \<Rightarrow> hm_insert c [sender] (us_response_channels s))\<rparr>;
                (query, w) = sync_block ops c (likely_peers fo c s1) (us_swarm s1);
                s2 = s1\<lparr>us_swarm := w\<rparr>
            in case query of
                 Ok q \<Rightarrow> (Ok (), emit_event (BitswapWant c q)
                            (s2\<lparr>us_bitswap_queries := hm_insert q c (us_bitswap_queries s2)\<rparr>))
               | _ \<Rightarrow> (Ok (), s2)))"

definition handle_put ::
  "('w, 'f) swarm_ops \<Rightarrow> 'f filter_ops \<Rightarrow> (nat \<Rightarrow> bool) \<Rightarrow> cid \<Rightarrow> nat \<Rightarrow> ('w, 'f) ursa_service \<Rightarrow>
     (unit, string) result \<times> ('w, 'f) ursa_service" where
  "handle_put ops fo alive c sender s =
     (let w = request_all ops (us_peers s) (CacheRequest c) (us_swarm s);
          content = summary_insert fo c (us_cached_content s);
          w1 = request_all ops (us_peers s) (StoreSummary content) w
      in send_or_fail alive sender (RUnit (Ok ())) ''PUT failed''
           (s\<lparr>us_swarm := w1, us_cached_content := content\<rparr>))"

definition handle_gossipsub_message ::
  "('w, 'f) swarm_ops \<Rightarrow> (nat \<Rightarrow> bool) \<Rightarrow> gossipsub_message \<Rightarrow> ('w, 'f) ursa_service \<Rightarrow>
     (unit, string) result \<times> ('w, 'f) ursa_service" where
  "handle_gossipsub_message ops alive m s =
     (case m of
        GmSubscribe p topic sender \<Rightarrow>
          (let (r, w) = sw_subscribe ops topic (us_swarm s)
           in send_or_fail alive sender (RBool r) ''Failed to subscribe!'' (s\<lparr>us_swarm := w\<rparr>))
      | GmUnsubscribe p topic sender \<Rightarrow>
          (let (r, w) = sw_unsubscribe ops topic (us_swarm s)
           in send_or_fail alive sender (RBool r) ''Failed to unsubscribe!'' (s\<lparr>us_swarm := w\<rparr>))
      | GmPublish topic data sender \<Rightarrow>
          (let (r, w) = behaviour_publish ops topic data (us_swarm s)
           in send_or_fail alive sender (RMessageId r) ''Failed to publish message!'' (s\<lparr>us_swarm := w\<rparr>)))"

definition handle_command ::
  "('w, 'f) swarm_ops \<Rightarrow> 'f filter_ops \<Rightarrow> (nat \<Rightarrow> bool) \<Rightarrow> 'f network_command \<Rightarrow> ('w, 'f) ursa_service \<Rightarrow>
     (unit, string) result \<times> ('w, 'f) ursa_service" where
  "handle_command ops fo alive cmd s =
     (case cmd of
        GetBitswap c sender \<Rightarrow> handle_get_bitswap ops fo alive c sender s
      | Put c sender \<Rightarrow> handle_put ops fo alive c sender s
      | GetPeers sender \<Rightarrow> send_or_fail alive sender (RPeers (us_peers s)) ''Failed to get Libp2p peers!'' s
      | GetListenerAddresses sender \<Rightarrow>
          send_or_fail alive sender
            (RAddrs (sw_listeners ops (us_swarm s) @
               (case public_address ops (us_swarm s) of Some a \<Rightarrow> [a] | None \<Rightarrow> [])))
            ''Failed to get listener addresses from network'' s
      | SendRequest peer request channel \<Rightarrow>
          (let (request_id, w) = sw_send_request ops peer request (us_swarm s)
           in (Ok (), emit_event (RequestMessage request_id)
                 (s\<lparr>us_swarm := w, us_pending_responses := hm_insert request_id channel (us_pending_responses s)\<rparr>)))
      | GossipsubMessage p m \<Rightarrow> handle_gossipsub_message ops alive m s)"

definition service_dial ::
  "('w, 'f) swarm_ops \<Rightarrow> (nat \<Rightarrow> bool) \<Rightarrow> peer_id \<Rightarrow> net_addr \<Rightarrow> nat \<Rightarrow> ('w, 'f) ursa_service \<Rightarrow>
     (unit, string) result \<times> ('w, 'f) ursa_service" where
  "service_dial ops alive p a response s =
     (case sw_dial ops a (us_swarm s) of
        (Ok _, w) \<Rightarrow>
          send_or_fail alive response (RUnit (Ok ())) ''Channel Dropped''
            (s\<lparr>us_swarm := sw_kad_add_address ops p a w\<rparr>)
      | (Err e, w) \<Rightarrow> send_or_fail alive response (RUnit (Err e)) ''DialError'' (s\<lparr>us_swarm := w\<rparr>)
      | (Panic, w) \<Rightarrow> (Panic, s\<lparr>us_swarm := w\<rparr>))"

section \<open>The service loop\<close>

text \<open>
  The loop over what \<open>select!\<close> yields. \<open>None\<close> means that it waits for more; an error of a
  handler is a panic through \<open>expect\<close>.
\<close>

datatype 'f service_input =
    InEvent "'f swarm_event" nat
  | InCommand "'f network_command"
  | SwarmEnded
  | CommandsClosed

fun service_step ::
  "('w, 'f) swarm_ops \<Rightarrow> 'f filter_ops \<Rightarrow> (nat \<Rightarrow> bool) \<Rightarrow> 'f service_input \<Rightarrow> ('w, 'f) ursa_service \<Rightarrow>
     (unit, string) result option \<times> ('w, 'f) ursa_service" where
  "service_step ops fo alive (InEvent e rnd) s =
     (case handle_swarm_event ops alive rnd e s of (Ok _, s1) \<Rightarrow> (None, s1) | (_, s1) \<Rightarrow> (Some Panic, s1))"
| "service_step ops fo alive (InCommand c) s =
     (case handle_command ops fo alive c s of (Ok _, s1) \<Rightarrow> (None, s1) | (_, s1) \<Rightarrow> (Some Panic, s1))"
| "service_step ops fo alive SwarmEnded s = (Some (Err ''Swarm Event invalid!''), s)"
| "service_step ops fo alive CommandsClosed s = (Some (Err ''Command invalid!''), s)"

fun service_run ::
  "('w, 'f) swarm_ops \<Rightarrow> 'f filter_ops \<Rightarrow> (nat \<Rightarrow> bool) \<Rightarrow> 'f service_input list \<Rightarrow> ('w, 'f) ursa_service \<Rightarrow>
     (unit, string) result option \<times> ('w, 'f) ursa_service" where
  "service_run ops fo alive [] s = (None, s)"
| "service_run ops fo alive (i # is) s =
     (case service_step ops fo alive i s of
        (None, s1) \<Rightarrow> service_run ops fo alive is s1
      | (Some r, s1) \<Rightarrow> (Some r, s1))"

end
