(* ===== verification/Network_Setup.thy ===== *)
theory Network_Setup
  imports Network Text
begin

text \<open>
  How the network service comes up: \<open>config.rs\<close>, \<open>gossipsub.rs\<close> and \<open>transport.rs\<close> of
  \<open>ursa-network\<close>, \<open>Behaviour::new\<close> and the first half of \<open>UrsaService::new\<close>. The constructors of
  libp2p that can fail are fields of \<open>setup_ops\<close>.
\<close>

section \<open>Configuration\<close>

record network_config =
  nc_mdns :: bool
  nc_relay_server :: bool
  nc_autonat :: bool
  nc_relay_client :: bool
  nc_bootstrapper :: bool
  nc_swarm_addrs :: "net_addr list"
  nc_bootstrap_nodes :: "net_addr list"
  nc_database_path :: string
  nc_identity :: string
  nc_keystore_path :: string
  nc_tracker :: string
  nc_kad_replication_factor :: nat

definition net_config_default :: network_config where
  "net_config_default =
     \<lparr>nc_mdns = False, nc_relay_server = True, nc_autonat = True, nc_relay_client = True, nc_bootstrapper = False,
      nc_swarm_addrs =
        [[NetProto ''ip4/0.0.0.0'', NetTcp 6009],
         [NetProto ''ip4/0.0.0.0'', NetUdp 4890, NetProto ''quic-v1'']],
      nc_bootstrap_nodes =
        [[NetProto ''ip4/159.223.211.234'', NetTcp 6009, P2p ''12D3KooWDji7xMLia6GAsyr4oiEFD2dd3zSryqNhfxU3Grzs1r9p''],
         [NetProto ''ip4/146.190.232.131'', NetTcp 6009, P2p ''12D3KooWGw8vCj9XayJDMXUiox6pCUFm7oVuWkDJeE2H9SDQVEcM'']],
      nc_database_path = ''~/.ursa/data/ursa_db'', nc_identity = ''default'', nc_keystore_path = ''~/.ursa/keystore'',
      nc_tracker = ''https://tracker.ursa.earth/register'', nc_kad_replication_factor = 8\<rparr>"

text \<open>
  The attributes \<open>serde(default = ...)\<close>: a field that the file leaves out has the default of
  that field.
\<close>

record network_section =
  ns_mdns :: "bool option"
  ns_relay_server :: "bool option"
  ns_autonat :: "bool option"
  ns_relay_client :: "bool option"
  ns_bootstrapper :: "bool option"
  ns_swarm_addrs :: "net_addr list option"
  ns_bootstrap_nodes :: "net_addr list option"
  ns_database_path :: "string option"
  ns_identity :: "string option"
  ns_keystore_path :: "string option"
  ns_tracker :: "string option"
  ns_kad_replication_factor :: "nat option"

definition net_config_of :: "network_section \<Rightarrow> network_config" where
  "net_config_of f =
     (let d = net_config_default in
      \<lparr>nc_mdns = unwrap_or (nc_mdns d) (ns_mdns f),
       nc_relay_server = unwrap_or (nc_relay_server d) (ns_relay_server f),
       nc_autonat = unwrap_or (nc_autonat d) (ns_autonat f),
       nc_relay_client = unwrap_or (nc_relay_client d) (ns_relay_client f),
       nc_bootstrapper = unwrap_or (nc_bootstrapper d) (ns_bootstrapper f),
       nc_swarm_addrs = unwrap_or (nc_swarm_addrs d) (ns_swarm_addrs f),
       nc_bootstrap_nodes = unwrap_or (nc_bootstrap_nodes d) (ns_bootstrap_nodes f),
       nc_database_path = unwrap_or (nc_database_path d) (ns_database_path f),
       nc_identity = unwrap_or (nc_identity d) (ns_identity f),
       nc_keystore_path = unwrap_or (nc_keystore_path d) (ns_keystore_path f),
       nc_tracker = unwrap_or (nc_tracker d) (ns_tracker f),
       nc_kad_replication_factor = unwrap_or (nc_kad_replication_factor d) (ns_kad_replication_factor f)\<rparr>)"

section \<open>Gossipsub\<close>

record gossip_params =
  gp_prefix :: string
  gp_mesh_n :: nat
  gp_mesh_n_low :: nat
  gp_mesh_n_high :: nat
  gp_gossip_lazy :: nat
  gp_max_transmit_size :: nat
  gp_strict :: bool
  gp_mesh_outbound_min :: nat

datatype transport = Quic | TcpIp | RelayClient | OrTransport transport transport | Upgraded transport

record behaviour =
  bh_gossip :: gossip_params
  bh_identify :: "string \<times> string"
  bh_request_timeout :: nat
  bh_autonat :: "nat option"
  bh_relay_server :: bool
  bh_relay_client :: bool
  bh_dcutr :: bool
  bh_mdns :: bool
  bh_kad_protocol :: string
  bh_replication :: nat

record connection_limits =
  cl_max_pending_incoming :: "nat option"
  cl_max_pending_outgoing :: "nat option"
  cl_max_established_incoming :: "nat option"
  cl_max_established_outgoing :: "nat option"
  cl_max_established_per_peer :: "nat option"

record 'w setup_ops =
  su_version :: string
  su_gossip_build :: "gossip_params \<Rightarrow> (unit, string) result"
  su_gossip_new :: "gossip_params \<Rightarrow> (unit, string) result"
  su_peer_score :: "gossip_params \<Rightarrow> (unit, string) result"
  su_noise_keys :: "(unit, string) result"
  su_mdns_new :: "(unit, string) result"
  su_from_multihash :: "string \<Rightarrow> peer_id option"
  su_behaviour :: "behaviour \<Rightarrow> 'w"
  su_kad_bootstrap :: "'w \<Rightarrow> (unit, string) result \<times> 'w"
  su_swarm :: "transport \<Rightarrow> connection_limits \<Rightarrow> 'w \<Rightarrow> 'w"

text \<open>\<open>usize\<close> subtraction in the last but one line of the parameters: \<open>mesh_n / 2\<close> is 4 there.\<close>

definition gossip_params_of :: "network_config \<Rightarrow> gossip_params" where
  "gossip_params_of config =
     (let is_bootstrapper = nc_bootstrapper config;
          mesh_n = if is_bootstrapper then 0 else 8;
          mesh_n_low = if is_bootstrapper then 0 else 4;
          mesh_n_high = if is_bootstrapper then 0 else 12;
          gossip_lazy = mesh_n;
          mesh_outbound_min = if is_bootstrapper then 0 else u64_sub (mesh_n div 2) 1;
          max_transmit_size = 4 * 1024 * 1024
      in \<lparr>gp_prefix = ''ursa/gossipsub/0.0.1'', gp_mesh_n = mesh_n, gp_mesh_n_low = mesh_n_low,
          gp_mesh_n_high = mesh_n_high, gp_gossip_lazy = gossip_lazy, gp_max_transmit_size = max_transmit_size,
          gp_strict = True, gp_mesh_outbound_min = mesh_outbound_min\<rparr>)"

definition message_id :: "(bytes \<Rightarrow> u64) \<Rightarrow> bytes \<Rightarrow> string" where
  "message_id hasher data = dec (unat (hasher data))"

definition build_gossipsub :: "'w setup_ops \<Rightarrow> network_config \<Rightarrow> (gossip_params, string) result" where
  "build_gossipsub su config =
     (let p = gossip_params_of config in
      bind_res (unwrap (su_gossip_build su p)) (\<lambda>_.
      bind_res (unwrap (su_gossip_new su p)) (\<lambda>_. Ok p)))"

section \<open>Transport\<close>

definition build_transport :: "'w setup_ops \<Rightarrow> network_config \<Rightarrow> bool \<Rightarrow> (transport, string) result" where
  "build_transport su config relay_transport =
     bind_res (unwrap (su_noise_keys su)) (\<lambda>_.
       (let tcp = (if relay_transport then Upgraded (OrTransport TcpIp RelayClient) else Upgraded TcpIp)
        in Ok (OrTransport Quic tcp)))"

section \<open>Behaviour\<close>

definition ursa_agent :: "string \<Rightarrow> string" where
  "ursa_agent version = ''ursa/'' @ version"

text \<open>
  \<open>relay_client\<close> says whether one was passed in. The result is the configured protocols, the
  state of the network after bootstrapping and the peers.
\<close>

definition behaviour_new ::
  "'w setup_ops \<Rightarrow> ('w, 'f) swarm_ops \<Rightarrow> network_config \<Rightarrow> bool \<Rightarrow> (behaviour \<times> 'w \<times> peer_id list, string) result" where
  "behaviour_new su ops config relay_client =
     bind_res (build_gossipsub su config) (\<lambda>gossip.
     bind_res (unwrap (su_peer_score su gossip)) (\<lambda>_.
     bind_res (if nc_relay_client config \<and> \<not> relay_client then Panic else Ok (nc_relay_client config)) (\<lambda>dcutr.
     bind_res (if nc_mdns config then unwrap (su_mdns_new su) else Ok ()) (\<lambda>_.
     if nc_kad_replication_factor config = 0 then Panic
     else
       let b = \<lparr>bh_gossip = gossip, bh_identify = (''ipfs/0.1.0'', ursa_agent (su_version su)), bh_request_timeout = 60,
                 bh_autonat = (if nc_autonat config then Some 30 else None),
                 bh_relay_server = nc_relay_server config, bh_relay_client = relay_client, bh_dcutr = dcutr,
                 bh_mdns = nc_mdns config, bh_kad_protocol = ''/ursa/kad/0.0.1'',
                 bh_replication = nc_kad_replication_factor config\<rparr>
       in bind_res (init_bootstraps (su_from_multihash su) ops (nc_bootstrap_nodes config) (su_behaviour su b, [])) (\<lambda>(w, peers).
       (let w = (if \<not> nc_bootstrapper config \<and> nc_bootstrap_nodes config \<noteq> [] then snd (su_kad_bootstrap su w) else w)
        in Ok (b, w, peers)))))))"

section \<open>Service\<close>

definition limits :: connection_limits where
  "limits = \<lparr>cl_max_pending_incoming = Some (2 * 2 ^ 9), cl_max_pending_outgoing = Some (2 * 2 ^ 9),
     cl_max_established_incoming = Some (2 * 2 ^ 9), cl_max_established_outgoing = Some (2 * 2 ^ 9),
     cl_max_established_per_peer = Some 8\<rparr>"

definition service_new ::
  "'w setup_ops \<Rightarrow> ('w, 'f) swarm_ops \<Rightarrow> 'f filter_ops \<Rightarrow> network_config \<Rightarrow> (('w, 'f) ursa_service, string) result" where
  "service_new su ops fo config =
     (let relay = nc_relay_client config in
      bind_res (build_transport su config relay) (\<lambda>transport.
      bind_res (behaviour_new su ops config relay) (\<lambda>(b, w, peers).
        service_build ops fo (nc_bootstrap_nodes config) (nc_swarm_addrs config) peers
          (su_swarm su transport limits w))))"

section \<open>The service comes up\<close>

text \<open>The conditions that \<open>GossipsubConfigBuilder::build\<close> documents.\<close>

definition valid_mesh :: "gossip_params \<Rightarrow> bool" where
  "valid_mesh p \<longleftrightarrow> gp_mesh_outbound_min p \<le> gp_mesh_n_low p \<and> gp_mesh_n_low p \<le> gp_mesh_n p \<and>
     gp_mesh_n p \<le> gp_mesh_n_high p \<and> gp_mesh_outbound_min p * 2 \<le> gp_mesh_n p \<and> 100 \<le> gp_max_transmit_size p"

definition setup_laws :: "'w setup_ops \<Rightarrow> bool" where
  "setup_laws su \<longleftrightarrow> (\<forall>p. valid_mesh p \<longrightarrow> is_ok (su_gossip_build su p) \<and> is_ok (su_gossip_new su p)) \<and>
     (\<forall>p. is_ok (su_peer_score su p)) \<and> is_ok (su_noise_keys su)"

definition network_works :: "('w, 'f) swarm_ops \<Rightarrow> bool" where
  "network_works ops \<longleftrightarrow> (\<forall>a w. is_ok (fst (sw_dial ops a w)) \<and> is_ok (fst (sw_listen_on ops a w)))"

lemma is_ok_unwrap: "is_ok r \<Longrightarrow> bind_res (unwrap r) f = f (case r of Ok x \<Rightarrow> x)"
  by (cases r) simp_all

lemma gossip_params_valid: "valid_mesh (gossip_params_of config)"
  by (simp add: valid_mesh_def gossip_params_of_def Let_def u64_sub_def)

lemma build_gossipsub_ok: "setup_laws su \<Longrightarrow> build_gossipsub su config = Ok (gossip_params_of config)"
  using gossip_params_valid [of config] by (simp add: build_gossipsub_def setup_laws_def is_ok_unwrap Let_def)

lemma dial_all_ok: "network_works ops \<Longrightarrow> is_ok (fst (dial_all ops as w))"
proof (induction ops as w rule: dial_all.induct)
  case (2 ops a as w)
  then have "is_ok (fst (sw_dial ops a w))" by (simp add: network_works_def)
  with 2 show ?case by (cases "sw_dial ops a w"; cases "fst (sw_dial ops a w)") auto
qed simp

lemma listen_all_ok: "network_works ops \<Longrightarrow> is_ok (fst (listen_all ops as w))"
proof (induction ops as w rule: listen_all.induct)
  case (2 ops a as w)
  then have "is_ok (fst (sw_listen_on ops a w))" by (simp add: network_works_def)
  with 2 show ?case by (cases "sw_listen_on ops a w"; cases "fst (sw_listen_on ops a w)") auto
qed simp

lemma service_build_ok:
  assumes "network_works ops"
  shows "\<exists>s. service_build ops fo bs as peers w = Ok s \<and> us_peers s = peers \<and> us_bootstraps s = bs"
proof -
  obtain w1 where 1: "dial_all ops bs w = (Ok (), w1)"
    using dial_all_ok [OF assms, of bs w] by (cases "dial_all ops bs w") (auto simp: is_ok_iff)
  obtain w2 where 2: "listen_all ops as w1 = (Ok (), w2)"
    using listen_all_ok [OF assms, of "as" w1] by (cases "listen_all ops as w1") (auto simp: is_ok_iff)
  show ?thesis by (simp add: service_build_def 1 2 Let_def split: prod.split)
qed

lemma peers_insert_set [simp]: "set (snd (peers_insert p ps)) = insert p (set ps)"
  by (auto simp: peers_insert_def)

text \<open>The addresses of the bootstrap nodes that end in \<open>p2p\<close> name peer ids, and the peers that they name.\<close>

definition bootstraps_named :: "'w setup_ops \<Rightarrow> network_config \<Rightarrow> bool" where
  "bootstraps_named su config \<longleftrightarrow>
     (\<forall>a \<in> set (nc_bootstrap_nodes config). \<forall>mh. addr_multihash a = Some mh \<longrightarrow> su_from_multihash su mh \<noteq> None)"

definition bootstrap_peers :: "'w setup_ops \<Rightarrow> network_config \<Rightarrow> peer_id set" where
  "bootstrap_peers su config =
     {p. \<exists>a \<in> set (nc_bootstrap_nodes config). \<exists>mh. addr_multihash a = Some mh \<and> su_from_multihash su mh = Some p}"

lemma init_bootstraps_peers:
  "if \<forall>a \<in> set as. \<forall>mh. addr_multihash a = Some mh \<longrightarrow> from mh \<noteq> None
   then \<exists>w' ps'. init_bootstraps from ops as (w, ps) = Ok (w', ps') \<and>
     set ps' = set ps \<union> {p. \<exists>a \<in> set as. \<exists>mh. addr_multihash a = Some mh \<and> from mh = Some p}
   else init_bootstraps from ops as (w, ps) = Panic"
proof (induction as arbitrary: w ps)
  case (Cons a as)
  show ?case
  proof (cases "addr_multihash a")
    case None
    with Cons.IH [of w ps] show ?thesis by (simp split: if_splits)
  next
    case (Some mh)
    show ?thesis
    proof (cases "from mh")
      case (Some p)
      then have "{q. \<exists>x \<in> set (a # as). \<exists>mh. addr_multihash x = Some mh \<and> from mh = Some q} =
          insert p {q. \<exists>x \<in> set as. \<exists>mh. addr_multihash x = Some mh \<and> from mh = Some q}"
        using \<open>addr_multihash a = Some mh\<close> by auto
      with Some \<open>addr_multihash a = Some mh\<close> Cons.IH [of "sw_kad_add_address ops p a w" "snd (peers_insert p ps)"]
      show ?thesis by (simp split: if_splits)
    qed (use Some in auto)
  qed
qed simp

lemma behaviour_new_bootstraps:
  assumes "setup_laws su" and "nc_kad_replication_factor config \<noteq> 0" and "nc_mdns config \<longrightarrow> is_ok (su_mdns_new su)"
  shows "\<exists>b w0 f. behaviour_new su ops config (nc_relay_client config) =
    bind_res (init_bootstraps (su_from_multihash su) ops (nc_bootstrap_nodes config) (w0, [])) (\<lambda>(w, peers). Ok (b, f w, peers))"
proof -
  have "is_ok (su_peer_score su p)" for p using assms(1) by (simp add: setup_laws_def)
  moreover have "(if nc_mdns config then unwrap (su_mdns_new su) else Ok ()) = (Ok () :: (unit, string) result)"
    using assms(3) by (cases "su_mdns_new su") auto
  ultimately show ?thesis
    using assms(2) by (simp add: behaviour_new_def build_gossipsub_ok [OF assms(1)] is_ok_unwrap Let_def split del: if_split)
      (intro exI, rule refl)
qed

lemma behaviour_new_ok:
  assumes "setup_laws su" and "nc_kad_replication_factor config \<noteq> 0" and "nc_mdns config \<longrightarrow> is_ok (su_mdns_new su)"
    and "bootstraps_named su config"
  shows "\<exists>b w peers. behaviour_new su ops config (nc_relay_client config) = Ok (b, w, peers) \<and>
    set peers = bootstrap_peers su config"
proof -
  obtain b w0 f where new: "behaviour_new su ops config (nc_relay_client config) =
      bind_res (init_bootstraps (su_from_multihash su) ops (nc_bootstrap_nodes config) (w0, [])) (\<lambda>(w, peers). Ok (b, f w, peers))"
    using behaviour_new_bootstraps [OF assms(1-3), of ops] by blast
  obtain w peers where "init_bootstraps (su_from_multihash su) ops (nc_bootstrap_nodes config) (w0, []) = Ok (w, peers)"
    "set peers = bootstrap_peers su config"
    using init_bootstraps_peers [of "nc_bootstrap_nodes config" "su_from_multihash su" ops w0 "[]"] assms(4)
    by (auto simp: bootstraps_named_def bootstrap_peers_def)
  with new show ?thesis by simp
qed

lemma behaviour_new_panics:
  assumes "setup_laws su"
    and "nc_kad_replication_factor config = 0 \<or> nc_mdns config \<and> \<not> is_ok (su_mdns_new su) \<or> \<not> bootstraps_named su config"
  shows "behaviour_new su ops config (nc_relay_client config) = Panic"
proof (cases "nc_kad_replication_factor config = 0 \<or> nc_mdns config \<and> \<not> is_ok (su_mdns_new su)")
  case True
  have "is_ok (su_peer_score su p)" for p using assms(1) by (simp add: setup_laws_def)
  with True show ?thesis
    by (cases "su_mdns_new su") (auto simp: behaviour_new_def build_gossipsub_ok [OF assms(1)] is_ok_unwrap)
next
  case False
  then obtain b w0 f where new: "behaviour_new su ops config (nc_relay_client config) =
      bind_res (init_bootstraps (su_from_multihash su) ops (nc_bootstrap_nodes config) (w0, [])) (\<lambda>(w, peers). Ok (b, f w, peers))"
    using behaviour_new_bootstraps [OF assms(1), of config ops] by auto
  have "init_bootstraps (su_from_multihash su) ops (nc_bootstrap_nodes config) (w0, []) = Panic"
    using init_bootstraps_peers [of "nc_bootstrap_nodes config" "su_from_multihash su" ops w0 "[]"] assms(2) False
    unfolding bootstraps_named_def by (meson)
  with new show ?thesis by simp
qed

text \<open>
  Whatever the configuration says, the mesh sizes chosen for gossip satisfy the
  inequalities that the library checks, so building gossipsub never panics, for bootstrap
  nodes and for others.\<close>

theorem gossipsub_always_builds:
  assumes "setup_laws su"
  shows "\<exists>p. build_gossipsub su config = Ok p \<and> gp_mesh_outbound_min p \<le> gp_mesh_n_low p \<and>
    gp_mesh_n_low p \<le> gp_mesh_n p \<and> gp_mesh_n p \<le> gp_mesh_n_high p \<and>
    2 * gp_mesh_outbound_min p \<le> gp_mesh_n p \<and> (0 < gp_mesh_n p \<longleftrightarrow> \<not> nc_bootstrapper config)"
  using build_gossipsub_ok [OF assms, of config] gossip_params_valid [of config]
  by (simp add: valid_mesh_def) (simp add: gossip_params_of_def Let_def)

lemma build_transport_ok: "setup_laws su \<Longrightarrow> \<exists>t. build_transport su config relay = Ok t"
  by (auto simp: build_transport_def setup_laws_def is_ok_unwrap Let_def)

lemma service_new_ok:
  assumes "setup_laws su" and "network_works ops"
    and "nc_kad_replication_factor config \<noteq> 0" and "nc_mdns config \<longrightarrow> is_ok (su_mdns_new su)" and "bootstraps_named su config"
  shows "\<exists>s. service_new su ops fo config = Ok s \<and> set (us_peers s) = bootstrap_peers su config"
proof -
  obtain t where t: "build_transport su config (nc_relay_client config) = Ok t" using build_transport_ok [OF assms(1)] by blast
  obtain b w peers where "behaviour_new su ops config (nc_relay_client config) = Ok (b, w, peers)"
    and "set peers = bootstrap_peers su config"
    using behaviour_new_ok [OF assms(1), of config ops] assms(3-5) by blast
  moreover obtain s where "service_build ops fo (nc_bootstrap_nodes config) (nc_swarm_addrs config) peers
      (su_swarm su t limits w) = Ok s" and "us_peers s = peers"
    using service_build_ok [OF assms(2)] by blast
  ultimately show ?thesis using t by (simp add: service_new_def Let_def)
qed

text \<open>
  C38. The service comes up on a working network exactly when the replication factor is not
  zero, mDNS, if it is asked for, can be started, and every address of a bootstrap node that ends in a \<open>p2p\<close>
  part names a peer id there; otherwise the node panics. A relay client
  without autonat is no obstacle, and the peers known at first are those named in the
  addresses of the bootstrap nodes.\<close>

theorem service_starts_iff:
  assumes "setup_laws su" and "network_works ops"
  shows "if nc_kad_replication_factor config \<noteq> 0 \<and> (nc_mdns config \<longrightarrow> is_ok (su_mdns_new su)) \<and>
      (\<forall>a \<in> set (nc_bootstrap_nodes config). \<forall>mh. addr_multihash a = Some mh \<longrightarrow> su_from_multihash su mh \<noteq> None)
    then (\<exists>s. service_new su ops fo config = Ok s \<and>
      set (us_peers s) = {p. \<exists>a \<in> set (nc_bootstrap_nodes config). \<exists>mh. addr_multihash a = Some mh \<and> su_from_multihash su mh = Some p})
    else service_new su ops fo config = Panic"
proof -
  obtain t where t: "build_transport su config (nc_relay_client config) = Ok t"
    using build_transport_ok [OF assms(1)] by blast
  show ?thesis
  proof (cases "nc_kad_replication_factor config \<noteq> 0 \<and> (nc_mdns config \<longrightarrow> is_ok (su_mdns_new su)) \<and> bootstraps_named su config")
    case True
    then show ?thesis using service_new_ok [OF assms, of config fo] by (simp add: bootstraps_named_def bootstrap_peers_def)
  next
    case False
    then have "service_new su ops fo config = Panic"
      using behaviour_new_panics [OF assms(1), of config ops] t by (auto simp: service_new_def Let_def)
    then show ?thesis using False unfolding bootstraps_named_def by meson
  qed
qed

section \<open>Witnesses\<close>

definition setup0 :: "'w \<Rightarrow> 'w setup_ops" where
  "setup0 w = \<lparr>su_version = ''0.1.0'', su_gossip_build = (\<lambda>p. if valid_mesh p then Ok () else Err []),
     su_gossip_new = (\<lambda>_. Ok ()), su_peer_score = (\<lambda>_. Ok ()), su_noise_keys = Ok (), su_mdns_new = Err [], su_from_multihash = Some,
     su_behaviour = (\<lambda>_. w), su_kad_bootstrap = (\<lambda>w. (Ok (), w)), su_swarm = (\<lambda>_ _ w. w)\<rparr>"

lemma setup0_laws: "setup_laws (setup0 w)"
  by (simp add: setup_laws_def setup0_def)

theorem gossipsub_always_builds_witness:
  "\<exists>p. build_gossipsub (setup0 ()) net_config_default = Ok p \<and> 0 < gp_mesh_n p"
  using gossipsub_always_builds [OF setup0_laws, of "()" net_config_default] by (auto simp: net_config_default_def)

end
