(* ===== verification/Network_Props.thy ===== *)
theory Network_Props
  imports Network_Setup
begin

text \<open>
  What the network service guarantees: callers that wait for a block always have an
  outstanding query and are answered when it completes, requests are answered by their own
  response, peers are announced once, and the summaries exclude only peers that do not have
  the content.
\<close>

section \<open>Laws of the swarm\<close>

text \<open>
  libp2p hands out query and request numbers that it has not used before. \<open>qi\<close> and \<open>ri\<close>
  are the sets of numbers used so far.
\<close>

definition keeps_ids :: "('w \<Rightarrow> nat set) \<Rightarrow> ('w \<Rightarrow> nat set) \<Rightarrow> ('w \<Rightarrow> 'w) \<Rightarrow> bool" where
  "keeps_ids qi ri f \<longleftrightarrow> (\<forall>w. qi (f w) = qi w \<and> ri (f w) = ri w)"

definition fresh_ids :: "('w, 'f) swarm_ops \<Rightarrow> ('w \<Rightarrow> nat set) \<Rightarrow> ('w \<Rightarrow> nat set) \<Rightarrow> bool" where
  "fresh_ids ops qi ri \<longleftrightarrow>
     (\<forall>c ps cs w. fst (sw_sync ops c ps cs w) \<notin> qi w \<and>
        qi (snd (sw_sync ops c ps cs w)) = insert (fst (sw_sync ops c ps cs w)) (qi w) \<and>
        ri (snd (sw_sync ops c ps cs w)) = ri w) \<and>
     (\<forall>p r w. fst (sw_send_request ops p r w) \<notin> ri w \<and>
        ri (snd (sw_send_request ops p r w)) = insert (fst (sw_send_request ops p r w)) (ri w) \<and>
        qi (snd (sw_send_request ops p r w)) = qi w) \<and>
     (\<forall>ch r. keeps_ids qi ri (\<lambda>w. snd (sw_send_response ops ch r w))) \<and>
     (\<forall>p c. keeps_ids qi ri (sw_graphsync_request ops p c)) \<and>
     (\<forall>a. keeps_ids qi ri (\<lambda>w. snd (sw_dial ops a w))) \<and>
     (\<forall>a. keeps_ids qi ri (\<lambda>w. snd (sw_listen_on ops a w))) \<and>
     (\<forall>t. keeps_ids qi ri (\<lambda>w. snd (sw_subscribe ops t w))) \<and>
     (\<forall>t. keeps_ids qi ri (\<lambda>w. snd (sw_unsubscribe ops t w))) \<and>
     (\<forall>t d. keeps_ids qi ri (\<lambda>w. snd (sw_publish ops t d w))) \<and>
     (\<forall>p. keeps_ids qi ri (sw_add_explicit_peer ops p)) \<and>
     (\<forall>p a. keeps_ids qi ri (sw_bitswap_add_address ops p a) \<and> keeps_ids qi ri (sw_kad_add_address ops p a) \<and>
        keeps_ids qi ri (sw_reqres_add_address ops p a) \<and> keeps_ids qi ri (sw_graphsync_add_address ops p a))"

section \<open>Callers that wait for a block\<close>

definition svc_inv :: "('w \<Rightarrow> nat set) \<Rightarrow> ('w, 'f) ursa_service \<Rightarrow> bool" where
  "svc_inv qi s \<longleftrightarrow>
     hm_inv (us_bitswap_queries s) \<and> hm_inv (us_response_channels s) \<and>
     (\<forall>q c. hm_get (us_bitswap_queries s) q = Some c \<longrightarrow> q \<in> qi (us_swarm s)) \<and>
     (\<forall>c chans. hm_get (us_response_channels s) c = Some chans \<longrightarrow>
        (\<exists>q. hm_get (us_bitswap_queries s) q = Some c))"

text \<open>A caller with channel \<open>ch\<close> that asked for \<open>c\<close>: answered, gone, or waiting.\<close>

definition tended :: "(nat \<Rightarrow> bool) \<Rightarrow> cid \<Rightarrow> nat \<Rightarrow> ('w, 'f) ursa_service \<Rightarrow> bool" where
  "tended alive c ch s \<longleftrightarrow>
     ch \<in> fst ` set (us_replies s) \<or> \<not> alive ch \<or>
     (\<exists>chans. hm_get (us_response_channels s) c = Some chans \<and> ch \<in> set chans)"

text \<open>What a handler must leave alone so that both notions carry over.\<close>

definition quiet :: "('w \<Rightarrow> nat set) \<Rightarrow> ('w, 'f) ursa_service \<Rightarrow> ('w, 'f) ursa_service \<Rightarrow> bool" where
  "quiet qi s s' \<longleftrightarrow>
     us_bitswap_queries s' = us_bitswap_queries s \<and> us_response_channels s' = us_response_channels s \<and>
     qi (us_swarm s') = qi (us_swarm s) \<and> (\<exists>rs. us_replies s' = us_replies s @ rs)"

lemma quiet_svc_inv: "quiet qi s s' \<Longrightarrow> svc_inv qi s \<Longrightarrow> svc_inv qi s'"
  by (simp add: quiet_def svc_inv_def)

lemma quiet_tended: "quiet qi s s' \<Longrightarrow> tended alive c ch s \<Longrightarrow> tended alive c ch s'"
  by (auto simp: quiet_def tended_def)

lemma quiet_refl [simp]: "quiet qi s s"
  by (simp add: quiet_def)

lemma quiet_emit [simp]: "quiet qi s (emit_event e s') \<longleftrightarrow> quiet qi s s'"
  by (simp add: quiet_def emit_event_def)

lemma quiet_trans: "quiet qi s s' \<Longrightarrow> quiet qi s' s'' \<Longrightarrow> quiet qi s s''"
  by (auto simp: quiet_def)

lemma quiet_send: "quiet qi s s' \<Longrightarrow> quiet qi s (snd (send_oneshot alive ch v s'))"
  by (auto simp: quiet_def send_oneshot_def)

lemma quiet_send_or_fail: "quiet qi s s' \<Longrightarrow> quiet qi s (snd (send_or_fail alive ch v msg s'))"
  using quiet_send by (auto simp: send_or_fail_def Let_def case_prod_unfold)

lemma keeps_idsD: "keeps_ids qi ri f \<Longrightarrow> qi (f w) = qi w"
  by (simp add: keeps_ids_def)

lemma fresh_ids_quiet:
  assumes "fresh_ids ops qi ri"
  shows "qi (snd (sw_send_response ops n r w)) = qi w" "qi (sw_graphsync_request ops p c w) = qi w"
    "qi (snd (sw_dial ops a w)) = qi w" "qi (snd (sw_listen_on ops a w)) = qi w"
    "qi (snd (sw_subscribe ops t w)) = qi w" "qi (snd (sw_unsubscribe ops t w)) = qi w"
    "qi (snd (sw_publish ops t d w)) = qi w" "qi (sw_add_explicit_peer ops p w) = qi w"
    "qi (add_address ops p a w) = qi w" "qi (sw_kad_add_address ops p a w) = qi w"
    "qi (snd (sw_send_request ops p req w)) = qi w"
  using assms by (simp_all add: fresh_ids_def keeps_ids_def add_address_def Let_def)

text \<open>Every handler but the two of bitswap is quiet.\<close>

lemma foldl_add_address: "fresh_ids ops qi ri \<Longrightarrow> qi (foldl (\<lambda>w a. add_address ops p a w) w as) = qi w"
  by (induction as arbitrary: w) (simp_all add: fresh_ids_quiet)

lemma mdns_quiet: "fresh_ids ops qi ri \<Longrightarrow> quiet qi s (mdns_discovered ops ds s)"
proof (induction ds arbitrary: s)
  case Nil
  then show ?case by simp
next
  case (Cons d ds)
  obtain p a where d: "d = (p, a)" by (cases d)
  define s1 where "s1 = s\<lparr>us_swarm := (if fst (peers_insert p (us_peers s))
      then snd (sw_dial ops a (add_address ops p a (us_swarm s))) else add_address ops p a (us_swarm s)),
      us_peers := snd (peers_insert p (us_peers s))\<rparr>"
  have "quiet qi s s1" using Cons.prems by (simp add: quiet_def s1_def fresh_ids_quiet)
  moreover have "mdns_discovered ops (d # ds) s = mdns_discovered ops ds s1"
    by (simp add: d s1_def Let_def case_prod_unfold)
  ultimately show ?case using Cons.IH [OF Cons.prems, of s1] quiet_trans by metis
qed

lemma request_all_quiet: "fresh_ids ops qi ri \<Longrightarrow> qi (request_all ops ps r w) = qi w"
  by (induction ps arbitrary: w) (simp_all add: fresh_ids_quiet)

lemma handle_req_res_quiet:
  assumes "fresh_ids ops qi ri"
  shows "quiet qi s (snd (handle_req_res ops alive e s))"
proof (cases e)
  case (RrRequest p i r ch)
  with assms show ?thesis
    by (auto simp: handle_req_res_def Let_def case_prod_unfold quiet_def emit_event_def fresh_ids_quiet
        split: request_type.split)
next
  case (RrResponse p i r)
  then show ?thesis
    by (auto simp: handle_req_res_def quiet_def send_oneshot_def split: option.split)
qed (simp_all add: handle_req_res_def)

lemma handle_swarm_event_quiet:
  assumes ids: "fresh_ids ops qi ri" and e: "\<And>x. e \<noteq> EvBitswap x"
  shows "quiet qi s (snd (handle_swarm_event ops alive rnd e s))"
proof (cases e)
  case (EvIdentify x)
  with ids show ?thesis
    by (auto simp: handle_swarm_event_def handle_identify_def quiet_def foldl_add_address fresh_ids_quiet
        split: identify_event.split)
next
  case (EvAutonat x)
  have "quiet qi s (s\<lparr>us_swarm := w\<rparr>)" if "sw_listen_on ops a (us_swarm s) = (r, w)" for a r w
    using fresh_ids_quiet(4) [OF ids, of a "us_swarm s"] that by (simp add: quiet_def)
  with EvAutonat show ?thesis
    by (auto simp: handle_swarm_event_def handle_autonat_def Let_def
        split: autonat_event.split nat_status.split prod.split result.split)
next
  case (EvMdns x)
  with ids show ?thesis
    by (auto simp: handle_swarm_event_def handle_mdns_def mdns_quiet split: mdns_event.split)
next
  case (EvGossipsub x)
  then show ?thesis by (auto simp: handle_swarm_event_def handle_gossip_def split: gossip_in.split)
next
  case (EvPing x)
  then show ?thesis by (auto simp: handle_swarm_event_def handle_ping_def split: ping_event.split)
next
  case (EvRequestResponse x)
  with ids show ?thesis by (simp add: handle_swarm_event_def handle_req_res_quiet)
next
  case (ConnectionEstablished p)
  then show ?thesis by (simp add: handle_swarm_event_def Let_def case_prod_unfold) (simp add: quiet_def)
next
  case (ConnectionClosed p n)
  then show ?thesis by (simp add: handle_swarm_event_def) (simp add: quiet_def)
qed (use e in \<open>simp_all add: handle_swarm_event_def handle_kad_def handle_graphsync_def\<close>)

lemma handle_command_quiet:
  assumes ids: "fresh_ids ops qi ri" and cmd: "\<And>c ch. cmd \<noteq> GetBitswap c ch"
  shows "quiet qi s (snd (handle_command ops fo alive cmd s))"
proof (cases cmd)
  case (Put c ch)
  have "quiet qi s (s\<lparr>us_swarm := request_all ops ps r (request_all ops ps' r' (us_swarm s)), us_cached_content := x\<rparr>)"
    for ps r ps' r' x using ids by (simp add: quiet_def request_all_quiet)
  with Put show ?thesis by (simp add: handle_command_def handle_put_def Let_def quiet_send_or_fail)
next
  case (SendRequest p r ch)
  with ids show ?thesis
    by (simp add: handle_command_def Let_def case_prod_unfold) (simp add: quiet_def fresh_ids_quiet)
next
  case (GossipsubMessage p m)
  have w: "qi w' = qi (us_swarm s) \<Longrightarrow> quiet qi s (s\<lparr>us_swarm := w'\<rparr>)" for w' by (simp add: quiet_def)
  show ?thesis
    by (cases m) (simp_all add: GossipsubMessage handle_command_def handle_gossipsub_message_def Let_def
        case_prod_unfold behaviour_publish_def quiet_send_or_fail w fresh_ids_quiet [OF ids])
qed (use cmd in \<open>simp_all add: handle_command_def quiet_send_or_fail\<close>)

text \<open>The bitswap handlers.\<close>

lemma answer_all_replies:
  "us_replies (answer_all alive v chs s) = us_replies s @ map (\<lambda>ch. (ch, v)) (filter alive chs)"
  by (induction chs arbitrary: s) (simp_all add: send_oneshot_def)

lemma answer_all_keys:
  "fst ` set (us_replies (answer_all alive v chs s)) = fst ` set (us_replies s) \<union> {ch \<in> set chs. alive ch}"
  by (simp add: answer_all_replies image_Un image_image)

lemma answer_all_fields [simp]:
  "us_bitswap_queries (answer_all alive v chs s) = us_bitswap_queries s"
  "us_response_channels (answer_all alive v chs s) = us_response_channels s"
  "us_swarm (answer_all alive v chs s) = us_swarm s"
  by (induction chs arbitrary: s) (simp_all add: send_oneshot_def)

lemma handle_bitswap_inv:
  assumes inv: "svc_inv qi s"
  shows "svc_inv qi (snd (handle_bitswap alive e s))"
proof (cases e)
  case (BsProgress q)
  with inv show ?thesis by (simp add: handle_bitswap_def)
next
  case (BsComplete q r)
  show ?thesis
  proof (cases "hm_get (us_bitswap_queries s) q")
    case None
    with inv BsComplete show ?thesis by (simp add: handle_bitswap_def)
  next
    case (Some c)
    let ?qs = "hm_remove q (us_bitswap_queries s)"
    have other: "\<exists>q'. hm_get ?qs q' = Some c'" if w: "hm_get (us_response_channels s) c' = Some chs" "c' \<noteq> c" for c' chs
    proof -
      obtain q' where q': "hm_get (us_bitswap_queries s) q' = Some c'"
        using inv w(1) unfolding svc_inv_def by blast
      then have "q' \<noteq> q" using Some w(2) by auto
      with q' show ?thesis by (auto simp: hm_get_remove)
    qed
    have dom: "hm_get ?qs q' = Some c' \<Longrightarrow> q' \<in> qi (us_swarm s)" for q' c'
      using inv by (auto simp: svc_inv_def hm_get_remove split: if_splits)
    have k: "hm_inv ?qs" "hm_inv (us_response_channels s)" using inv by (simp_all add: svc_inv_def)
    show ?thesis
    proof (cases "hm_get (us_response_channels s) c")
      case None
      then have "\<exists>q'. hm_get ?qs q' = Some c'" if "hm_get (us_response_channels s) c' = Some chs" for c' chs
        using other [OF that] that by (cases "c' = c") auto
      with k dom None Some BsComplete show ?thesis by (simp add: handle_bitswap_def svc_inv_def)
    next
      case chans: (Some chans)
      have "\<exists>q'. hm_get ?qs q' = Some c'"
        if "hm_get (hm_remove c (us_response_channels s)) c' = Some chs" for c' chs
        using other that by (metis hm_get_remove option.distinct(1))
      with k dom chans Some BsComplete show ?thesis by (simp add: handle_bitswap_def svc_inv_def)
    qed
  qed
qed

lemma handle_bitswap_tended:
  assumes "tended alive c ch s"
  shows "tended alive c ch (snd (handle_bitswap alive e s))"
proof (cases e)
  case (BsComplete q r)
  show ?thesis
  proof (cases "hm_get (us_bitswap_queries s) q")
    case None
    with assms BsComplete show ?thesis by (simp add: handle_bitswap_def)
  next
    case (Some c')
    show ?thesis
    proof (cases "hm_get (us_response_channels s) c'")
      case None
      with assms Some BsComplete show ?thesis by (simp add: handle_bitswap_def tended_def)
    next
      case chans: (Some chans)
      with assms Some BsComplete show ?thesis
        by (cases "c = c'") (auto simp: handle_bitswap_def tended_def answer_all_keys hm_get_remove)
    qed
  qed
qed (use assms in \<open>simp add: handle_bitswap_def\<close>)

lemma get_bitswap_cases:
  obtains (none) r s' where "us_peers s = []" "handle_get_bitswap ops fo alive c ch s = (r, s')" "quiet qi s s'"
      "alive ch \<Longrightarrow> ch \<in> fst ` set (us_replies s')"
  | (query) q w chans s' where "us_peers s \<noteq> []"
      "sw_sync ops c (likely_peers fo c s) [c] (us_swarm s) = (q, w)"
      "handle_get_bitswap ops fo alive c ch s = (Ok (), s')"
      "us_response_channels s' = hm_insert c (chans @ [ch]) (us_response_channels s)"
      "chans = (case hm_get (us_response_channels s) c of Some x \<Rightarrow> x | None \<Rightarrow> [])"
      "us_bitswap_queries s' = hm_insert q c (us_bitswap_queries s)" "us_swarm s' = w" "us_replies s' = us_replies s"
proof (cases "us_peers s = []")
  case True
  let ?r = "send_or_fail alive ch
      (RUnit (Err ''There were no peers provided and the block does not exist in local store''))
      ''Failed to get a bitswap block!'' s"
  have "handle_get_bitswap ops fo alive c ch s = (fst ?r, snd ?r)" using True by (simp add: handle_get_bitswap_def)
  moreover have "quiet qi s (snd ?r)" by (rule quiet_send_or_fail) simp
  moreover have "alive ch \<Longrightarrow> ch \<in> fst ` set (us_replies (snd ?r))" by (simp add: send_or_fail_def send_oneshot_def Let_def)
  ultimately show thesis using none True by blast
next
  case False
  obtain q w where sync: "sw_sync ops c (likely_peers fo c s) [c] (us_swarm s) = (q, w)"
    by (cases "sw_sync ops c (likely_peers fo c s) [c] (us_swarm s)")
  define chans where "chans = (case hm_get (us_response_channels s) c of Some x \<Rightarrow> x | None \<Rightarrow> [])"
  define s' where "s' = emit_event (BitswapWant c q) (s\<lparr>us_response_channels := hm_insert c (chans @ [ch]) (us_response_channels s),
      us_swarm := w, us_bitswap_queries := hm_insert q c (us_bitswap_queries s)\<rparr>)"
  have lp: "likely_peers fo c (s\<lparr>us_response_channels := x\<rparr>) = likely_peers fo c s" for x by (simp add: likely_peers_def)
  have "handle_get_bitswap ops fo alive c ch s = (Ok (), s')"
    using False sync
    by (auto simp: handle_get_bitswap_def sync_block_def Let_def lp s'_def chans_def split: option.split)
  then show thesis using query [OF False sync] chans_def by (simp add: s'_def emit_event_def)
qed

lemma get_bitswap_inv:
  assumes ids: "fresh_ids ops qi ri" and inv: "svc_inv qi s"
  shows "svc_inv qi (snd (handle_get_bitswap ops fo alive c ch s))"
proof (cases rule: get_bitswap_cases [of s ops fo alive c ch qi])
  case (none r s')
  then show ?thesis using inv quiet_svc_inv by auto
next
  case (query q w chans s')
  have new: "q \<notin> qi (us_swarm s)" and qi: "qi w = insert q (qi (us_swarm s))"
    using ids query(2) unfolding fresh_ids_def by (metis fst_conv, metis fst_conv snd_conv)
  have "hm_get (us_bitswap_queries s) q = None"
    using inv new by (cases "hm_get (us_bitswap_queries s) q") (auto simp: svc_inv_def)
  then have keep: "hm_get (us_bitswap_queries s) q' = Some c' \<Longrightarrow> hm_get (us_bitswap_queries s') q' = Some c'" for q' c'
    using query(6) by (auto simp: hm_get_insert)
  have "\<exists>q'. hm_get (us_bitswap_queries s') q' = Some c'" if "hm_get (us_response_channels s') c' = Some x" for c' x
  proof (cases "c' = c")
    case True
    then show ?thesis using query(6) by (auto simp: hm_get_insert)
  next
    case False
    then have "hm_get (us_response_channels s) c' = Some x" using that query(4) by (simp add: hm_get_insert)
    then obtain q' where "hm_get (us_bitswap_queries s) q' = Some c'" using inv unfolding svc_inv_def by blast
    then show ?thesis using keep by blast
  qed
  moreover have "hm_inv (us_bitswap_queries s')" "hm_inv (us_response_channels s')"
    using inv query(4,6) by (simp_all add: svc_inv_def)
  moreover have "hm_get (us_bitswap_queries s') q' = Some c' \<Longrightarrow> q' \<in> qi (us_swarm s')" for q' c'
    using inv query(6,7) qi by (auto simp: svc_inv_def hm_get_insert split: if_splits)
  ultimately show ?thesis using query(3) unfolding svc_inv_def by simp
qed

lemma get_bitswap_tended:
  "tended alive c ch (snd (handle_get_bitswap ops fo alive c ch s))"
  "tended alive c' ch' s \<Longrightarrow> tended alive c' ch' (snd (handle_get_bitswap ops fo alive c ch s))"
proof -
  show "tended alive c ch (snd (handle_get_bitswap ops fo alive c ch s))"
    by (cases rule: get_bitswap_cases [of s ops fo alive c ch "\<lambda>_. {}"]) (auto simp: tended_def)
  assume t: "tended alive c' ch' s"
  show "tended alive c' ch' (snd (handle_get_bitswap ops fo alive c ch s))"
  proof (cases rule: get_bitswap_cases [of s ops fo alive c ch "\<lambda>_. {}"])
    case (none r s')
    then show ?thesis using t quiet_tended by auto
  next
    case (query q w chans s')
    with t show ?thesis by (auto simp: tended_def hm_get_insert)
  qed
qed

section \<open>Runs of the service\<close>

lemma service_step_inv:
  assumes ids: "fresh_ids ops qi ri" and inv: "svc_inv qi s"
  shows "svc_inv qi (snd (service_step ops fo alive i s))"
proof (cases i)
  case (InEvent e rnd)
  have "svc_inv qi (snd (handle_swarm_event ops alive rnd e s))"
  proof (cases "\<exists>x. e = EvBitswap x")
    case True
    then show ?thesis using handle_bitswap_inv [OF inv] by (auto simp: handle_swarm_event_def)
  next
    case False
    then show ?thesis using quiet_svc_inv [OF handle_swarm_event_quiet [OF ids] inv] by blast
  qed
  with InEvent show ?thesis by (auto split: prod.split result.split)
next
  case (InCommand cmd)
  have "svc_inv qi (snd (handle_command ops fo alive cmd s))"
  proof (cases "\<exists>c ch. cmd = GetBitswap c ch")
    case True
    then show ?thesis using get_bitswap_inv [OF ids inv] by (auto simp: handle_command_def)
  next
    case False
    then show ?thesis using quiet_svc_inv [OF handle_command_quiet [OF ids] inv] by blast
  qed
  with InCommand show ?thesis by (auto split: prod.split result.split)
qed (use inv in simp_all)

lemma service_step_tended:
  assumes ids: "fresh_ids ops qi ri" and t: "tended alive c ch s \<or> i = InCommand (GetBitswap c ch)"
  shows "tended alive c ch (snd (service_step ops fo alive i s))"
proof (cases i)
  case (InEvent e rnd)
  have "tended alive c ch (snd (handle_swarm_event ops alive rnd e s))"
  proof (cases "\<exists>x. e = EvBitswap x")
    case True
    then show ?thesis using handle_bitswap_tended t InEvent by (auto simp: handle_swarm_event_def)
  next
    case False
    then show ?thesis using quiet_tended [OF handle_swarm_event_quiet [OF ids]] t InEvent by blast
  qed
  with InEvent show ?thesis by (auto split: prod.split result.split)
next
  case (InCommand cmd)
  have "tended alive c ch (snd (handle_command ops fo alive cmd s))"
  proof (cases "\<exists>c ch. cmd = GetBitswap c ch")
    case True
    then show ?thesis using get_bitswap_tended t InCommand by (auto simp: handle_command_def)
  next
    case False
    then show ?thesis using quiet_tended [OF handle_command_quiet [OF ids]] t InCommand by blast
  qed
  with InCommand show ?thesis by (auto split: prod.split result.split)
qed (use t in simp_all)

lemma service_run_inv:
  "fresh_ids ops qi ri \<Longrightarrow> svc_inv qi s \<Longrightarrow> svc_inv qi (snd (service_run ops fo alive is s))"
proof (induction "is" arbitrary: s)
  case (Cons i "is")
  have "svc_inv qi (snd (service_step ops fo alive i s))" by (rule service_step_inv [OF Cons.prems])
  with Cons show ?case by (auto split: prod.split option.split)
qed simp

lemma service_run_tended:
  assumes "fresh_ids ops qi ri" and "service_run ops fo alive is s = (None, s')"
    and "tended alive c ch s \<or> InCommand (GetBitswap c ch) \<in> set is"
  shows "tended alive c ch s'"
  using assms(2,3)
proof (induction "is" arbitrary: s)
  case (Cons i "is")
  obtain s1 where s1: "service_step ops fo alive i s = (None, s1)" "service_run ops fo alive is s1 = (None, s')"
    using Cons.prems(1) by (auto split: prod.splits option.splits)
  have "tended alive c ch s1 \<or> InCommand (GetBitswap c ch) \<in> set is"
    using service_step_tended [OF assms(1), of alive c ch s i fo] s1(1) Cons.prems(2) by auto
  with Cons.IH [OF s1(2)] show ?case .
qed simp

lemma service_build_inv: "service_build ops fo bs as ps w = Ok s \<Longrightarrow> svc_inv qi s"
  by (auto simp: service_build_def svc_inv_def Let_def case_prod_unfold split: prod.splits result.splits)

lemma service_new_inv: "service_new su ops fo cfg = Ok s \<Longrightarrow> svc_inv qi s"
  by (auto simp: service_new_def Let_def bind_res_Ok_iff dest: service_build_inv)

text \<open>
  C17. As long as the service runs, a caller that asked for a block and still listens has
  been answered or waits in the list of its content id, and then a query for that content
  id is outstanding: no caller is forgotten, whatever else the service handles in between.
\<close>

theorem bitswap_callers_never_forgotten:
  assumes "fresh_ids ops qi ri" and "service_new su ops fo cfg = Ok s0"
    and "service_run ops fo alive is s0 = (None, s)"
    and "InCommand (GetBitswap c ch) \<in> set is" and "alive ch"
  shows "ch \<in> fst ` set (us_replies s) \<or>
    (\<exists>q chans. hm_get (us_bitswap_queries s) q = Some c \<and>
       hm_get (us_response_channels s) c = Some chans \<and> ch \<in> set chans)"
proof -
  have "svc_inv qi s"
    using service_run_inv [OF assms(1) service_new_inv [OF assms(2)], of fo alive "is"] assms(3) by simp
  moreover have "tended alive c ch s" using service_run_tended [OF assms(1,3)] assms(4) by blast
  ultimately show ?thesis using assms(5) by (auto simp: tended_def svc_inv_def)
qed

text \<open>
  When a query completes, every listening caller that waits for its content id gets
  the result of the query, and query and list are removed; callers of other content ids are
  not touched.
\<close>

theorem bitswap_complete_answers_all:
  assumes "hm_get (us_bitswap_queries s) q = Some c" and "hm_get (us_response_channels s) c = Some chans"
  shows "\<exists>s'. handle_bitswap alive (BsComplete q r) s = (Ok (), s') \<and>
    us_replies s' = us_replies s @ map (\<lambda>ch. (ch, RUnit (if is_ok r then Ok ()
        else Err ''The requested block is not found with any peers''))) (filter alive chans) \<and>
    us_bitswap_queries s' = hm_remove q (us_bitswap_queries s) \<and>
    (\<forall>x. hm_get (us_response_channels s') x = (if x = c then None else hm_get (us_response_channels s) x))"
  using assms by (cases r) (simp_all add: handle_bitswap_def answer_all_replies hm_get_remove)

text \<open>A swarm that counts its queries and requests, and an exact filter.\<close>

definition count_ops :: "(nat \<times> nat, bytes list) swarm_ops" where
  "count_ops = \<lparr>sw_sync = (\<lambda>c ps cs w. (fst w, (Suc (fst w), snd w))), sw_get = (\<lambda>c ps w. (fst w, (Suc (fst w), snd w))),
     sw_send_request = (\<lambda>p r w. (snd w, (fst w, Suc (snd w)))), sw_send_response = (\<lambda>ch r w. (True, w)),
     sw_graphsync_request = (\<lambda>p c w. w), sw_dial = (\<lambda>a w. (Ok (), w)), sw_listen_on = (\<lambda>a w. (Ok (), w)),
     sw_listeners = (\<lambda>w. []), sw_autonat_address = (\<lambda>w. None), sw_relay_enabled = (\<lambda>w. False),
     sw_subscribe = (\<lambda>t w. (Ok True, w)), sw_unsubscribe = (\<lambda>t w. (Ok True, w)), sw_publish = (\<lambda>t d w. (Ok [], w)),
     sw_add_explicit_peer = (\<lambda>p w. w), sw_bitswap_add_address = (\<lambda>p a w. w), sw_kad_add_address = (\<lambda>p a w. w),
     sw_reqres_add_address = (\<lambda>p a w. w), sw_graphsync_add_address = (\<lambda>p a w. w)\<rparr>"

definition exact_filter :: "bytes list filter_ops" where
  "exact_filter = \<lparr>filter_new = (\<lambda>c f. []), filter_insert = (\<lambda>b f. b # f), filter_contains = (\<lambda>b f. b \<in> set f),
     filter_remove = (\<lambda>b f. removeAll b f)\<rparr>"

lemma count_ops_fresh: "fresh_ids count_ops (\<lambda>w. {..<fst w}) (\<lambda>w. {..<snd w})"
  by (simp add: fresh_ids_def keeps_ids_def count_ops_def lessThan_Suc)

definition count_service :: "(nat \<times> nat, bytes list) ursa_service" where
  "count_service = \<lparr>us_swarm = (0, 0), us_bitswap_queries = [], us_response_channels = [],
     us_pending_responses = [], us_peers = [''p''], us_bootstraps = [[P2p ''p'']],
     us_cached_content = \<lparr>cs_filter = []\<rparr>, us_peer_cached_content = [], us_events = [], us_replies = []\<rparr>"

lemma count_service_new:
  "service_new (setup0 (0, 0)) count_ops exact_filter (net_config_default\<lparr>nc_bootstrap_nodes := [[P2p ''p'']]\<rparr>) =
     Ok count_service"
  by (simp add: service_new_def service_build_def behaviour_new_def build_gossipsub_def build_transport_def setup0_def
      count_ops_def addr_multihash_def peers_insert_def behaviour_subscribe_def net_config_default_def
      summary_default_def summary_new_def exact_filter_def count_service_def gossip_params_of_def valid_mesh_def u64_sub_def Let_def)

theorem bitswap_callers_never_forgotten_witness:
  "7 \<in> fst ` set (us_replies (snd (service_run count_ops exact_filter (\<lambda>_. True)
     [InCommand (GetBitswap [1] 7), InEvent (EvBitswap (BsComplete 0 (Ok ()))) 0] count_service)))"
proof -
  define s where "s = snd (service_run count_ops exact_filter (\<lambda>_. True)
     [InCommand (GetBitswap [1] 7), InEvent (EvBitswap (BsComplete 0 (Ok ()))) 0] count_service)"
  have run: "service_run count_ops exact_filter (\<lambda>_. True)
     [InCommand (GetBitswap [1] 7), InEvent (EvBitswap (BsComplete 0 (Ok ()))) 0] count_service = (None, s)"
    and empty: "us_response_channels s = []"
    by (simp_all add: s_def handle_command_def handle_get_bitswap_def count_service_def sync_block_def count_ops_def
        likely_peers_def handle_swarm_event_def handle_bitswap_def emit_event_def hm_get_def hm_insert_def hm_remove_def
        send_oneshot_def Let_def)
  from bitswap_callers_never_forgotten [OF count_ops_fresh count_service_new run, of "[1]" 7] empty
  show ?thesis by (simp add: s_def)
qed

theorem service_starts_iff_witness:
  "\<exists>s. service_new (setup0 (0, 0)) count_ops exact_filter
     (net_config_default\<lparr>nc_autonat := False, nc_bootstrap_nodes := [[P2p ''p'']]\<rparr>) = Ok s \<and> set (us_peers s) = {''p''}"
proof -
  have "network_works count_ops" by (simp add: network_works_def count_ops_def)
  from service_starts_iff [OF setup0_laws [of "(0, 0)"] this, of
      "net_config_default\<lparr>nc_autonat := False, nc_bootstrap_nodes := [[P2p ''p'']]\<rparr>" exact_filter]
  show ?thesis by (simp add: net_config_default_def addr_multihash_def setup0_def)
qed

theorem bitswap_complete_answers_all_witness:
  "\<exists>s'. handle_bitswap (\<lambda>_. True) (BsComplete 4 (Ok ()))
     (count_service\<lparr>us_bitswap_queries := [(4, [1])], us_response_channels := [([1], [7, 8])]\<rparr>) = (Ok (), s') \<and>
     us_replies s' = [(7, RUnit (Ok ())), (8, RUnit (Ok ()))]"
  using bitswap_complete_answers_all [of "count_service\<lparr>us_bitswap_queries := [(4, [1])],
      us_response_channels := [([1], [7, 8])]\<rparr>" 4 "[1]" "[7, 8]" "\<lambda>_. True" "Ok ()"]
  by (auto simp: hm_get_def count_service_def)

section \<open>Requests to peers\<close>

text \<open>
  The answer to a request goes to the caller that sent it, once; a failed request
  changes nothing, so its caller keeps waiting and its entry stays.
\<close>

theorem response_reaches_caller:
  assumes "hm_get (us_pending_responses s) i = Some ch" and "alive ch"
  shows "\<exists>s'. handle_req_res ops alive (RrResponse p i r) s = (Ok (), s') \<and>
    us_replies s' = us_replies s @ [(ch, RResponse r)] \<and>
    hm_get (us_pending_responses s') i = None \<and>
    handle_req_res ops alive (RrOutboundFailure p i) s = (Ok (), s)"
  using assms by (simp add: handle_req_res_def send_oneshot_def)

theorem response_reaches_caller_witness:
  "\<exists>s'. handle_req_res count_ops (\<lambda>_. True) (RrResponse ''p'' 3 CacheResponse)
     (count_service\<lparr>us_pending_responses := [(3, 9)]\<rparr>) = (Ok (), s') \<and> us_replies s' = [(9, RResponse CacheResponse)]"
  using response_reaches_caller [of "count_service\<lparr>us_pending_responses := [(3, 9)]\<rparr>" 3 9 "\<lambda>_. True"
      count_ops "''p''" CacheResponse]
  by (auto simp: hm_get_def count_service_def)

text \<open>
  A command whose caller has gone away stops the whole node: the failed send becomes
  an error and the error a panic of the service loop.
\<close>

theorem dropped_caller_stops_service:
  assumes "\<not> alive ch"
  shows "fst (service_run ops fo alive (InCommand (GetPeers ch) # is) s) = Some Panic \<and>
         fst (service_run ops fo alive (InCommand (GetListenerAddresses ch) # is) s) = Some Panic \<and>
         fst (service_run ops fo alive (InCommand (Put c ch) # is) s) = Some Panic"
  using assms by (simp add: handle_command_def handle_put_def send_or_fail_def send_oneshot_def Let_def)

theorem dropped_caller_stops_service_witness:
  "fst (service_run count_ops exact_filter (\<lambda>_. False) [InCommand (GetPeers 1)] count_service) = Some Panic"
  using dropped_caller_stops_service [of "\<lambda>_. False" 1 count_ops exact_filter "[]" count_service "[]"] by simp

section \<open>Peers\<close>

text \<open>
  A peer is announced as connected exactly when its first connection is the first the
  service hears of it. A peer found by mDNS is in the set of peers before any connection
  exists, so its connection is never announced.
\<close>

theorem mdns_peer_never_announced:
  assumes "p \<notin> set (us_peers s)"
  shows "us_events (snd (handle_swarm_event ops alive rnd (ConnectionEstablished p) s)) = us_events s @ [PeerConnected p] \<and>
    (let s1 = snd (handle_swarm_event ops alive rnd (EvMdns (Discovered [(p, a)])) s)
     in p \<in> set (us_peers s1) \<and>
        us_events (snd (handle_swarm_event ops alive rnd (ConnectionEstablished p) s1)) = us_events s)"
  using assms
  by (simp add: handle_swarm_event_def handle_mdns_def peers_insert_def emit_event_def Let_def)

theorem mdns_peer_never_announced_witness:
  "us_events (snd (handle_swarm_event count_ops (\<lambda>_. True) 0 (ConnectionEstablished ''q'')
     (snd (handle_swarm_event count_ops (\<lambda>_. True) 0 (EvMdns (Discovered [(''q'', [])])) count_service)))) = []"
  using mdns_peer_never_announced [of "''q''" count_service count_ops "\<lambda>_. True" 0 "[]"]
  by (simp add: count_service_def Let_def)

section \<open>Summaries\<close>

text \<open>A filter has no false negatives: what was inserted is found.\<close>

definition lawful_filter :: "'f filter_ops \<Rightarrow> bool" where
  "lawful_filter fo \<longleftrightarrow>
     (\<forall>v f. filter_contains fo v (filter_insert fo v f)) \<and>
     (\<forall>v w f. filter_contains fo v f \<longrightarrow> filter_contains fo v (filter_insert fo w f))"

lemma summary_inserted:
  "lawful_filter fo \<Longrightarrow> v \<in> set vs \<Longrightarrow> summary_contains fo v (foldr (summary_insert fo) vs cs)"
  by (induction vs) (auto simp: lawful_filter_def summary_contains_def summary_insert_def)

text \<open>
  A peer whose last summary was made after it stored the content is among the peers
  that are asked for it; a known peer is left out only if its summary says it has not got
  the content.
\<close>

theorem likely_peers_complete:
  assumes "lawful_filter fo" and "p \<in> set (us_peers s)"
    and "hm_get (us_peer_cached_content s) p = Some (foldr (summary_insert fo) vs cs)"
  shows "c \<in> set vs \<longrightarrow> p \<in> set (likely_peers fo c s)"
  using assms summary_inserted [OF assms(1), of c vs cs] by (simp add: likely_peers_def)

theorem likely_peers_complete_witness:
  "''p'' \<in> set (likely_peers exact_filter [1]
     (count_service\<lparr>us_peer_cached_content := [(''p'', foldr (summary_insert exact_filter) [[1]] \<lparr>cs_filter = []\<rparr>)]\<rparr>))"
proof -
  have "lawful_filter exact_filter" by (simp add: lawful_filter_def exact_filter_def)
  then show ?thesis
    using likely_peers_complete [of exact_filter "''p''" "count_service\<lparr>us_peer_cached_content :=
        [(''p'', foldr (summary_insert exact_filter) [[1]] \<lparr>cs_filter = []\<rparr>)]\<rparr>" "[[1]]" "\<lparr>cs_filter = []\<rparr>" "[1]"]
    by (simp add: hm_get_def count_service_def)
qed

end
