(* ===== verification/Codec.thy ===== *)
theory Codec
  imports Network
begin

text \<open>
  The wire codec of the request/response protocol, \<open>ursa-network/src/codec/protocol.rs\<close>, and
  the binary form of a cache summary. The framing of libp2p and the JSON codec are third-party
  code: they are the fields of \<open>codec_ops\<close>. The stream of a request is what the peer wrote.
\<close>

section \<open>Codec\<close>

definition MAX_REQUEST_SIZE :: nat where
  "MAX_REQUEST_SIZE = 4 * 1024 * 1024"

definition MAX_RESPONSE_SIZE :: nat where
  "MAX_RESPONSE_SIZE = 10 * 1024 * 1024"

definition PROTOCOL_NAME :: string where
  "PROTOCOL_NAME = ''/ursa/txrx/0.0.1''"

record 'f codec_ops =
  read_length_prefixed :: "nat \<Rightarrow> bytes \<Rightarrow> (bytes, string) result"
  write_length_prefixed :: "bytes \<Rightarrow> bytes"
  from_utf8 :: "bytes \<Rightarrow> string option"
  request_from_str :: "string \<Rightarrow> 'f request_type option"
  request_to_vec :: "'f request_type \<Rightarrow> bytes"
  response_from_str :: "string \<Rightarrow> response_type option"
  response_to_vec :: "response_type \<Rightarrow> bytes"

text \<open>Reading is the same for both types: a frame within the limit, then UTF-8, then JSON.\<close>

definition read_message ::
  "(nat \<Rightarrow> bytes \<Rightarrow> (bytes, string) result) \<Rightarrow> (bytes \<Rightarrow> string option) \<Rightarrow> (string \<Rightarrow> 'm option) \<Rightarrow> nat \<Rightarrow> bytes
   \<Rightarrow> ('m, string) result" where
  "read_message read_lp utf8 from_str limit io =
     bind_res (read_lp limit io) (\<lambda>vec.
       if vec = [] then Err ''UnexpectedEof''
       else (case utf8 vec of
               None \<Rightarrow> Panic
             | Some s \<Rightarrow> (case from_str s of None \<Rightarrow> Panic | Some m \<Rightarrow> Ok m)))"

definition read_request :: "'f codec_ops \<Rightarrow> bytes \<Rightarrow> ('f request_type, string) result" where
  "read_request co io =
     read_message (read_length_prefixed co) (from_utf8 co) (request_from_str co) MAX_REQUEST_SIZE io"

definition read_response :: "'f codec_ops \<Rightarrow> bytes \<Rightarrow> (response_type, string) result" where
  "read_response co io =
     read_message (read_length_prefixed co) (from_utf8 co) (response_from_str co) MAX_RESPONSE_SIZE io"

text \<open>
  Writing: \<open>write\<close> is the outcome of the stream for the frame, \<open>close\<close> that of closing it.
  What reaches the peer is the frame.
\<close>

definition write_message ::
  "(bytes \<Rightarrow> bytes) \<Rightarrow> (bytes \<Rightarrow> (unit, string) result) \<Rightarrow> (unit, string) result \<Rightarrow> bytes \<Rightarrow> (unit, string) result \<times> bytes" where
  "write_message frame write close data =
     (bind_res (write (frame data)) (\<lambda>_. close), frame data)"

definition write_request ::
  "'f codec_ops \<Rightarrow> (bytes \<Rightarrow> (unit, string) result) \<Rightarrow> (unit, string) result \<Rightarrow> 'f request_type \<Rightarrow>
   (unit, string) result \<times> bytes" where
  "write_request co write close req =
     write_message (write_length_prefixed co) write close (request_to_vec co req)"

definition write_response ::
  "'f codec_ops \<Rightarrow> (bytes \<Rightarrow> (unit, string) result) \<Rightarrow> (unit, string) result \<Rightarrow> response_type \<Rightarrow>
   (unit, string) result \<times> bytes" where
  "write_response co write close res =
     write_message (write_length_prefixed co) write close (response_to_vec co res)"

definition summary_serialize :: "('f \<Rightarrow> bytes option) \<Rightarrow> 'f cache_summary \<Rightarrow> (bytes, string) result" where
  "summary_serialize bincode s = ok_or ''Failed to serialize cache summary.'' (bincode (cs_filter s))"

definition summary_deserialize :: "(bytes \<Rightarrow> 'f option) \<Rightarrow> bytes \<Rightarrow> ('f cache_summary, string) result" where
  "summary_deserialize bincode bs =
     bind_res (ok_or ''Failed to deserialize cache summary.'' (bincode bs)) (\<lambda>f. Ok \<lparr>cs_filter = f\<rparr>)"

section \<open>Laws of framing and JSON\<close>

text \<open>
  A frame is read back when it is within the limit and refused when it is longer; the JSON
  text of a message is not empty, is UTF-8 and parses to the message.
\<close>

definition framing_law :: "(nat \<Rightarrow> bytes \<Rightarrow> (bytes, string) result) \<Rightarrow> (bytes \<Rightarrow> bytes) \<Rightarrow> bool" where
  "framing_law read_lp frame \<longleftrightarrow>
     (\<forall>limit data. (length data \<le> limit \<longrightarrow> read_lp limit (frame data) = Ok data) \<and>
        (limit < length data \<longrightarrow> (\<exists>e. read_lp limit (frame data) = Err e)))"

definition json_law :: "(bytes \<Rightarrow> string option) \<Rightarrow> (string \<Rightarrow> 'm option) \<Rightarrow> ('m \<Rightarrow> bytes) \<Rightarrow> bool" where
  "json_law utf8 from_str to_vec \<longleftrightarrow>
     (\<forall>m. to_vec m \<noteq> [] \<and> (\<exists>s. utf8 (to_vec m) = Some s \<and> from_str s = Some m))"

definition codec_laws :: "'f codec_ops \<Rightarrow> bool" where
  "codec_laws co \<longleftrightarrow>
     framing_law (read_length_prefixed co) (write_length_prefixed co) \<and>
     json_law (from_utf8 co) (request_from_str co) (request_to_vec co) \<and>
     json_law (from_utf8 co) (response_from_str co) (response_to_vec co)"

lemma read_message_fits:
  assumes "framing_law read_lp frame" and "length data \<le> limit"
  shows "read_message read_lp utf8 from_str limit (frame data) =
    (if data = [] then Err ''UnexpectedEof''
     else case utf8 data of None \<Rightarrow> Panic | Some s \<Rightarrow> (case from_str s of None \<Rightarrow> Panic | Some m \<Rightarrow> Ok m))"
proof -
  have "read_lp limit (frame data) = Ok data" using assms by (simp add: framing_law_def)
  then show ?thesis by (simp add: read_message_def)
qed

lemma read_message_too_long:
  assumes "framing_law read_lp frame" and "limit < length data"
  shows "\<exists>e. read_message read_lp utf8 from_str limit (frame data) = Err e"
proof -
  obtain e where "read_lp limit (frame data) = Err e" using assms unfolding framing_law_def by blast
  then show ?thesis by (simp add: read_message_def)
qed

lemma read_message_written:
  assumes "framing_law read_lp frame" and "json_law utf8 from_str to_vec"
  shows "if length (to_vec m) \<le> limit then read_message read_lp utf8 from_str limit (frame (to_vec m)) = Ok m
    else \<exists>e. read_message read_lp utf8 from_str limit (frame (to_vec m)) = Err e"
proof (cases "length (to_vec m) \<le> limit")
  case True
  obtain s where "to_vec m \<noteq> []" "utf8 (to_vec m) = Some s" "from_str s = Some m"
    using assms(2) by (auto simp: json_law_def)
  with True read_message_fits [OF assms(1) True, of utf8 from_str] show ?thesis by simp
next
  case False
  with read_message_too_long [OF assms(1), of limit "to_vec m"] show ?thesis by simp
qed

text \<open>
  C34. What one node writes the other one reads back, exactly as long as the encoding is
  within the limit of the reader, 4 MiB for requests and 10 MiB for responses. The writer
  does not check: a longer message is written without an error and refused by the reader.\<close>

theorem exchange_within_limits:
  assumes "codec_laws co" and "\<And>bs. write bs = Ok ()" and "close = Ok ()"
  shows "(\<exists>io. write_request co write close req = (Ok (), io) \<and>
      (if length (request_to_vec co req) \<le> 4194304 then read_request co io = Ok req
       else \<exists>e. read_request co io = Err e)) \<and>
    (\<exists>io. write_response co write close res = (Ok (), io) \<and>
      (if length (response_to_vec co res) \<le> 10485760 then read_response co io = Ok res
       else \<exists>e. read_response co io = Err e))"
proof -
  have laws: "framing_law (read_length_prefixed co) (write_length_prefixed co)"
    "json_law (from_utf8 co) (request_from_str co) (request_to_vec co)"
    "json_law (from_utf8 co) (response_from_str co) (response_to_vec co)"
    using assms(1) by (simp_all add: codec_laws_def)
  have sizes: "MAX_REQUEST_SIZE = 4194304" "MAX_RESPONSE_SIZE = 10485760"
    by (simp_all add: MAX_REQUEST_SIZE_def MAX_RESPONSE_SIZE_def)
  have "\<exists>io. write_request co write close req = (Ok (), io) \<and>
      (if length (request_to_vec co req) \<le> 4194304 then read_request co io = Ok req
       else \<exists>e. read_request co io = Err e)"
    using read_message_written [OF laws(1,2), of req 4194304]
    by (simp add: write_request_def write_message_def assms(2,3) read_request_def sizes)
  moreover have "\<exists>io. write_response co write close res = (Ok (), io) \<and>
      (if length (response_to_vec co res) \<le> 10485760 then read_response co io = Ok res
       else \<exists>e. read_response co io = Err e)"
    using read_message_written [OF laws(1,3), of res 10485760]
    by (simp add: write_response_def write_message_def assms(2,3) read_response_def sizes)
  ultimately show ?thesis by blast
qed

text \<open>
  A frame within the limit that is not the JSON text of a message makes the reader panic;
  only frames that are too long or empty are refused with an error.\<close>

theorem malformed_frame_panics:
  assumes "codec_laws co" and "length data \<le> MAX_REQUEST_SIZE"
  shows "(read_request co (write_length_prefixed co data) = Panic \<longleftrightarrow>
      data \<noteq> [] \<and> (\<forall>s. from_utf8 co data = Some s \<longrightarrow> request_from_str co s = None)) \<and>
    (read_response co (write_length_prefixed co data) = Panic \<longleftrightarrow>
      data \<noteq> [] \<and> (\<forall>s. from_utf8 co data = Some s \<longrightarrow> response_from_str co s = None))"
proof -
  have law: "framing_law (read_length_prefixed co) (write_length_prefixed co)"
    using assms(1) by (simp add: codec_laws_def)
  have fits: "length data \<le> MAX_RESPONSE_SIZE"
    using assms(2) by (simp add: MAX_REQUEST_SIZE_def MAX_RESPONSE_SIZE_def)
  have "read_request co (write_length_prefixed co data) = Panic \<longleftrightarrow>
      data \<noteq> [] \<and> (\<forall>s. from_utf8 co data = Some s \<longrightarrow> request_from_str co s = None)"
    by (auto simp: read_request_def read_message_fits [OF law assms(2)] split: option.splits)
  moreover have "read_response co (write_length_prefixed co data) = Panic \<longleftrightarrow>
      data \<noteq> [] \<and> (\<forall>s. from_utf8 co data = Some s \<longrightarrow> response_from_str co s = None)"
    by (auto simp: read_response_def read_message_fits [OF law fits] split: option.splits)
  ultimately show ?thesis by blast
qed

section \<open>Examples\<close>

text \<open>
  Frames without a prefix and a text form of the messages: one letter for the constructor,
  then the content. A text with the byte 255 alone is not UTF-8.
\<close>

definition char_byte :: "char \<Rightarrow> byte" where
  "char_byte c = word_of_nat (of_char c)"

definition byte_char :: "byte \<Rightarrow> char" where
  "byte_char b = char_of (unat b)"

lemma char_byte_inverse [simp]: "byte_char (char_byte c) = c" "char_byte (byte_char b) = b"
proof -
  have "(of_char c :: nat) < 256" by (rule nat_of_char_less_256)
  then show "byte_char (char_byte c) = c" by (simp add: byte_char_def char_byte_def unat_of_nat)
  have "unat b < 2 ^ LENGTH(8)" by (rule unsigned_less)
  then show "char_byte (byte_char b) = b" by (simp add: byte_char_def char_byte_def)
qed

fun demo_request_to_vec :: "unit request_type \<Rightarrow> bytes" where
  "demo_request_to_vec (CarRequest c) = 1 # map char_byte c"
| "demo_request_to_vec (CacheRequest c) = 2 # c"
| "demo_request_to_vec (StoreSummary m) = [3]"

fun demo_text :: "string \<Rightarrow> bytes" where
  "demo_text [] = [0]"
| "demo_text (c # cs) = 1 # char_byte c # demo_text cs"

fun demo_untext :: "bytes \<Rightarrow> string \<times> bytes" where
  "demo_untext (b # bs) =
     (if b = 0 then ([], bs)
      else case bs of [] \<Rightarrow> ([], []) | c # cs \<Rightarrow> (let (t, rest) = demo_untext cs in (byte_char c # t, rest)))"
| "demo_untext [] = ([], [])"

lemma demo_untext_text [simp]: "demo_untext (demo_text t @ rest) = (t, rest)"
  by (induction t) simp_all

fun demo_response_to_vec :: "response_type \<Rightarrow> bytes" where
  "demo_response_to_vec (CarResponse c d) = 1 # demo_text c @ d"
| "demo_response_to_vec CacheResponse = [2]"
| "demo_response_to_vec StoreSummaryRequest = [3]"

definition demo_request_from_str :: "string \<Rightarrow> unit request_type option" where
  "demo_request_from_str t =
     (case map char_byte t of
        [] \<Rightarrow> None
      | b # bs \<Rightarrow> if b = 1 then Some (CarRequest (map byte_char bs)) else if b = 2 then Some (CacheRequest bs)
          else if b = 3 then Some (StoreSummary \<lparr>cs_filter = ()\<rparr>) else None)"

definition demo_response_from_str :: "string \<Rightarrow> response_type option" where
  "demo_response_from_str t =
     (case map char_byte t of
        [] \<Rightarrow> None
      | b # bs \<Rightarrow> if b = 1 then Some (CarResponse (fst (demo_untext bs)) (snd (demo_untext bs)))
          else if b = 2 then Some CacheResponse else if b = 3 then Some StoreSummaryRequest else None)"

definition demo_codec :: "unit codec_ops" where
  "demo_codec = \<lparr>read_length_prefixed = (\<lambda>limit io. if length io \<le> limit then Ok io else Err ''too long''),
     write_length_prefixed = (\<lambda>d. d), from_utf8 = (\<lambda>bs. if bs = [255] then None else Some (map byte_char bs)),
     request_from_str = demo_request_from_str, request_to_vec = demo_request_to_vec,
     response_from_str = demo_response_from_str, response_to_vec = demo_response_to_vec\<rparr>"

lemma demo_codec_laws: "codec_laws demo_codec"
proof -
  have "demo_request_from_str (map byte_char (demo_request_to_vec m)) = Some m \<and> demo_request_to_vec m \<noteq> [] \<and>
      demo_request_to_vec m \<noteq> [255]" for m
    by (cases m) (simp_all add: demo_request_from_str_def o_def)
  moreover have "demo_response_from_str (map byte_char (demo_response_to_vec m)) = Some m \<and> demo_response_to_vec m \<noteq> [] \<and>
      demo_response_to_vec m \<noteq> [255]" for m
    by (cases m) (simp_all add: demo_response_from_str_def o_def)
  ultimately show ?thesis
    by (simp add: codec_laws_def framing_law_def json_law_def demo_codec_def)
qed

theorem exchange_within_limits_witness:
  "read_request demo_codec (snd (write_request demo_codec (\<lambda>_. Ok ()) (Ok ()) (CarRequest ''abc''))) = Ok (CarRequest ''abc'') \<and>
   (\<exists>e. read_request demo_codec (snd (write_request demo_codec (\<lambda>_. Ok ()) (Ok ()) (CacheRequest (replicate 5000000 0)))) = Err e)"
proof -
  have "length (request_to_vec demo_codec (CarRequest ''abc'')) \<le> 4194304"
    "\<not> length (request_to_vec demo_codec (CacheRequest (replicate 5000000 0))) \<le> 4194304"
    by (simp_all add: demo_codec_def)
  with exchange_within_limits [OF demo_codec_laws, of "\<lambda>_. Ok ()" "Ok ()" "CarRequest ''abc''" CacheResponse]
    exchange_within_limits [OF demo_codec_laws, of "\<lambda>_. Ok ()" "Ok ()" "CacheRequest (replicate 5000000 0)" CacheResponse]
  show ?thesis by auto
qed

theorem malformed_frame_panics_witness:
  "read_request demo_codec (write_length_prefixed demo_codec [255]) = Panic \<and>
   read_response demo_codec (write_length_prefixed demo_codec [9]) = Panic"
proof -
  have "length ([255] :: bytes) \<le> MAX_REQUEST_SIZE" "length ([9] :: bytes) \<le> MAX_REQUEST_SIZE"
    by (simp_all add: MAX_REQUEST_SIZE_def)
  then show ?thesis
    using malformed_frame_panics [OF demo_codec_laws, of "[255]"] malformed_frame_panics [OF demo_codec_laws, of "[9]"]
    by (simp add: demo_codec_def demo_response_from_str_def)
qed

end
