(* ===== verification/Summary_Tests.thy ===== *)
theory Summary_Tests
  imports Network_Props Codec
begin

text \<open>
  The unit tests of \<open>ursa-network/src/utils/cache_summary.rs\<close> as runs of the model with their assertions. What they
  assert of keys that were inserted holds for every filter that keeps what is inserted; what they assert of other keys
  holds for a filter without false positives.
\<close>

definition key :: "string \<Rightarrow> bytes" where
  "key s = map of_char s"

fun summary_inserts :: "'f filter_ops \<Rightarrow> string list \<Rightarrow> 'f cache_summary \<Rightarrow> 'f cache_summary" where
  "summary_inserts fo [] s = s"
| "summary_inserts fo (k # ks) s = summary_inserts fo ks (summary_insert fo (key k) s)"

fun summary_has :: "'f filter_ops \<Rightarrow> 'f cache_summary \<Rightarrow> string list \<Rightarrow> bool" where
  "summary_has fo s [] \<longleftrightarrow> True"
| "summary_has fo s (k # ks) \<longleftrightarrow> summary_contains fo (key k) s \<and> summary_has fo s ks"

fun summary_lacks :: "'f filter_ops \<Rightarrow> 'f cache_summary \<Rightarrow> string list \<Rightarrow> bool" where
  "summary_lacks fo s [] \<longleftrightarrow> True"
| "summary_lacks fo s (k # ks) \<longleftrightarrow> \<not> summary_contains fo (key k) s \<and> summary_lacks fo s ks"

text \<open>The rate of 0.01 is 10 per mille.\<close>

definition test_insert_contains :: "'f filter_ops \<Rightarrow> bool" where
  "test_insert_contains fo \<longleftrightarrow>
     (let f = summary_inserts fo [''abc'', ''def'', ''ghi'', ''jkl'', ''mnop''] (summary_new fo 10 10)
      in summary_has fo f [''abc'', ''def'', ''ghi'', ''jkl'', ''mnop''] \<and>
         summary_lacks fo f [''xyz'', ''test'', ''hallo'', ''1234''])"

definition test_remove :: "'f filter_ops \<Rightarrow> bool" where
  "test_remove fo \<longleftrightarrow>
     (let f = summary_inserts fo [''xyz'', ''fgh'', ''hjz'', ''dfgh'', ''oiuz''] (summary_new fo 5 10);
          f1 = summary_remove fo (key ''xyz'') f;
          f2 = summary_remove fo (key ''fgh'') f1;
          f3 = summary_remove fo (key ''hjz'') f2;
          f4 = summary_remove fo (key ''dfgh'') f3;
          f5 = summary_remove fo (key ''oiuz'') f4
      in \<not> summary_contains fo (key ''xyz'') f1 \<and> \<not> summary_contains fo (key ''fgh'') f2 \<and>
         \<not> summary_contains fo (key ''hjz'') f3 \<and> \<not> summary_contains fo (key ''dfgh'') f4 \<and>
         \<not> summary_contains fo (key ''oizu'') f5)"

definition test_serialize_deserialize :: "'f filter_ops \<Rightarrow> ('f \<Rightarrow> bytes option) \<Rightarrow> (bytes \<Rightarrow> 'f option) \<Rightarrow> bool" where
  "test_serialize_deserialize fo to_bytes from_bytes \<longleftrightarrow>
     (case bind_res (summary_serialize to_bytes (summary_inserts fo [''abc'', ''def'', ''ghi''] (summary_new fo 10 10)))
             (summary_deserialize from_bytes) of
        Ok f \<Rightarrow> summary_has fo f [''abc'', ''def'', ''ghi'']
      | _ \<Rightarrow> False)"

lemma summary_inserts_foldr: "summary_inserts fo ks s = foldr (summary_insert fo) (rev (map key ks)) s"
  by (induction ks arbitrary: s) simp_all

lemma summary_has_iff: "summary_has fo s ks \<longleftrightarrow> (\<forall>k \<in> set ks. summary_contains fo (key k) s)"
  by (induction ks) auto

lemma summary_lacks_iff: "summary_lacks fo s ks \<longleftrightarrow> (\<forall>k \<in> set ks. \<not> summary_contains fo (key k) s)"
  by (induction ks) auto

text \<open>No false negatives, whatever the filter is.\<close>

lemma inserted_are_contained:
  assumes "lawful_filter fo" and "set ks \<subseteq> set ls"
  shows "summary_has fo (summary_inserts fo ls s) ks"
  using assms summary_inserted [OF assms(1), of _ "rev (map key ls)" s]
  by (auto simp: summary_has_iff summary_inserts_foldr)

theorem serialize_test_passes:
  assumes "lawful_filter fo" and "\<And>f. \<exists>b. to_bytes f = Some b \<and> from_bytes b = Some f"
  shows "test_serialize_deserialize fo to_bytes from_bytes"
proof -
  let ?s = "summary_inserts fo [''abc'', ''def'', ''ghi''] (summary_new fo 10 10)"
  obtain b where "to_bytes (cs_filter ?s) = Some b" "from_bytes b = Some (cs_filter ?s)" using assms(2) by blast
  then have "bind_res (summary_serialize to_bytes ?s) (summary_deserialize from_bytes) = Ok ?s"
    by (simp add: summary_serialize_def summary_deserialize_def)
  with inserted_are_contained [OF assms(1), of "[''abc'', ''def'', ''ghi'']" "[''abc'', ''def'', ''ghi'']" "summary_new fo 10 10"]
  show ?thesis unfolding test_serialize_deserialize_def by simp
qed

lemma exact_filter_tests: "test_insert_contains exact_filter" "test_remove exact_filter"
  by (simp_all add: test_insert_contains_def test_remove_def summary_new_def summary_insert_def summary_remove_def
      summary_contains_def exact_filter_def key_def of_char_def Let_def)

text \<open>
  The last assertion of the second test asks for another key than the one that was removed, so it does
  not notice a filter that fails to remove.\<close>

definition stubborn_filter :: "bytes list filter_ops" where
  "stubborn_filter = exact_filter\<lparr>filter_remove := (\<lambda>v f. if v = key ''oiuz'' then f else filter_remove exact_filter v f)\<rparr>"

theorem test_remove_misses_a_key:
  "test_remove stubborn_filter \<and>
   (\<exists>s. summary_contains stubborn_filter (key ''oiuz'') (summary_remove stubborn_filter (key ''oiuz'') s))"
proof
  show "test_remove stubborn_filter"
    by (simp add: test_remove_def summary_new_def summary_insert_def summary_remove_def summary_contains_def
        stubborn_filter_def exact_filter_def key_def of_char_def Let_def)
  show "\<exists>s. summary_contains stubborn_filter (key ''oiuz'') (summary_remove stubborn_filter (key ''oiuz'') s)"
    by (rule exI [of _ "\<lparr>cs_filter = [key ''oiuz'']\<rparr>"])
      (simp add: summary_contains_def summary_remove_def stubborn_filter_def exact_filter_def)
qed

end
