(* ===== verification/Sync_Plan.thy ===== *)
theory Sync_Plan
  imports Prelude
begin

text \<open>
  Instances of a test plan that meet at barriers. The plans under \<open>src/test-plans\<close> talk to each
  other through the sync service of testground alone: an instance signals a state, and waits
  until enough instances have signalled one. An instance is a tree of these calls; where the
  environment decides (how many peers were found, whether a block arrived) the tree branches.
  When a barrier lets an instance pass is the parameter \<open>released\<close>. The locale \<open>coordinated\<close> says
  what makes a plan end in every run.
\<close>

section \<open>Instances\<close>

datatype sync_name = Topic string | State string | BatchDone nat

datatype outcome = Success | Failure string | Crashed

text \<open>A timed barrier goes on in its second branch when the time is over.\<close>

datatype proc =
    Done outcome
  | Signal sync_name proc
  | Barrier sync_name nat proc
  | TimedBarrier sync_name nat proc proc
  | Env "nat \<Rightarrow> proc"

definition signal_and_wait :: "sync_name \<Rightarrow> nat \<Rightarrow> proc \<Rightarrow> proc" where
  "signal_and_wait x n p = Signal x (Barrier x n p)"

text \<open>Under a timeout: the signal is sent when the call is made, only the wait is given up.\<close>

definition timed_signal_and_wait :: "sync_name \<Rightarrow> nat \<Rightarrow> proc \<Rightarrow> proc \<Rightarrow> proc" where
  "timed_signal_and_wait x n p q = Signal x (TimedBarrier x n p q)"

section \<open>Runs\<close>

record plan =
  pl_log :: "(sync_name \<times> nat) list"
  pl_procs :: "nat \<Rightarrow> proc"

definition plan_init :: "(nat \<Rightarrow> proc) \<Rightarrow> plan" where
  "plan_init start = \<lparr>pl_log = [], pl_procs = start\<rparr>"

definition signals :: "sync_name \<Rightarrow> plan \<Rightarrow> nat" where
  "signals x s = length (filter (\<lambda>e. fst e = x) (pl_log s))"

abbreviation goes_on :: "plan \<Rightarrow> nat \<Rightarrow> proc \<Rightarrow> plan" where
  "goes_on s i p \<equiv> s\<lparr>pl_procs := (pl_procs s)(i := p)\<rparr>"

inductive plan_step :: "(nat \<Rightarrow> nat \<Rightarrow> bool) \<Rightarrow> plan \<Rightarrow> plan \<Rightarrow> bool" for released where
  signal: "pl_procs s i = Signal x p \<Longrightarrow> plan_step released s (goes_on (s\<lparr>pl_log := (x, i) # pl_log s\<rparr>) i p)"
| barrier: "pl_procs s i = Barrier x n p \<Longrightarrow> released (signals x s) n \<Longrightarrow> plan_step released s (goes_on s i p)"
| in_time: "pl_procs s i = TimedBarrier x n p q \<Longrightarrow> released (signals x s) n \<Longrightarrow> plan_step released s (goes_on s i p)"
| timeout: "pl_procs s i = TimedBarrier x n p q \<Longrightarrow> plan_step released s (goes_on s i q)"
| env: "pl_procs s i = Env f \<Longrightarrow> plan_step released s (goes_on s i (f v))"

text \<open>What the sync service documents: a barrier on \<open>n\<close> opens when \<open>n\<close> signals were given.\<close>

definition barrier_law :: "(nat \<Rightarrow> nat \<Rightarrow> bool) \<Rightarrow> bool" where
  "barrier_law released \<longleftrightarrow> (\<forall>c n. released c n \<longleftrightarrow> n \<le> c)"

fun is_done :: "proc \<Rightarrow> bool" where
  "is_done (Done r) = True"
| "is_done _ = False"

section \<open>What a tree promises\<close>

text \<open>\<open>must x p\<close>: the state \<open>x\<close> is signalled on every branch; \<open>may x p\<close>: on one.\<close>

primrec must :: "sync_name \<Rightarrow> proc \<Rightarrow> bool" where
  "must x (Done r) = False"
| "must x (Signal y p) = (x = y \<or> must x p)"
| "must x (Barrier y n p) = must x p"
| "must x (TimedBarrier y n p q) = (must x p \<and> must x q)"
| "must x (Env f) = (\<forall>v. must x (f v))"

primrec may :: "sync_name \<Rightarrow> proc \<Rightarrow> bool" where
  "may x (Done r) = False"
| "may x (Signal y p) = (x = y \<or> may x p)"
| "may x (Barrier y n p) = may x p"
| "may x (TimedBarrier y n p q) = (may x p \<or> may x q)"
| "may x (Env f) = (\<exists>v. may x (f v))"

text \<open>What is signalled behind a barrier without a timeout comes later in the order \<open>rk\<close>.\<close>

primrec ordered :: "(sync_name \<Rightarrow> nat) \<Rightarrow> proc \<Rightarrow> bool" where
  "ordered rk (Done r) = True"
| "ordered rk (Signal y p) = ordered rk p"
| "ordered rk (Barrier y n p) = ((\<forall>x. must x p \<longrightarrow> rk y < rk x) \<and> ordered rk p)"
| "ordered rk (TimedBarrier y n p q) = (ordered rk p \<and> ordered rk q)"
| "ordered rk (Env f) = (\<forall>v. ordered rk (f v))"

text \<open>At most \<open>n\<close> calls on every branch.\<close>

primrec within :: "proc \<Rightarrow> nat \<Rightarrow> bool" where
  "within (Done r) n = True"
| "within (Signal y p) n = (0 < n \<and> within p (n - 1))"
| "within (Barrier y m p) n = (0 < n \<and> within p (n - 1))"
| "within (TimedBarrier y m p q) n = (0 < n \<and> within p (n - 1) \<and> within q (n - 1))"
| "within (Env f) n = (0 < n \<and> (\<forall>v. within (f v) (n - 1)))"

text \<open>The barriers without a timeout, and those of them that are not behind a passed \<open>gate\<close>.\<close>

primrec waits :: "proc \<Rightarrow> (sync_name \<times> nat) set" where
  "waits (Done r) = {}"
| "waits (Signal y p) = waits p"
| "waits (Barrier y n p) = insert (y, n) (waits p)"
| "waits (TimedBarrier y n p q) = waits p \<union> waits q"
| "waits (Env f) = (\<Union>v. waits (f v))"

primrec free_waits :: "sync_name \<Rightarrow> proc \<Rightarrow> (sync_name \<times> nat) set" where
  "free_waits g (Done r) = {}"
| "free_waits g (Signal y p) = free_waits g p"
| "free_waits g (Barrier y n p) = insert (y, n) (free_waits g p)"
| "free_waits g (TimedBarrier y n p q) = (if y = g then {} else free_waits g p) \<union> free_waits g q"
| "free_waits g (Env f) = (\<Union>v. free_waits g (f v))"

text \<open>
  \<open>gate_ok g m x p\<close>: the gate \<open>g\<close> is only waited for with a timeout and the number \<open>m\<close>; who gives
  its signal gives it once and then signals \<open>x\<close>, and who passes it signals \<open>x\<close> too.
\<close>

primrec gate_ok :: "sync_name \<Rightarrow> nat \<Rightarrow> sync_name \<Rightarrow> proc \<Rightarrow> bool" where
  "gate_ok g m x (Done r) = True"
| "gate_ok g m x (Signal y p) = ((y = g \<longrightarrow> must x p \<and> \<not> may g p) \<and> gate_ok g m x p)"
| "gate_ok g m x (Barrier y n p) = gate_ok g m x p"
| "gate_ok g m x (TimedBarrier y n p q) = ((y = g \<longrightarrow> n = m \<and> must x p) \<and> gate_ok g m x p \<and> gate_ok g m x q)"
| "gate_ok g m x (Env f) = (\<forall>v. gate_ok g m x (f v))"

lemma free_waits_subset: "free_waits g p \<subseteq> waits p"
  by (induction p) auto

section \<open>Keeping promises\<close>

text \<open>The state \<open>x\<close> was signalled by instance \<open>i\<close>, or will be.\<close>

definition promised :: "sync_name \<Rightarrow> nat \<Rightarrow> plan \<Rightarrow> bool" where
  "promised x i s \<longleftrightarrow> (x, i) \<in> set (pl_log s) \<or> must x (pl_procs s i)"

lemma promised_step: "plan_step released s s' \<Longrightarrow> promised x i s \<Longrightarrow> promised x i s'"
  by (erule plan_step.cases) (auto simp: promised_def)

lemma log_step: "plan_step released s s' \<Longrightarrow> set (pl_log s) \<subseteq> set (pl_log s')"
  by (erule plan_step.cases) auto

text \<open>A property that every tree hands on to its branches.\<close>

lemma procs_step:
  assumes "plan_step released s s'" and "\<And>i. P i (pl_procs s i)"
    and "\<And>i y p. P i (Signal y p) \<Longrightarrow> P i p" and "\<And>i y n p. P i (Barrier y n p) \<Longrightarrow> P i p"
    and "\<And>i y n p q. P i (TimedBarrier y n p q) \<Longrightarrow> P i p \<and> P i q" and "\<And>i f v. P i (Env f) \<Longrightarrow> P i (f v)"
  shows "P i (pl_procs s' i)"
proof -
  from assms(1) obtain j p' where "pl_procs s' = (pl_procs s)(j := p')" and "P j p'"
  proof cases
    case (signal i x p)
    then show thesis using that [of i p] assms(2) [of i] assms(3) [of i x p] by simp
  next
    case (barrier i x n p)
    then show thesis using that [of i p] assms(2) [of i] assms(4) [of i x n p] by simp
  next
    case (in_time i x n p q)
    then show thesis using that [of i p] assms(2) [of i] assms(5) [of i x n p q] by simp
  next
    case (timeout i x n p q)
    then show thesis using that [of i q] assms(2) [of i] assms(5) [of i x n p q] by simp
  next
    case (env i f v)
    then show thesis using that [of i "f v"] assms(2) [of i] assms(6) [of i f v] by simp
  qed
  with assms(2) show ?thesis by simp
qed

lemma signals_card:
  assumes "\<And>j. j \<in> A \<Longrightarrow> (x, j) \<in> set (pl_log s)"
  shows "card A \<le> signals x s"
proof -
  let ?es = "filter (\<lambda>e. fst e = x) (pl_log s)"
  have "A \<subseteq> snd ` set ?es" using assms by force
  then have "card A \<le> card (snd ` set ?es)" by (simp add: card_mono)
  also have "\<dots> \<le> length ?es" by (metis card_image_le card_length finite_set order_trans)
  finally show ?thesis by (simp add: signals_def)
qed

text \<open>No deadlock: the instance at the earliest barrier waits for one that can move.\<close>

lemma plan_progress:
  assumes law: "barrier_law released" and fin: "finite I"
    and ord: "\<And>i. i \<in> I \<Longrightarrow> ordered rk (pl_procs s i)"
    and sup: "\<And>i x n p. i \<in> I \<Longrightarrow> pl_procs s i = Barrier x n p \<Longrightarrow> \<exists>A \<subseteq> I. n \<le> card A \<and> (\<forall>j \<in> A. promised x j s)"
    and i: "i \<in> I" "\<not> is_done (pl_procs s i)"
  shows "\<exists>s'. plan_step released s s'"
proof (rule ccontr)
  assume stuck: "\<not> ?thesis"
  let ?B = "{j \<in> I. \<not> is_done (pl_procs s j)}"
  have blocked: "\<exists>x n p. pl_procs s j = Barrier x n p \<and> signals x s < n" if "j \<in> ?B" for j
  proof (cases "pl_procs s j")
    case (Barrier x n p)
    then have "\<not> n \<le> signals x s" using stuck law plan_step.barrier [OF Barrier] by (auto simp: barrier_law_def)
    with Barrier show ?thesis by auto
  qed (use that stuck plan_step.signal plan_step.timeout plan_step.env [of s j _ _ 0] in \<open>simp, blast+\<close>)
  define at where "at j = (case pl_procs s j of Barrier x n p \<Rightarrow> rk x | _ \<Rightarrow> 0)" for j
  have "finite ?B" "?B \<noteq> {}" using fin i by auto
  then obtain j where j: "j \<in> ?B" and least: "\<And>k. k \<in> ?B \<Longrightarrow> at j \<le> at k"
    using arg_min_if_finite(1) [of ?B at] arg_min_least [of ?B _ at] by blast
  obtain x n p where x: "pl_procs s j = Barrier x n p" "signals x s < n" using blocked [OF j] by blast
  from j have "j \<in> I" by simp
  from sup [OF this x(1)] obtain A where A: "A \<subseteq> I" "n \<le> card A" "\<And>k. k \<in> A \<Longrightarrow> promised x k s" by blast
  then obtain k where k: "k \<in> A" "(x, k) \<notin> set (pl_log s)" using signals_card [of A x s] x(2) by (meson leD order_trans)
  with A have m: "must x (pl_procs s k)" "k \<in> I" by (auto simp: promised_def)
  then have "k \<in> ?B" by (cases "pl_procs s k") auto
  then obtain y m' q where y: "pl_procs s k = Barrier y m' q" using blocked by blast
  with m ord [OF m(2)] have "rk y < rk x" by auto
  with least [OF \<open>k \<in> ?B\<close>] x(1) y show False by (simp add: at_def)
qed

section \<open>Every run ends\<close>

definition height :: "proc \<Rightarrow> nat" where
  "height p = (LEAST n. within p n)"

definition finitely_deep :: "proc \<Rightarrow> bool" where
  "finitely_deep p \<longleftrightarrow> (\<exists>n. within p n)"

lemma height_within: "finitely_deep p \<Longrightarrow> within p (height p)"
  unfolding finitely_deep_def height_def by (rule LeastI_ex)

lemma height_le: "within p n \<Longrightarrow> height p \<le> n"
  unfolding height_def by (rule Least_le)

lemma height_less:
  assumes "finitely_deep p" and "\<And>n. within p n \<Longrightarrow> 0 < n \<and> within p' (n - 1)"
  shows "finitely_deep p' \<and> height p' < height p"
proof -
  have "0 < height p" "within p' (height p - 1)" using assms(2) [OF height_within [OF assms(1)]] by auto
  with height_le [OF this(2)] show ?thesis by (auto simp: finitely_deep_def)
qed

lemma height_branch:
  "finitely_deep (Signal x p) \<Longrightarrow> finitely_deep p \<and> height p < height (Signal x p)"
  "finitely_deep (Barrier x n p) \<Longrightarrow> finitely_deep p \<and> height p < height (Barrier x n p)"
  "finitely_deep (TimedBarrier x n p q) \<Longrightarrow> finitely_deep p \<and> height p < height (TimedBarrier x n p q)"
  "finitely_deep (TimedBarrier x n p q) \<Longrightarrow> finitely_deep q \<and> height q < height (TimedBarrier x n p q)"
  "finitely_deep (Env f) \<Longrightarrow> finitely_deep (f v) \<and> height (f v) < height (Env f)"
  by (erule height_less, simp)+

definition plan_weight :: "nat set \<Rightarrow> plan \<Rightarrow> nat" where
  "plan_weight I s = (\<Sum>i \<in> I. height (pl_procs s i))"

lemma plan_weight_goes_on:
  assumes "finite I" and "i \<in> I" and "height p < height (pl_procs s i)"
  shows "plan_weight I (goes_on s i p) < plan_weight I s"
proof -
  have "(\<Sum>j \<in> I - {i}. height (((pl_procs s)(i := p)) j)) = (\<Sum>j \<in> I - {i}. height (pl_procs s j))"
    by (rule sum.cong) simp_all
  with assms show ?thesis by (simp add: plan_weight_def sum.remove [OF assms(1,2)])
qed

lemma plan_weight_decreases:
  assumes "plan_step released s s'" and "finite I" and "\<And>i. finitely_deep (pl_procs s i)"
    and "\<And>i. i \<notin> I \<Longrightarrow> is_done (pl_procs s i)"
  shows "plan_weight I s' < plan_weight I s"
proof -
  have mem: "i \<in> I" if "\<not> is_done (pl_procs s i)" for i using that assms(4) by blast
  note w = plan_weight_goes_on [OF assms(2)]
  from assms(1) show ?thesis
  proof cases
    case (signal i x p)
    with assms(3) [of i] have "plan_weight I (goes_on s i p) < plan_weight I s" by (intro w mem) (auto dest: height_branch)
    with signal show ?thesis by (simp add: plan_weight_def)
  qed (use assms(3) in \<open>metis height_branch is_done.simps mem w\<close>)+
qed

text \<open>A maximal run: a step in every state that has one.\<close>

definition plan_run :: "(nat \<Rightarrow> nat \<Rightarrow> bool) \<Rightarrow> (nat \<Rightarrow> plan) \<Rightarrow> bool" where
  "plan_run released f \<longleftrightarrow>
     (\<forall>i. plan_step released (f i) (f (Suc i)) \<or> (\<nexists>s'. plan_step released (f i) s') \<and> f (Suc i) = f i)"

lemma plan_run_reaches:
  assumes "plan_run released f"
  shows "(plan_step released)\<^sup>*\<^sup>* (f 0) (f i)"
proof (induction i)
  case (Suc i)
  from assms have "plan_step released (f i) (f (Suc i)) \<or> f (Suc i) = f i" by (auto simp: plan_run_def)
  with Suc show ?case by (metis rtranclp.rtrancl_into_rtrancl)
qed simp

lemma plan_run_exists: "\<exists>f. plan_run released f \<and> f 0 = s"
proof -
  define next' where "next' s = (if \<exists>s'. plan_step released s s' then SOME s'. plan_step released s s' else s)" for s
  define f where "f i = (next' ^^ i) s" for i
  have "plan_step released s (next' s) \<or> (\<nexists>s'. plan_step released s s') \<and> next' s = s" for s
    by (cases "\<exists>s'. plan_step released s s'") (auto simp: next'_def intro: someI)
  then have "plan_run released f \<and> f 0 = s" by (simp add: plan_run_def f_def)
  then show ?thesis by blast
qed

text \<open>No branch crashes.\<close>

primrec calm :: "proc \<Rightarrow> bool" where
  "calm (Done r) = (r \<noteq> Crashed)"
| "calm (Signal y p) = calm p"
| "calm (Barrier y n p) = calm p"
| "calm (TimedBarrier y n p q) = (calm p \<and> calm q)"
| "calm (Env f) = (\<forall>v. calm (f v))"

lemma calm_reached:
  assumes "(plan_step released)\<^sup>*\<^sup>* (plan_init start) s" and "\<And>i. calm (start i)"
  shows "calm (pl_procs s i)"
  using assms(1)
proof (induction arbitrary: i rule: rtranclp_induct)
  case base
  then show ?case by (simp add: plan_init_def assms(2))
next
  case (step s s')
  show ?case by (rule procs_step [OF step(2), of "\<lambda>_. calm"]) (use step(3) in auto)
qed

lemma plan_run_stops:
  assumes "plan_run released f" and "finite I"
    and "\<And>i j. finitely_deep (pl_procs (f i) j)" and "\<And>i j. j \<notin> I \<Longrightarrow> is_done (pl_procs (f i) j)"
  shows "\<exists>i. \<nexists>s'. plan_step released (f i) s'"
proof (rule ccontr)
  assume "\<not> ?thesis"
  then have "plan_step released (f i) (f (Suc i))" for i using assms(1) by (auto simp: plan_run_def)
  then have "plan_weight I (f (Suc i)) < plan_weight I (f i)" for i
    using plan_weight_decreases assms(2-4) by blast
  then have "\<forall>i. (f (Suc i), f i) \<in> measure (plan_weight I)" by simp
  then show False using wf_measure [of "plan_weight I"] unfolding wf_iff_no_infinite_down_chain by blast
qed

section \<open>Coordinated plans\<close>

text \<open>
  A plan of instances in \<open>I\<close>: every barrier without a timeout has enough instances that signal
  its state on every branch. A barrier behind the gate \<open>g\<close> is on \<open>late\<close> and may count on all of
  \<open>I\<close> but the first instance, since the gate only opens when the \<open>m\<close> others gave its signal.
\<close>

locale coordinated =
  fixes I :: "nat set" and start :: "nat \<Rightarrow> proc" and rk :: "sync_name \<Rightarrow> nat"
    and g late :: sync_name and m :: nat and guard :: nat
  assumes fin: "finite I"
    and idle: "i \<notin> I \<Longrightarrow> is_done (start i)"
    and deep: "finitely_deep (start i)"
    and in_order: "ordered rk (start i)"
    and supplied: "(x, n) \<in> free_waits g (start i) \<Longrightarrow> \<exists>A \<subseteq> I. n \<le> card A \<and> (\<forall>j \<in> A. must x (start j))"
    and behind: "(x, n) \<in> waits (start i) \<Longrightarrow> (x, n) \<notin> free_waits g (start i) \<Longrightarrow>
      i = guard \<and> guard \<in> I \<and> x = late \<and> n \<le> Suc m"
    and gate: "gate_ok g m late (start i)"
    and givers: "{j. may g (start j)} \<subseteq> I" "card {j. may g (start j)} = m" "\<not> may g (start guard)"
begin

text \<open>The instances that give the signal of the gate all gave it.\<close>

definition opened :: "plan \<Rightarrow> bool" where
  "opened s \<longleftrightarrow> (\<forall>j. may g (start j) \<longrightarrow> (g, j) \<in> set (pl_log s))"

definition shape :: "plan \<Rightarrow> bool" where
  "shape s \<longleftrightarrow> (\<forall>i. ordered rk (pl_procs s i) \<and> finitely_deep (pl_procs s i) \<and> gate_ok g m late (pl_procs s i) \<and>
     waits (pl_procs s i) \<subseteq> waits (start i) \<and> (may g (pl_procs s i) \<longrightarrow> may g (start i)) \<and>
     (i \<notin> I \<longrightarrow> is_done (pl_procs s i)))"

definition kept :: "plan \<Rightarrow> bool" where
  "kept s \<longleftrightarrow> (\<forall>x i. must x (start i) \<longrightarrow> promised x i s) \<and>
     (\<forall>j. (g, j) \<in> set (pl_log s) \<longrightarrow> promised late j s \<and> \<not> may g (pl_procs s j) \<and> may g (start j)) \<and>
     distinct (filter (\<lambda>e. fst e = g) (pl_log s))"

definition gated :: "plan \<Rightarrow> bool" where
  "gated s \<longleftrightarrow> (\<forall>i. free_waits g (pl_procs s i) \<subseteq> free_waits g (start i) \<or> opened s \<and> promised late i s)"

lemma shape_init: "shape (plan_init start)"
  by (simp add: shape_def plan_init_def in_order deep gate idle)

lemma shape_step: "plan_step released s s' \<Longrightarrow> shape s \<Longrightarrow> shape s'"
  unfolding shape_def
  by (rule allI, erule procs_step [where P = "\<lambda>i p. ordered rk p \<and> finitely_deep p \<and> gate_ok g m late p \<and>
      waits p \<subseteq> waits (start i) \<and> (may g p \<longrightarrow> may g (start i)) \<and> (i \<notin> I \<longrightarrow> is_done p)"])
    (auto simp: UN_subset_iff dest: height_branch)

lemma kept_init: "kept (plan_init start)"
  by (simp add: kept_def plan_init_def promised_def)

lemma kept_step:
  assumes "plan_step released s s'" and "shape s" and "kept s"
  shows "kept s'"
proof -
  note pr = promised_step [OF assms(1)]
  from assms(1) show ?thesis
  proof cases
    case (signal i x p)
    have "gate_ok g m late (Signal x p)" "may g (Signal x p) \<longrightarrow> may g (start i)"
      using assms(2) signal(2) by (metis shape_def)+
    then show ?thesis using assms(3) pr signal by (auto simp: kept_def promised_def)
  qed (use assms(3) pr in \<open>auto simp: kept_def\<close>)
qed

lemma gate_opens:
  assumes "kept s" and "m \<le> signals g s"
  shows "opened s"
proof -
  let ?es = "filter (\<lambda>e. fst e = g) (pl_log s)" and ?G = "{j. may g (start j)}"
  have fin': "finite ?G" using givers(1) fin by (rule finite_subset)
  have sub: "snd ` set ?es \<subseteq> ?G" using assms(1) by (auto simp: kept_def)
  have "inj_on snd (set ?es)" by (auto simp: inj_on_def)
  then have "card (snd ` set ?es) = length ?es"
    using assms(1) by (metis card_image distinct_card kept_def)
  with assms(2) givers(2) have "card ?G \<le> card (snd ` set ?es)" by (simp add: signals_def)
  with sub fin' have "snd ` set ?es = ?G" by (simp add: card_seteq)
  then show ?thesis by (force simp: opened_def)
qed

lemma gated_init: "gated (plan_init start)"
  by (simp add: gated_def plan_init_def)

lemma gated_step:
  assumes "plan_step released s s'" and "barrier_law released" and "shape s" and "kept s" and "gated s"
  shows "gated s'"
proof -
  have keep: "opened s \<and> promised late i s \<Longrightarrow> opened s' \<and> promised late i s'" for i
    using promised_step [OF assms(1)] log_step [OF assms(1)] by (auto simp: opened_def)
  have old: "free_waits g (pl_procs s i) \<subseteq> free_waits g (start i) \<or> opened s' \<and> promised late i s'" for i
    using assms(5) keep by (metis gated_def)
  have new: "gated s'"
    if "pl_procs s' = (pl_procs s)(i := p)" and "free_waits g p \<subseteq> free_waits g (pl_procs s i) \<or> opened s' \<and> promised late i s'" for i p
    unfolding gated_def using old that by (metis fun_upd_apply subset_trans)
  from assms(1) show ?thesis
  proof cases
    case (in_time i x n p q)
    have "opened s' \<and> promised late i s'" if "x = g"
    proof -
      from that assms(3) in_time(2) have ok: "n = m" "must late p" by (auto simp: shape_def dest!: spec [of _ i])
      with in_time(3) that assms(2) have "opened s" using gate_opens [OF assms(4)] by (simp add: barrier_law_def)
      then have "opened s'" using log_step [OF assms(1)] by (auto simp: opened_def)
      with ok in_time(1) show ?thesis by (simp add: promised_def)
    qed
    with in_time show ?thesis by (intro new [of i p]) auto
  next
    case (signal i x p)
    then show ?thesis by (intro new [of i p]) auto
  next
    case (barrier i x n p)
    then show ?thesis by (intro new [of i p]) auto
  next
    case (timeout i x n p q)
    then show ?thesis by (intro new [of i q]) auto
  next
    case (env i f v)
    then show ?thesis by (intro new [of i "f v"]) auto
  qed
qed

lemma reached:
  assumes "(plan_step released)\<^sup>*\<^sup>* (plan_init start) s" and "barrier_law released"
  shows "shape s \<and> kept s \<and> gated s"
  using assms(1)
  by (induction rule: rtranclp_induct)
    (use shape_init kept_init gated_init shape_step kept_step gated_step assms(2) in blast)+

text \<open>Every barrier that an instance can stand at has its signals, given or to come.\<close>

lemma barrier_supplied:
  assumes "shape s" and "kept s" and "gated s" and "pl_procs s i = Barrier x n p"
  shows "\<exists>A \<subseteq> I. n \<le> card A \<and> (\<forall>j \<in> A. promised x j s)"
proof (cases "(x, n) \<in> free_waits g (start i)")
  case True
  from supplied [OF this] assms(2) show ?thesis by (metis kept_def)
next
  case False
  have "(x, n) \<in> waits (start i)" using assms(1,4) by (auto simp: shape_def dest!: spec [of _ i])
  from behind [OF this False] have b: "i = guard" "guard \<in> I" "x = late" "n \<le> Suc m" by auto
  have op: "opened s" "promised late i s" using assms(3,4) False by (auto simp: gated_def dest!: spec [of _ i])
  let ?A = "insert guard {j. may g (start j)}"
  have "finite {j. may g (start j)}" using givers(1) fin by (rule finite_subset)
  then have "n \<le> card ?A" using b(4) givers(2,3) by simp
  moreover have "promised x j s" if "j \<in> ?A" for j
    using that op b assms(2) by (auto simp: kept_def opened_def)
  ultimately show ?thesis using b(2) givers(1) by (intro exI [of _ ?A]) auto
qed

theorem completes:
  assumes "barrier_law released" and "plan_run released f" and "f 0 = plan_init start" and "\<And>i. calm (start i)"
  shows "\<exists>k. \<forall>i. \<exists>r. pl_procs (f k) i = Done r \<and> r \<noteq> Crashed"
proof -
  have reach: "(plan_step released)\<^sup>*\<^sup>* (plan_init start) (f k)" for k
    using plan_run_reaches [OF assms(2), of k] assms(3) by simp
  have inv: "shape (f k) \<and> kept (f k) \<and> gated (f k)" for k
    by (rule reached [OF reach assms(1)])
  obtain k where k: "\<nexists>s'. plan_step released (f k) s'"
    using plan_run_stops [OF assms(2) fin] inv by (metis shape_def)
  have "is_done (pl_procs (f k) i)" for i
  proof (rule ccontr)
    assume nd: "\<not> is_done (pl_procs (f k) i)"
    then have "i \<in> I" using inv [of k] by (metis shape_def)
    then have "\<exists>s'. plan_step released (f k) s'"
      using plan_progress [OF assms(1) fin, of rk "f k" i] inv [of k] nd barrier_supplied [of "f k"] by (auto simp: shape_def)
    with k show False by simp
  qed
  moreover have "calm (pl_procs (f k) i)" for i by (rule calm_reached [OF reach assms(4)])
  ultimately have "\<exists>r. pl_procs (f k) i = Done r \<and> r \<noteq> Crashed" for i
    by (metis calm.simps(1) is_done.elims(2))
  then show ?thesis by blast
qed

end

end
