(* ===== verification/Test_Plans.thy ===== *)
theory Test_Plans
  imports Sync_Plan Network_Setup
begin

text \<open>
  The testground plans \<open>test-plans/data-transfer\<close> and \<open>test-plans/fetching\<close>: one bootstrap node, and
  nodes that come up in batches, find each other and exchange a block. \<open>bootstrap.rs\<close> is the same
  file in both. Each function is the tree of calls to the sync service that it makes; the number
  of an instance is its \<open>global_seq\<close>, the first is the bootstrap node.
\<close>

section \<open>An instance\<close>

datatype if_ip = IfV4 string | IfV6 string

text \<open>
  What an instance finds: its interfaces, its peer id, whether its service comes up, and how the
  service answers the \<open>Put\<close> and \<open>GetBitswap\<close> commands of the tests.
\<close>

record inst =
  in_ifs :: "(string \<times> if_ip) list"
  in_peer :: peer_id
  in_init :: "network_config \<Rightarrow> (unit, string) result"
  in_put :: "(unit, string) result"
  in_get :: "(unit, string) result"

definition NODES_PER_BATCH :: nat where
  "NODES_PER_BATCH = 5"

definition node_init ::
  "'w setup_ops \<Rightarrow> ('w, 'f) swarm_ops \<Rightarrow> 'f filter_ops \<Rightarrow> network_config \<Rightarrow> (('w, 'f) ursa_service, string) result" where
  "node_init su ops fo config = unwrap (service_new su ops fo config)"

text \<open>The address of \<open>eth1\<close>; no such interface and an IPv6 address both panic.\<close>

definition eth1_addr :: "(string \<times> if_ip) list \<Rightarrow> u16 \<Rightarrow> (net_addr, string) result" where
  "eth1_addr ifs port =
     (case find (\<lambda>iface. fst iface = ''eth1'') ifs of
        Some (_, IfV4 addr) \<Rightarrow> Ok [NetProto (''ip4/'' @ addr), NetTcp port]
      | _ \<Rightarrow> Panic)"

definition bootstrap_config :: "net_addr \<Rightarrow> network_config" where
  "bootstrap_config swarm_addr =
     net_config_default\<lparr>nc_bootstrapper := True, nc_bootstrap_nodes := [], nc_swarm_addrs := [swarm_addr]\<rparr>"

definition bootstrap_addr :: "inst \<Rightarrow> (net_addr, string) result" where
  "bootstrap_addr x = bind_res (eth1_addr (in_ifs x) 6009) (\<lambda>a. Ok (a @ [P2p (in_peer x)]))"

definition start_bootstrap :: "inst \<Rightarrow> nat \<Rightarrow> proc" where
  "start_bootstrap x test_instance_count =
     (case eth1_addr (in_ifs x) 6009 of
        Ok swarm_addr \<Rightarrow>
          Signal (Topic ''bootstrap-addr'')
            (case in_init x (bootstrap_config swarm_addr) of
               Ok _ \<Rightarrow>
                 Signal (State ''bootstrap-ready'')
                   (Barrier (State ''done'') (test_instance_count - 1) (Done Success))
             | _ \<Rightarrow> Done Crashed)
      | _ \<Rightarrow> Done Crashed)"

section \<open>Starting a node\<close>

definition node_config :: "net_addr \<Rightarrow> net_addr \<Rightarrow> network_config" where
  "node_config boot local_addr = net_config_default\<lparr>nc_bootstrap_nodes := [boot], nc_swarm_addrs := [local_addr]\<rparr>"

text \<open>The quotient rounded up; the floating point computation of the code is exact up to 2^53 nodes.\<close>

definition num_batches_of :: "nat \<Rightarrow> nat" where
  "num_batches_of num_nodes = (num_nodes + NODES_PER_BATCH - 1) div NODES_PER_BATCH"

fun batch_loop :: "nat \<Rightarrow> nat \<Rightarrow> nat \<Rightarrow> nat list \<Rightarrow> nat \<Rightarrow> (nat \<Rightarrow> proc) \<Rightarrow> proc" where
  "batch_loop num_nodes num_batches seq [] batch_index k = k batch_index"
| "batch_loop num_nodes num_batches seq (i # is) batch_index k =
     (let lower = i * NODES_PER_BATCH + 1;
          upper = (if i = num_batches - 1 then num_nodes else i * NODES_PER_BATCH + NODES_PER_BATCH)
      in if lower \<le> seq \<and> seq \<le> upper
         then Barrier (BatchDone (i - 1)) NODES_PER_BATCH (batch_loop num_nodes num_batches seq is i k)
         else batch_loop num_nodes num_batches seq is batch_index k)"

text \<open>Asking for the peers, at most three times.\<close>

fun discover :: "nat \<Rightarrow> nat \<Rightarrow> nat \<Rightarrow> (nat \<Rightarrow> proc) \<Rightarrow> proc" where
  "discover 0 peer_count peers k = k peers"
| "discover (Suc rounds) peer_count peers k =
     (if peers = peer_count then k peers else Env (\<lambda>found. discover rounds peer_count found k))"

definition start_node :: "inst \<Rightarrow> net_addr \<Rightarrow> nat \<Rightarrow> nat \<Rightarrow> ((unit, string) result \<Rightarrow> proc) \<Rightarrow> proc" where
  "start_node x boot test_instance_count seq k =
     (let num_nodes = test_instance_count - 1; num_batches = num_batches_of num_nodes
      in Barrier (Topic ''bootstrap-addr'') 1
           (case eth1_addr (in_ifs x) 0 of
              Ok local_addr \<Rightarrow>
                batch_loop num_nodes num_batches seq [1..<num_batches] 0 (\<lambda>batch_index.
                  Barrier (State ''bootstrap-ready'') 1
                    (case in_init x (node_config boot local_addr) of
                       Ok _ \<Rightarrow>
                         discover 3 (test_instance_count - 1) 0 (\<lambda>peers.
                           Signal (BatchDone batch_index)
                             (k (if 1 < peers then Ok () else Err ''failed to bootstrap'')))
                     | _ \<Rightarrow> Done Crashed))
            | _ \<Rightarrow> Done Crashed))"

section \<open>The two tests\<close>

definition timeout_msg :: "string \<Rightarrow> nat \<Rightarrow> string" where
  "timeout_msg name seq = ''[Pull] timeout at `'' @ name @ ''` barrier (seq='' @ dec seq @ '').''"

text \<open>
  \<open>data-transfer\<close>: the second instance puts a block, the others poll their store for it. Whether
  the block is there before five seconds are over is up to the environment, 0 is no.
\<close>

definition pull_run_test :: "inst \<Rightarrow> nat \<Rightarrow> nat \<Rightarrow> ((unit, string) result \<Rightarrow> proc) \<Rightarrow> proc" where
  "pull_run_test x test_instance_count seq k =
     (let num_nodes = test_instance_count - 1;
          finish = (\<lambda>result. timed_signal_and_wait (State ''pull-test-done'') num_nodes (k result)
                      (k (Err (timeout_msg ''pull-test-done'' seq))))
      in timed_signal_and_wait (State ''pull-test-ready'') num_nodes
           (if seq = 2 then (case in_put x of Ok _ \<Rightarrow> finish (Ok ()) | _ \<Rightarrow> Done Crashed)
            else Env (\<lambda>arrived. finish (if arrived = 0 then Err ''Data transfer failed'' else Ok ())))
           (k (Err (timeout_msg ''pull-test-ready'' seq))))"

text \<open>
  \<open>fetching\<close>: when the others have the block, the second instance deletes its own copy and fetches
  it again. The wait after a fetch that did not bring the block has no timeout.
\<close>

definition fetch_run_test :: "inst \<Rightarrow> nat \<Rightarrow> nat \<Rightarrow> ((unit, string) result \<Rightarrow> proc) \<Rightarrow> proc" where
  "fetch_run_test x test_instance_count seq k =
     (let num_nodes = test_instance_count - 1;
          finish = (\<lambda>result. timed_signal_and_wait (State ''fetching-test-done'') num_nodes (k result)
                      (k (Err (timeout_msg ''data-transfer-done'' seq))))
      in timed_signal_and_wait (State ''fetching-test-ready'') num_nodes
           (if seq = 2
            then (case in_put x of
                    Ok _ \<Rightarrow>
                      TimedBarrier (State ''data-transfer-done'') (num_nodes - 1)
                        (case in_get x of
                           Ok _ \<Rightarrow>
                             Env (\<lambda>contained.
                               if contained = 0
                               then signal_and_wait (State ''fetching-test-done'') num_nodes
                                      (k (Err ''GetBitswap failed, block is not contained in store.''))
                               else finish (Ok ()))
                         | _ \<Rightarrow> Done Crashed)
                        (k (Err (timeout_msg ''data-transfer-done'' seq)))
                  | _ \<Rightarrow> Done Crashed)
            else Env (\<lambda>arrived.
                   if arrived = 0 then finish (Err ''Data transfer failed'')
                   else Signal (State ''data-transfer-done'') (finish (Ok ()))))
           (k (Err (timeout_msg ''fetching-test-ready'' seq))))"

section \<open>The main functions\<close>

fun outcome_of :: "(unit, string) result \<Rightarrow> outcome" where
  "outcome_of (Ok _) = Success"
| "outcome_of (Err e) = Failure e"
| "outcome_of Panic = Crashed"

definition report :: "nat \<Rightarrow> (unit, string) result \<Rightarrow> proc" where
  "report num_nodes result = signal_and_wait (State ''done'') num_nodes (Done (outcome_of result))"

definition plan_main ::
  "(inst \<Rightarrow> nat \<Rightarrow> nat \<Rightarrow> ((unit, string) result \<Rightarrow> proc) \<Rightarrow> proc) \<Rightarrow> (nat \<Rightarrow> inst) \<Rightarrow> nat \<Rightarrow> nat \<Rightarrow> proc" where
  "plan_main run_test e test_instance_count seq =
     (if seq = 1 then start_bootstrap (e 1) test_instance_count
      else (case bootstrap_addr (e 1) of
              Ok boot \<Rightarrow>
                start_node (e seq) boot test_instance_count seq (\<lambda>node.
                  case node of
                    Ok _ \<Rightarrow> run_test (e seq) test_instance_count seq (report (test_instance_count - 1))
                  | r \<Rightarrow> report (test_instance_count - 1) r)
            | _ \<Rightarrow> Barrier (Topic ''bootstrap-addr'') 1 (Done Crashed)))"

definition data_transfer_main :: "(nat \<Rightarrow> inst) \<Rightarrow> nat \<Rightarrow> nat \<Rightarrow> proc" where
  "data_transfer_main = plan_main pull_run_test"

definition fetching_main :: "(nat \<Rightarrow> inst) \<Rightarrow> nat \<Rightarrow> nat \<Rightarrow> proc" where
  "fetching_main = plan_main fetch_run_test"

text \<open>A run of \<open>n\<close> instances.\<close>

definition instances :: "((nat \<Rightarrow> inst) \<Rightarrow> nat \<Rightarrow> nat \<Rightarrow> proc) \<Rightarrow> (nat \<Rightarrow> inst) \<Rightarrow> nat \<Rightarrow> nat \<Rightarrow> proc" where
  "instances main e n i = (if 1 \<le> i \<and> i \<le> n then main e n i else Done Success)"

section \<open>Batches\<close>

text \<open>The batch of a node: five numbers in a row each, but the last node is in the first batch.\<close>

definition batch_of :: "nat \<Rightarrow> nat \<Rightarrow> nat" where
  "batch_of num_nodes seq = (if seq \<le> num_nodes then (seq - 1) div 5 else 0)"

lemma in_batch_iff:
  assumes "1 \<le> i" and "i < num_batches_of n" and "1 \<le> seq"
  shows "i * 5 + 1 \<le> seq \<and> seq \<le> (if i = num_batches_of n - 1 then n else i * 5 + 5) \<longleftrightarrow> batch_of n seq = i"
proof -
  have last: "5 * (num_batches_of n - 1) < n" "n \<le> 5 * num_batches_of n" if "0 < n"
    using that by (auto simp: num_batches_of_def NODES_PER_BATCH_def)
  have pos: "0 < n" using assms by (cases n) (auto simp: num_batches_of_def NODES_PER_BATCH_def)
  show ?thesis
  proof (cases "i = num_batches_of n - 1")
    case True
    with last [OF pos] assms show ?thesis by (auto simp: batch_of_def)
  next
    case False
    with assms have "i + 1 < num_batches_of n" by simp
    with last [OF pos] assms have "i * 5 + 5 < n" by presburger
    with False assms show ?thesis by (auto simp: batch_of_def) presburger+
  qed
qed

abbreviation in_range :: "nat \<Rightarrow> nat \<Rightarrow> nat \<Rightarrow> nat \<Rightarrow> bool" where
  "in_range n nb seq i \<equiv> i * 5 + 1 \<le> seq \<and> seq \<le> (if i = nb - 1 then n else i * 5 + 5)"

lemma batch_loop_skip:
  "\<forall>i \<in> set is. \<not> in_range n nb seq i \<Longrightarrow> batch_loop n nb seq (is @ js) b k = batch_loop n nb seq js b k"
  by (induction "is") (auto simp: NODES_PER_BATCH_def Let_def)

lemma batch_loop_eq:
  assumes "1 \<le> seq"
  shows "batch_loop n (num_batches_of n) seq [1..<num_batches_of n] 0 k =
    (let b = batch_of n seq in if b = 0 then k 0 else Barrier (BatchDone (b - 1)) NODES_PER_BATCH (k b))"
proof -
  let ?nb = "num_batches_of n" and ?b = "batch_of n seq"
  have hit: "in_range n ?nb seq i \<longleftrightarrow> ?b = i" if "1 \<le> i" "i < ?nb" for i
    using that in_batch_iff [OF _ _ assms, of i n] by simp
  have less: "?b < ?nb \<or> ?b = 0"
    using assms by (auto simp: batch_of_def num_batches_of_def NODES_PER_BATCH_def)
  show ?thesis
  proof (cases "?b = 0")
    case True
    have "\<forall>i \<in> set [1..<?nb]. \<not> in_range n ?nb seq i" using hit True by (metis atLeastLessThan_iff not_one_le_zero set_upt)
    from batch_loop_skip [OF this, of "[]" 0 k] True show ?thesis by simp
  next
    case False
    with less have split: "[1..<?nb] = [1..<?b] @ ?b # [Suc ?b..<?nb]"
      using upt_add_eq_append [of 1 ?b "?nb - ?b"] by (simp add: upt_conv_Cons)
    have "\<forall>i \<in> set [1..<?b]. \<not> in_range n ?nb seq i" "\<forall>i \<in> set [Suc ?b..<?nb]. \<not> in_range n ?nb seq i"
      using hit False less by (auto simp del: One_nat_def)
    note skip = this [THEN batch_loop_skip]
    have "in_range n ?nb seq ?b" using hit False less by simp
    with False show ?thesis
      unfolding split by (subst skip(1)) (use skip(2) [of "[]" ?b k] in \<open>auto simp: NODES_PER_BATCH_def Let_def split: if_splits\<close>)
  qed
qed

text \<open>Every batch that another one waits for is full.\<close>

lemma batch_full:
  assumes "b < batch_of (n - 1) seq"
  shows "card {j. 2 \<le> j \<and> j \<le> n \<and> batch_of (n - 1) j = b} = 5"
proof -
  have le: "5 * b + 6 \<le> n - 1" using assms by (auto simp: batch_of_def split: if_splits)
  show ?thesis
  proof (cases "b = 0")
    case True
    with le have "{j. 2 \<le> j \<and> j \<le> n \<and> batch_of (n - 1) j = b} = insert n {2..5}" by (auto simp: batch_of_def)
    moreover have "n \<notin> {2..5}" using le by (simp, arith)
    ultimately show ?thesis by simp
  next
    case False
    with le have "{j. 2 \<le> j \<and> j \<le> n \<and> batch_of (n - 1) j = b} = {5 * b + 1..5 * b + 5}"
      by (auto simp: batch_of_def) presburger+
    then show ?thesis by simp
  qed
qed

section \<open>Instances that do not crash\<close>

text \<open>
  A healthy instance has an IPv4 address on \<open>eth1\<close>, its service comes up whenever it is configured with bootstrap addresses
  that name peer ids (\<open>peer_ids\<close> are the multihashes that do; \<open>node_init_ok\<close> below shows it for the model of the service),
  and the commands \<open>Put\<close> and \<open>GetBitswap\<close> of the tests are answered with success.
\<close>

definition healthy :: "string set \<Rightarrow> inst \<Rightarrow> bool" where
  "healthy peer_ids x \<longleftrightarrow> in_peer x \<in> peer_ids \<and> (\<exists>addr. find (\<lambda>iface. fst iface = ''eth1'') (in_ifs x) = Some (''eth1'', IfV4 addr)) \<and>
     (\<forall>config. nc_kad_replication_factor config \<noteq> 0 \<and> \<not> nc_mdns config \<and>
        (\<forall>a \<in> set (nc_bootstrap_nodes config). set_option (addr_multihash a) \<subseteq> peer_ids) \<longrightarrow> is_ok (in_init x config)) \<and>
     is_ok (in_put x) \<and> is_ok (in_get x)"

definition sound :: inst where
  "sound = \<lparr>in_ifs = [(''eth1'', IfV4 [])], in_peer = [], in_init = (\<lambda>_. Ok ()), in_put = Ok (), in_get = Ok ()\<rparr>"

lemma healthyD:
  assumes "healthy peer_ids x"
  shows "\<exists>a. eth1_addr (in_ifs x) port = Ok a" and "in_init x (bootstrap_config a) = Ok ()"
    and "set_option (addr_multihash a) \<subseteq> peer_ids \<Longrightarrow> in_init x (node_config a b) = Ok ()" and "in_put x = Ok ()" and "in_get x = Ok ()"
  using assms
  by (auto simp: healthy_def eth1_addr_def bootstrap_config_def node_config_def net_config_default_def is_ok_iff)

lemma sound_sel [simp]:
  "in_ifs sound = [(''eth1'', IfV4 [])]" "in_init sound config = Ok ()" "in_put sound = Ok ()" "in_get sound = Ok ()"
  by (simp_all add: sound_def)

lemma healthy_sound: "healthy UNIV sound"
  by (simp add: healthy_def)

text \<open>The instances of a healthy run differ in their addresses only.\<close>

lemma healthy_same:
  assumes "\<And>i. healthy peer_ids (e i)"
  shows "instances data_transfer_main e n = instances data_transfer_main (\<lambda>_. sound) n"
    and "instances fetching_main e n = instances fetching_main (\<lambda>_. sound) n"
proof -
  have boot: "\<exists>a. bootstrap_addr x = Ok a \<and> set_option (addr_multihash a) \<subseteq> ids" if h: "healthy ids x" for x ids
  proof -
    have "in_peer x \<in> ids" using h by (simp add: healthy_def)
    then have named: "set_option (addr_multihash (a @ [P2p (in_peer x)])) \<subseteq> ids" for a by (simp add: addr_multihash_def)
    obtain a where "eth1_addr (in_ifs x) 6009 = Ok a" using healthyD(1) [OF h, of 6009] by blast
    then have "bootstrap_addr x = Ok (a @ [P2p (in_peer x)])" by (simp add: bootstrap_addr_def)
    with named show ?thesis by blast
  qed
  have "start_bootstrap (e i) n = start_bootstrap sound n" for i
    using healthyD(1) [OF assms, of i 6009] healthyD(1) [OF healthy_sound, of 6009] healthyD(2) [OF assms] healthyD(2) [OF healthy_sound]
    by (auto simp: start_bootstrap_def)
  moreover have "start_node (e i) a n i k = start_node sound b n i k" if "set_option (addr_multihash a) \<subseteq> peer_ids" for a b i k
    using healthyD(1) [OF assms, of i 0] healthyD(1) [OF healthy_sound, of 0] healthyD(3) [OF assms that] healthyD(3) [OF healthy_sound]
    by (auto simp: start_node_def)
  ultimately have "plan_main rt e n i = plan_main rt (\<lambda>_. sound) n i" if "rt (e i) = rt sound" for rt i
    using that boot [OF assms [of 1]] boot [OF healthy_sound] by (auto simp: plan_main_def)
  moreover have "pull_run_test (e i) = pull_run_test sound" "fetch_run_test (e i) = fetch_run_test sound" for i
    by (simp_all add: fun_eq_iff Let_def pull_run_test_def fetch_run_test_def healthyD(4,5) [OF assms] healthyD(4,5) [OF healthy_sound])
  ultimately show "instances data_transfer_main e n = instances data_transfer_main (\<lambda>_. sound) n"
    and "instances fetching_main e n = instances fetching_main (\<lambda>_. sound) n"
    by (auto simp: fun_eq_iff instances_def data_transfer_main_def fetching_main_def)
qed

section \<open>The trees\<close>

lemma must_may: "must x p \<Longrightarrow> may x p"
  by (induction p) auto

lemma orderedI: "(\<And>x. may x p \<Longrightarrow> rk y < rk x) \<Longrightarrow> ordered rk p \<Longrightarrow> ordered rk (Barrier y n p)"
  using must_may by auto

lemma within_mono: "within p n \<Longrightarrow> n \<le> l \<Longrightarrow> within p l"
proof (induction p arbitrary: n l)
  case (Env f)
  have "within (f v) (l - 1)" for v using Env.IH [of "f v" "n - 1" "l - 1"] Env.prems by simp
  with Env.prems show ?case by simp
next
  case (Signal x p)
  then show ?case using Signal.IH [of "n - 1" "l - 1"] by simp
next
  case (Barrier x j p)
  then show ?case using Barrier.IH [of "n - 1" "l - 1"] by simp
next
  case (TimedBarrier x j p q)
  then show ?case using TimedBarrier.IH(1) [of "n - 1" "l - 1"] TimedBarrier.IH(2) [of "n - 1" "l - 1"] by simp
qed simp

lemma discover_tree:
  "may x (discover r c p k) \<Longrightarrow> \<exists>v. may x (k v)"
  "(\<And>v. must x (k v)) \<Longrightarrow> must x (discover r c p k)"
  "(\<And>v. ordered rk (k v)) \<Longrightarrow> ordered rk (discover r c p k)"
  "(\<And>v. gate_ok g j x (k v)) \<Longrightarrow> gate_ok g j x (discover r c p k)"
  "w \<in> waits (discover r c p k) \<Longrightarrow> \<exists>v. w \<in> waits (k v)"
  "w \<in> free_waits g (discover r c p k) \<Longrightarrow> \<exists>v. w \<in> free_waits g (k v)"
  "(\<And>v. w \<in> free_waits g (k v)) \<Longrightarrow> w \<in> free_waits g (discover r c p k)"
  "(\<And>v. within (k v) l) \<Longrightarrow> within (discover r c p k) (l + r)"
  by (induction r arbitrary: p) (auto split: if_splits intro: within_mono [where n = l])

text \<open>A node of a healthy run.\<close>

definition batch_wait :: "nat \<Rightarrow> proc \<Rightarrow> proc" where
  "batch_wait b p = (if b = 0 then p else Barrier (BatchDone (b - 1)) 5 p)"

definition node_tree :: "((unit, string) result \<Rightarrow> proc) \<Rightarrow> nat \<Rightarrow> nat \<Rightarrow> proc" where
  "node_tree k n seq =
     Barrier (Topic ''bootstrap-addr'') 1 (batch_wait (batch_of (n - 1) seq) (Barrier (State ''bootstrap-ready'') 1
       (discover 3 (n - 1) 0 (\<lambda>peers. Signal (BatchDone (batch_of (n - 1) seq))
          (k (if 1 < peers then Ok () else Err ''failed to bootstrap''))))))"

definition boot_tree :: "nat \<Rightarrow> proc" where
  "boot_tree n = Signal (Topic ''bootstrap-addr'') (Signal (State ''bootstrap-ready'') (Barrier (State ''done'') (n - 1) (Done Success)))"

definition after_start ::
  "(inst \<Rightarrow> nat \<Rightarrow> nat \<Rightarrow> ((unit, string) result \<Rightarrow> proc) \<Rightarrow> proc) \<Rightarrow> nat \<Rightarrow> nat \<Rightarrow> (unit, string) result \<Rightarrow> proc" where
  "after_start run_test n seq node =
     (case node of Ok _ \<Rightarrow> run_test sound n seq (report (n - 1)) | r \<Rightarrow> report (n - 1) r)"

lemma plan_main_sound:
  assumes "1 \<le> seq"
  shows "plan_main rt (\<lambda>_. sound) n seq = (if seq = 1 then boot_tree n else node_tree (after_start rt n seq) n seq)"
  using batch_loop_eq [OF assms, of "n - 1"]
  by (auto simp: plan_main_def start_bootstrap_def start_node_def eth1_addr_def bootstrap_addr_def boot_tree_def node_tree_def
      batch_wait_def after_start_def NODES_PER_BATCH_def Let_def cong: result.case_cong)

text \<open>The order of the states: the batches one after the other, then the test, then the end.\<close>

fun plan_rank :: "nat \<Rightarrow> sync_name \<Rightarrow> nat" where
  "plan_rank n (Topic t) = 0"
| "plan_rank n (BatchDone b) = b + 2"
| "plan_rank n (State t) = (if t = ''bootstrap-ready'' then 1 else if t = ''done'' then n + 4 else n + 3)"

lemma batch_less: "1 \<le> seq \<Longrightarrow> seq \<le> n \<Longrightarrow> batch_of (n - 1) seq < n"
  by (auto simp: batch_of_def)

lemma node_tree_may: "may x (node_tree k n seq) \<Longrightarrow> x = BatchDone (batch_of (n - 1) seq) \<or> (\<exists>r. may x (k r))"
  by (auto simp: node_tree_def batch_wait_def split: if_splits dest!: discover_tree(1))

lemma node_tree_must:
  "x = BatchDone (batch_of (n - 1) seq) \<or> (\<forall>r. must x (k r)) \<Longrightarrow> must x (node_tree k n seq)"
  by (auto simp: node_tree_def batch_wait_def intro!: discover_tree(2))

lemma node_tree_ordered:
  assumes "\<And>r. ordered (plan_rank n) (k r)" and "\<And>r x. may x (k r) \<Longrightarrow> n + 3 \<le> plan_rank n x"
    and "1 \<le> seq" and "seq \<le> n"
  shows "ordered (plan_rank n) (node_tree k n seq)"
proof -
  define b where "b = batch_of (n - 1) seq"
  define d where "d = discover 3 (n - 1) 0 (\<lambda>peers. Signal (BatchDone b) (k (if 1 < peers then Ok () else Err ''failed to bootstrap'')))"
  have rank: "b + 2 \<le> plan_rank n x" if "may x d" for x
    using discover_tree(1) [OF that [unfolded d_def]] assms(2) batch_less [OF assms(3,4)] by (fastforce simp: b_def)
  have "ordered (plan_rank n) d" unfolding d_def by (rule discover_tree(3)) (simp add: assms(1))
  then have 1: "ordered (plan_rank n) (Barrier (State ''bootstrap-ready'') 1 d)"
    by (rule orderedI [rotated]) (use rank in force)
  then have 2: "ordered (plan_rank n) (Barrier (BatchDone (b - 1)) 5 (Barrier (State ''bootstrap-ready'') 1 d))" if "b \<noteq> 0"
    by (rule orderedI [rotated]) (use rank that in force)
  have "node_tree k n seq = Barrier (Topic ''bootstrap-addr'') 1 (batch_wait b (Barrier (State ''bootstrap-ready'') 1 d))"
    by (simp add: node_tree_def b_def d_def)
  also have "ordered (plan_rank n) \<dots>"
    by (rule orderedI) (use rank 1 2 in \<open>force simp: batch_wait_def split: if_splits\<close>)+
  finally show ?thesis .
qed

lemma node_tree_waits:
  "w \<in> waits (node_tree k n seq) \<Longrightarrow>
     w \<in> {(Topic ''bootstrap-addr'', 1), (State ''bootstrap-ready'', 1)} \<or>
     0 < batch_of (n - 1) seq \<and> w = (BatchDone (batch_of (n - 1) seq - 1), 5) \<or> (\<exists>r. w \<in> waits (k r))"
  by (auto simp: node_tree_def batch_wait_def split: if_splits dest!: discover_tree(5))

lemma node_tree_free_waits:
  "w \<in> free_waits g (node_tree k n seq) \<Longrightarrow>
     w \<in> {(Topic ''bootstrap-addr'', 1), (State ''bootstrap-ready'', 1)} \<or>
     0 < batch_of (n - 1) seq \<and> w = (BatchDone (batch_of (n - 1) seq - 1), 5) \<or> (\<exists>r. w \<in> free_waits g (k r))"
  by (auto simp: node_tree_def batch_wait_def split: if_splits dest!: discover_tree(6))

lemma node_tree_free:
  "w \<in> {(Topic ''bootstrap-addr'', 1), (State ''bootstrap-ready'', 1)} \<or>
     0 < batch_of (n - 1) seq \<and> w = (BatchDone (batch_of (n - 1) seq - 1), 5) \<or> (\<forall>r. w \<in> free_waits g (k r)) \<Longrightarrow>
   w \<in> free_waits g (node_tree k n seq)"
  by (auto simp: node_tree_def batch_wait_def intro!: discover_tree(7))

lemma node_tree_behind:
  "w \<in> waits (node_tree k n seq) \<Longrightarrow> w \<notin> free_waits g (node_tree k n seq) \<Longrightarrow>
     (\<exists>r. w \<in> waits (k r)) \<and> (\<exists>r. w \<notin> free_waits g (k r))"
  using node_tree_waits [of w k n seq] node_tree_free [of w n seq g k] by blast

lemma node_tree_gate: "(\<And>r. gate_ok (State t) j x (k r)) \<Longrightarrow> gate_ok (State t) j x (node_tree k n seq)"
  by (auto simp: node_tree_def batch_wait_def intro!: discover_tree(4))

lemma node_tree_deep:
  assumes "\<And>r. within (k r) 20"
  shows "finitely_deep (node_tree k n seq)"
proof -
  have "within (discover 3 (n - 1) 0 (\<lambda>peers. Signal (BatchDone b) (k (if 1 < peers then Ok () else Err ''failed to bootstrap'')))) (21 + 3)" for b
    by (rule discover_tree(8)) (simp add: assms)
  then have "within (node_tree k n seq) 30"
    by (auto simp: node_tree_def batch_wait_def intro: within_mono [where n = 24])
  then show ?thesis by (auto simp: finitely_deep_def)
qed

lemmas tail_defs = after_start_def pull_run_test_def fetch_run_test_def report_def signal_and_wait_def timed_signal_and_wait_def Let_def

lemma pull_tail:
  "may x (after_start pull_run_test n seq r) \<Longrightarrow> x \<in> {State ''pull-test-ready'', State ''pull-test-done'', State ''done''}"
  "must (State ''done'') (after_start pull_run_test n seq r)"
  "ordered (plan_rank n) (after_start pull_run_test n seq r)"
  "waits (after_start pull_run_test n seq r) = {(State ''done'', n - 1)}"
  "free_waits (State []) (after_start pull_run_test n seq r) = {(State ''done'', n - 1)}"
  "gate_ok (State []) 0 x (after_start pull_run_test n seq r)"
  "within (after_start pull_run_test n seq r) 20"
  by (auto simp: tail_defs split: result.splits if_splits)

lemma fetch_tail:
  "may x (after_start fetch_run_test n seq r) \<Longrightarrow>
     x \<in> {State ''fetching-test-ready'', State ''fetching-test-done'', State ''done''} \<or> seq \<noteq> 2 \<and> x = State ''data-transfer-done''"
  "must (State ''done'') (after_start fetch_run_test n seq r)"
  "ordered (plan_rank n) (after_start fetch_run_test n seq r)"
  "w \<in> waits (after_start fetch_run_test n seq r) \<Longrightarrow>
     w = (State ''done'', n - 1) \<or> seq = 2 \<and> w = (State ''fetching-test-done'', n - 1)"
  "free_waits (State ''data-transfer-done'') (after_start fetch_run_test n seq r) = {(State ''done'', n - 1)}"
  "gate_ok (State ''data-transfer-done'') (n - 2) (State ''fetching-test-done'') (after_start fetch_run_test n seq r)"
  "within (after_start fetch_run_test n seq r) 20"
  by (auto simp: tail_defs split: result.splits if_splits)

lemma instances_sound:
  "instances (plan_main rt) (\<lambda>_. sound) n i =
     (if i = 1 \<and> 1 \<le> n then boot_tree n else if 2 \<le> i \<and> i \<le> n then node_tree (after_start rt n i) n i else Done Success)"
  by (auto simp: instances_def plan_main_sound)

lemma node_supplied:
  assumes "\<And>j r. must (State ''done'') (after_start rt n j r)"
    and "(x, c) \<in> free_waits g (instances (plan_main rt) (\<lambda>_. sound) n i)"
    and "\<And>j r. free_waits g (after_start rt n j r) \<subseteq> {(State ''done'', n - 1)}"
  shows "\<exists>A \<subseteq> {1..n}. c \<le> card A \<and> (\<forall>j \<in> A. must x (instances (plan_main rt) (\<lambda>_. sound) n j))"
proof -
  let ?start = "instances (plan_main rt) (\<lambda>_. sound) n"
  have in_run: "1 \<le> i \<and> i \<le> n" using assms(2) by (auto simp: instances_sound split: if_splits)
  have "must (State ''done'') (?start j)" if "j \<in> {2..n}" for j
    using that assms(1) by (simp add: instances_sound node_tree_must)
  then have done': ?thesis if "(x, c) = (State ''done'', n - 1)" using that by (intro exI [of _ "{2..n}"]) auto
  have "must y (?start 1)" if "y \<in> {Topic ''bootstrap-addr'', State ''bootstrap-ready''}" for y
    using that in_run by (auto simp: instances_sound boot_tree_def)
  then have first: ?thesis if "x \<in> {Topic ''bootstrap-addr'', State ''bootstrap-ready''}" "c = 1"
    using that in_run by (intro exI [of _ "{1}"]) auto
  have batch: ?thesis if "0 < batch_of (n - 1) i" "(x, c) = (BatchDone (batch_of (n - 1) i - 1), 5)"
  proof -
    let ?A = "{j. 2 \<le> j \<and> j \<le> n \<and> batch_of (n - 1) j = batch_of (n - 1) i - 1}"
    have "card ?A = 5" by (rule batch_full [of _ n i]) (use that in simp)
    moreover have "must x (?start j)" if "j \<in> ?A" for j
      using that \<open>(x, c) = _\<close> by (simp add: instances_sound node_tree_must)
    ultimately show ?thesis using that by (intro exI [of _ ?A]) auto
  qed
  show ?thesis
  proof (cases "i = 1")
    case True
    with assms(2) in_run have "(x, c) = (State ''done'', n - 1)" by (simp add: instances_sound boot_tree_def)
    then show ?thesis by (rule done')
  next
    case False
    with assms(2) in_run have "(x, c) \<in> free_waits g (node_tree (after_start rt n i) n i)" by (simp add: instances_sound)
    from node_tree_free_waits [OF this] show ?thesis using first batch done' assms(3) by blast
  qed
qed

interpretation pull: coordinated "{1..n}" "instances data_transfer_main (\<lambda>_. sound) n" "plan_rank n" "State []" "State []" 0 0
  for n
proof
  let ?start = "instances data_transfer_main (\<lambda>_. sound) n"
  note st = data_transfer_main_def instances_sound
  have none: "\<not> may (State []) (?start i)" for i
    by (auto simp: st boot_tree_def dest!: node_tree_may pull_tail(1))
  then show "{j. may (State []) (?start j)} \<subseteq> {1..n}" "card {j. may (State []) (?start j)} = 0" "\<not> may (State []) (?start 0)" by auto
  show "is_done (?start i)" if "i \<notin> {1..n}" for i using that by (auto simp: st)
  show "finitely_deep (?start i)" for i
    using node_tree_deep [OF pull_tail(7)] by (auto simp: st finitely_deep_def boot_tree_def intro!: exI [of _ 9])
  show "ordered (plan_rank n) (?start i)" for i
    using pull_tail(1) by (auto simp: st boot_tree_def intro!: node_tree_ordered pull_tail(3)) fastforce+
  show "gate_ok (State []) 0 (State []) (?start i)" for i
    by (auto simp: st boot_tree_def intro!: node_tree_gate pull_tail(6))
  show "\<exists>A \<subseteq> {1..n}. c \<le> card A \<and> (\<forall>j \<in> A. must x (?start j))" if "(x, c) \<in> free_waits (State []) (?start i)" for x c i
    using that unfolding data_transfer_main_def by (intro node_supplied pull_tail(2)) (auto simp: pull_tail(5))
  show "i = 0 \<and> 0 \<in> {1..n} \<and> x = State [] \<and> c \<le> Suc 0"
    if "(x, c) \<in> waits (?start i)" "(x, c) \<notin> free_waits (State []) (?start i)" for x c i
    using that by (auto simp: st boot_tree_def pull_tail(4,5) split: if_splits dest!: node_tree_behind)
qed simp

text \<open>In the other plan the nodes after the second give the signal that the block has arrived.\<close>

lemma node_tree_may_intro: "3 \<le> n \<Longrightarrow> may x (k (Ok ())) \<Longrightarrow> may x (node_tree k n seq)"
  by (auto simp: node_tree_def batch_wait_def numeral_3_eq_3 intro!: exI [of _ "n - 1"])

lemma fetching_givers: "{j. may (State ''data-transfer-done'') (instances fetching_main (\<lambda>_. sound) n j)} = {3..n}"
proof -
  have "may (State ''data-transfer-done'') (instances fetching_main (\<lambda>_. sound) n j)" if "3 \<le> j" "j \<le> n" for j
  proof -
    have "may (State ''data-transfer-done'') (after_start fetch_run_test n j (Ok ()))"
      using that by (auto simp: tail_defs intro: exI [of _ 1])
    with that show ?thesis by (simp add: fetching_main_def instances_sound node_tree_may_intro)
  qed
  moreover have "3 \<le> j \<and> j \<le> n" if "may (State ''data-transfer-done'') (instances fetching_main (\<lambda>_. sound) n j)" for j
  proof -
    from that have "2 \<le> j \<and> j \<le> n" and "may (State ''data-transfer-done'') (node_tree (after_start fetch_run_test n j) n j)"
      by (simp_all add: fetching_main_def instances_sound boot_tree_def split: if_splits)
    moreover from node_tree_may [OF this(2)] obtain r
      where "may (State ''data-transfer-done'') (after_start fetch_run_test n j r)" by auto
    from fetch_tail(1) [OF this] have "j \<noteq> 2" by simp
    ultimately show ?thesis by simp
  qed
  ultimately show ?thesis unfolding set_eq_iff mem_Collect_eq atLeastAtMost_iff by blast
qed

interpretation fetching: coordinated "{1..n}" "instances fetching_main (\<lambda>_. sound) n" "plan_rank n"
    "State ''data-transfer-done''" "State ''fetching-test-done''" "n - 2" 2
  for n
proof
  let ?start = "instances fetching_main (\<lambda>_. sound) n" and ?g = "State ''data-transfer-done''"
  note st = fetching_main_def instances_sound
  show "{j. may ?g (?start j)} \<subseteq> {1..n}" "card {j. may ?g (?start j)} = n - 2" by (auto simp: fetching_givers)
  show "\<not> may ?g (?start 2)" using eqset_imp_iff [OF fetching_givers, of 2 n] by simp
  show "is_done (?start i)" if "i \<notin> {1..n}" for i using that by (auto simp: st)
  show "finitely_deep (?start i)" for i
    using node_tree_deep [OF fetch_tail(7)] by (auto simp: st finitely_deep_def boot_tree_def intro!: exI [of _ 9])
  show "ordered (plan_rank n) (?start i)" for i
    using fetch_tail(1) by (auto simp: st boot_tree_def intro!: node_tree_ordered fetch_tail(3)) fastforce+
  show "gate_ok ?g (n - 2) (State ''fetching-test-done'') (?start i)" for i
    by (auto simp: st boot_tree_def intro!: node_tree_gate fetch_tail(6))
  show "\<exists>A \<subseteq> {1..n}. c \<le> card A \<and> (\<forall>j \<in> A. must x (?start j))" if "(x, c) \<in> free_waits ?g (?start i)" for x c i
    using that unfolding fetching_main_def by (intro node_supplied fetch_tail(2)) (auto simp: fetch_tail(5))
  show "i = 2 \<and> 2 \<in> {1..n} \<and> x = State ''fetching-test-done'' \<and> c \<le> Suc (n - 2)"
    if "(x, c) \<in> waits (?start i)" "(x, c) \<notin> free_waits ?g (?start i)" for x c i
    using that by (auto simp: st boot_tree_def fetch_tail(5) split: if_splits dest!: node_tree_behind fetch_tail(4))
qed simp

lemma discover_calm: "(\<And>v. calm (k v)) \<Longrightarrow> calm (discover r c p k)"
  by (induction r arbitrary: p) auto

lemma instances_calm:
  "calm (instances data_transfer_main (\<lambda>_. sound) n i)" "calm (instances fetching_main (\<lambda>_. sound) n i)"
  by (auto simp: data_transfer_main_def fetching_main_def instances_sound boot_tree_def node_tree_def batch_wait_def tail_defs
      intro!: discover_calm split: if_splits)

text \<open>
  C16. Whatever the number of instances and whatever the environment does (peers that are not
  found, blocks that do not arrive, barriers that run out of time), every run of both test plans
  in which the services come up and answer ends with every instance having reported success or
  failure: no instance waits for ever for a batch, for the bootstrap node or for the end of the
  test.\<close>

theorem test_plans_complete:
  assumes "barrier_law released" and "\<And>i. healthy peer_ids (e i)" and "plan_run released f"
    and "f 0 = plan_init (instances main e n)" and "main = data_transfer_main \<or> main = fetching_main"
  shows "\<exists>k. \<forall>i. \<exists>r. pl_procs (f k) i = Done r \<and> r \<noteq> Crashed"
  using assms(5)
proof
  assume "main = data_transfer_main"
  then show ?thesis
    using pull.completes [where n = n, OF assms(1,3) _ instances_calm(1)] assms(4) healthy_same(1) [where e = e and n = n, OF assms(2)]
    by simp
next
  assume "main = fetching_main"
  then show ?thesis
    using fetching.completes [where n = n, OF assms(1,3) _ instances_calm(2)] assms(4) healthy_same(2) [where e = e and n = n, OF assms(2)]
    by simp
qed

theorem test_plans_complete_witness:
  "\<exists>f. plan_run (\<lambda>c n. n \<le> c) f \<and> f 0 = plan_init (instances fetching_main (\<lambda>_. sound) 12) \<and>
     (\<exists>k. \<forall>i. \<exists>r. pl_procs (f k) i = Done r \<and> r \<noteq> Crashed)"
proof -
  have law: "barrier_law (\<lambda>c n. n \<le> c)" by (simp add: barrier_law_def)
  obtain f where f: "plan_run (\<lambda>c n. n \<le> c) f" "f 0 = plan_init (instances fetching_main (\<lambda>_. sound) 12)"
    using plan_run_exists by blast
  have "\<exists>k. \<forall>i. \<exists>r. pl_procs (f k) i = Done r \<and> r \<noteq> Crashed"
    by (rule test_plans_complete [OF law healthy_sound f]) simp
  with f show ?thesis by blast
qed

text \<open>A service on a working network comes up with the configurations of the plans.\<close>

lemma node_init_ok:
  assumes "setup_laws su" and "network_works ops" and "nc_kad_replication_factor config \<noteq> 0" and "\<not> nc_mdns config"
    and "\<forall>a \<in> set (nc_bootstrap_nodes config). set_option (addr_multihash a) \<subseteq> dom (su_from_multihash su)"
  shows "is_ok (node_init su ops fo config)"
proof -
  have "bootstraps_named su config" using assms(5) by (auto simp: bootstraps_named_def)
  then show ?thesis using service_new_ok [OF assms(1,2,3), of fo] assms(4) by (auto simp: node_init_def)
qed

text \<open>
  The last node is counted to the first batch: node numbers begin at 2, and the ranges of the
  batches end at the number of nodes, one less than the last number.
\<close>

lemma last_node_in_first_batch:
  assumes "6 < n"
  shows "batch_of (n - 1) n = 0 \<and> 0 < num_batches_of (n - 1) - 1"
  using assms by (auto simp: batch_of_def num_batches_of_def NODES_PER_BATCH_def)

end
