(* ===== verification/Identity.thy ===== *)
theory Identity
  imports Files
begin

text \<open>
  The identity of a node, \<open>ursa/src/ursa/identity.rs\<close>: an ed25519 key pair in a PEM file. The
  signature scheme and the PEM format are fields of \<open>key_lib\<close>; \<open>'k\<close> is the type of key pairs.
\<close>

section \<open>Key files\<close>

record pem =
  pem_tag :: string
  pem_contents :: bytes

record 'k key_lib =
  kl_encode :: "'k \<Rightarrow> bytes"
  kl_from_secret :: "bytes \<Rightarrow> 'k option"
  kl_pem_encode :: "pem \<Rightarrow> bytes"
  kl_pem_parse :: "bytes \<Rightarrow> pem option"

definition asn1_header :: bytes where
  "asn1_header = [0x30, 0x53, 0x02, 0x01, 0x01, 0x30, 0x05, 0x06, 0x03, 0x2B, 0x65, 0x70, 0x04, 0x22, 0x04, 0x20]"

definition pem_data :: "'k key_lib \<Rightarrow> 'k \<Rightarrow> pem" where
  "pem_data lib keypair =
     (let key = kl_encode lib keypair;
          buf = asn1_header;
          buf = buf @ take 32 key;
          buf = buf @ [0xA1, 0x23, 0x03, 0x21, 0x00];
          buf = buf @ drop 32 key
      in \<lparr>pem_tag = ''PRIVATE KEY'', pem_contents = buf\<rparr>)"

definition encode_pem :: "'k key_lib \<Rightarrow> 'k \<Rightarrow> bytes" where
  "encode_pem lib keypair = kl_pem_encode lib (pem_data lib keypair)"

text \<open>The mode that only lets the owner read and write, \<open>0o600\<close>.\<close>

definition owner_only :: nat where
  "owner_only = 6 * 8 * 8"

definition key_save :: "'k key_lib \<Rightarrow> 'k \<Rightarrow> path \<Rightarrow> fsys \<Rightarrow> (unit, string) result \<times> fsys" where
  "key_save lib keypair path fs =
     (case path_parent path of
        None \<Rightarrow> (Panic, fs)
      | Some dir \<Rightarrow>
          bind_fs (fs_check OpCreateDir dir fs, fs) (\<lambda>_ fs.
          bind_fs (fs_create path fs) (\<lambda>_ fs.
          bind_fs (fs_write_all path (encode_pem lib keypair) fs) (\<lambda>_ fs.
          bind_fs (fs_check OpSync path fs, fs) (\<lambda>_ fs.
          bind_fs (fs_check OpMetadata path fs, fs) (\<lambda>_ fs.
            fs_set_mode path owner_only fs))))))"

text \<open>
  Reading fails with an error when the file cannot be read, and panics when what was read
  is no PEM file, has another tag or is too short.
\<close>

definition key_load :: "'k key_lib \<Rightarrow> path \<Rightarrow> fsys \<Rightarrow> ('k, string) result" where
  "key_load lib path fs =
     bind_res (fs_read_string path fs) (\<lambda>contents.
       case kl_pem_parse lib contents of
         None \<Rightarrow> Panic
       | Some parsed \<Rightarrow>
           if pem_tag parsed = ''PRIVATE KEY'' then
             (if length (pem_contents parsed) < 48 then Panic
              else (case kl_from_secret lib (take 32 (drop 16 (pem_contents parsed))) of
                None \<Rightarrow> Panic
              | Some keypair \<Rightarrow> Ok keypair))
           else Panic)"

section \<open>Identity manager\<close>

text \<open>The argument \<open>gen\<close> is the key pair that \<open>generate_ed25519\<close> returns.\<close>

record 'k identity_manager =
  im_name :: string
  im_identity :: 'k
  im_dir :: path

definition im_default :: "'k \<Rightarrow> 'k identity_manager" where
  "im_default gen = \<lparr>im_name = ''random'', im_identity = gen, im_dir = []\<rparr>"

definition im_random :: "'k \<Rightarrow> 'k identity_manager" where
  "im_random gen = im_default gen"

definition key_path :: "string \<Rightarrow> path \<Rightarrow> path" where
  "key_path name dir = set_extension ''pem'' (path_join dir name)"

definition im_new :: "'k key_lib \<Rightarrow> 'k \<Rightarrow> string \<Rightarrow> path \<Rightarrow> fsys \<Rightarrow> ('k identity_manager, string) result \<times> fsys" where
  "im_new lib gen name dir fs =
     (case key_save lib gen (key_path name dir) fs of
        (Ok _, fs) \<Rightarrow> (Ok \<lparr>im_name = name, im_identity = gen, im_dir = dir\<rparr>, fs)
      | (_, fs) \<Rightarrow> (Panic, fs))"

definition im_load :: "'k key_lib \<Rightarrow> string \<Rightarrow> path \<Rightarrow> fsys \<Rightarrow> ('k identity_manager option, string) result" where
  "im_load lib name dir fs =
     (case key_load lib (key_path name dir) fs of
        Ok identity \<Rightarrow> Ok (Some \<lparr>im_name = name, im_identity = identity, im_dir = dir\<rparr>)
      | Err _ \<Rightarrow> Ok None
      | Panic \<Rightarrow> Panic)"

definition load_or_new ::
  "'k key_lib \<Rightarrow> 'k \<Rightarrow> string \<Rightarrow> path \<Rightarrow> fsys \<Rightarrow> ('k identity_manager, string) result \<times> fsys" where
  "load_or_new lib gen name dir fs =
     (case im_load lib name dir fs of
        Ok (Some im) \<Rightarrow> (Ok im, fs)
      | Ok None \<Rightarrow> im_new lib gen name dir fs
      | Err e \<Rightarrow> (Err e, fs)
      | Panic \<Rightarrow> (Panic, fs))"

definition im_current :: "'k identity_manager \<Rightarrow> 'k" where
  "im_current im = im_identity im"

section \<open>Keys survive\<close>

text \<open>
  The laws of the libraries: a key pair is 64 bytes and follows from its first 32, and a PEM
  file is ASCII and parses back.
\<close>

definition key_laws :: "'k key_lib \<Rightarrow> bool" where
  "key_laws lib \<longleftrightarrow>
     (\<forall>k. length (kl_encode lib k) = 64 \<and> kl_from_secret lib (take 32 (kl_encode lib k)) = Some k) \<and>
     (\<forall>p. pem_tag p = ''PRIVATE KEY'' \<longrightarrow> list_all (\<lambda>b. b \<le> 127) (kl_pem_encode lib p) \<and> kl_pem_parse lib (kl_pem_encode lib p) = Some p)"

definition readable_at :: "path \<Rightarrow> fsys \<Rightarrow> bool" where
  "readable_at p fs = (fs_fault fs OpOpen p = None \<and> fs_fault fs OpRead p = None)"

lemma length_asn1_header [simp]: "length asn1_header = 16"
  by (simp add: asn1_header_def)

lemma pem_data_secret:
  "length (kl_encode lib k) = 64 \<Longrightarrow>
     take 32 (drop 16 (pem_contents (pem_data lib k))) = take 32 (kl_encode lib k) \<and>
     48 \<le> length (pem_contents (pem_data lib k))"
  by (simp add: pem_data_def Let_def)

lemma key_load_encoded:
  assumes "key_laws lib" and "readable_at path fs" and "fs_files fs path = Some (encode_pem lib k, m)"
  shows "key_load lib path fs = Ok k"
proof -
  have "utf8_valid (encode_pem lib k)" "kl_pem_parse lib (encode_pem lib k) = Some (pem_data lib k)"
    using assms(1) by (simp_all add: key_laws_def encode_pem_def utf8_valid_ascii pem_data_def Let_def)
  moreover have "length (kl_encode lib k) = 64" "kl_from_secret lib (take 32 (kl_encode lib k)) = Some k"
    using assms(1) by (simp_all add: key_laws_def)
  ultimately show ?thesis using assms(2,3) pem_data_secret [of lib k]
    by (auto simp: key_load_def fs_read_string_def fs_read_def fs_check_def readable_at_def pem_data_def Let_def)
qed

lemma key_save_Ok:
  assumes "key_save lib k path fs = (Ok (), fs')"
  shows "fs' = fs\<lparr>fs_files := (fs_files fs)(path \<mapsto> (encode_pem lib k, owner_only))\<rparr>"
  using assms
  by (auto simp: key_save_def bind_fs_Ok_iff fs_create_def fs_write_all_def fs_set_mode_def fs_set_contents_def
      split: option.splits)

lemma key_save_load:
  assumes "key_laws lib" and "readable_at path fs" and "key_save lib k path fs = (Ok (), fs')"
  shows "key_load lib path fs' = Ok k"
  using key_load_encoded [OF assms(1), of path fs' k owner_only] key_save_Ok [OF assms(3)] assms(2)
  by (simp add: readable_at_def)

lemma load_or_new_cases:
  assumes "load_or_new lib gen name dir fs = (Ok im, fs')"
  shows "(key_load lib (key_path name dir) fs = Ok (im_identity im) \<and> fs' = fs) \<or>
    (key_save lib (im_identity im) (key_path name dir) fs = (Ok (), fs') \<and> im_identity im = gen)"
  using assms
  by (auto simp: load_or_new_def im_load_def im_new_def split: result.splits option.splits prod.splits)

lemma load_or_new_loads:
  "key_load lib (key_path name dir) fs = Ok k \<Longrightarrow>
     load_or_new lib gen name dir fs = (Ok \<lparr>im_name = name, im_identity = k, im_dir = dir\<rparr>, fs)"
  by (simp add: load_or_new_def im_load_def)

lemma load_or_new_settles:
  assumes "key_laws lib" and "readable_at (key_path name dir) fs"
    and "load_or_new lib gen name dir fs = (Ok im, fs')"
  shows "key_load lib (key_path name dir) fs' = Ok (im_current im)"
  using load_or_new_cases [OF assms(3)] key_save_load [OF assms(1,2)] by (auto simp: im_current_def)

lemma load_or_new_files:
  assumes "load_or_new lib gen name dir fs = (Ok im, fs')" and "p \<noteq> key_path name dir"
  shows "fs_files fs' p = fs_files fs p" and "fs_fault fs' = fs_fault fs"
  using load_or_new_cases [OF assms(1)] assms(2) by (auto dest: key_save_Ok)

interpretation im: restartable "\<lambda>gen. load_or_new lib gen name dir"
  "\<lambda>fs. key_laws lib \<and> readable_at (key_path name dir) fs" for lib name dir
proof
  fix fs g x fs' g'
  assume ok: "key_laws lib \<and> readable_at (key_path name dir) fs" and l: "load_or_new lib g name dir fs = (Ok x, fs')"
  have "im_name x = name \<and> im_dir x = dir"
    using l by (auto simp: load_or_new_def im_load_def im_new_def split: result.splits option.splits prod.splits)
  then have "x = \<lparr>im_name = name, im_identity = im_current x, im_dir = dir\<rparr>" by (simp add: im_current_def)
  with ok load_or_new_settles [OF _ _ l] load_or_new_loads [of lib name dir fs'] show "load_or_new lib g' name dir fs' = (Ok x, fs')"
    by metis
qed

text \<open>
  A node keeps its identity: once a key was loaded or made under a name, every later
  start under any name with the same key file loads the same key and writes nothing,
  whatever new key it had drawn.\<close>

theorem identity_survives_restart:
  assumes "key_laws lib" and "readable_at (key_path name dir) fs"
    and "load_or_new lib gen name dir fs = (Ok im, fs')"
    and "key_path name' dir' = key_path name dir"
  shows "load_or_new lib gen' name' dir' fs' =
    (Ok \<lparr>im_name = name', im_identity = im_current im, im_dir = dir'\<rparr>, fs')"
  using load_or_new_settles [OF assms(1-3)] load_or_new_loads [of lib name' dir' fs'] assms(4) by simp

text \<open>
  An existing key file that cannot be read for the moment, or holds a byte that is not
  UTF-8, is not kept: the node overwrites it with a new key and its old identity is gone.\<close>

theorem unreadable_key_overwritten:
  assumes "fs_read_string (key_path name dir) fs = Err e"
    and "key_save lib gen (key_path name dir) fs = (Ok (), fs')"
  shows "load_or_new lib gen name dir fs = (Ok \<lparr>im_name = name, im_identity = gen, im_dir = dir\<rparr>, fs') \<and>
    fs_files fs' (key_path name dir) = Some (encode_pem lib gen, owner_only)"
  using assms key_save_Ok [OF assms(2)] by (simp add: load_or_new_def im_load_def im_new_def key_load_def)

text \<open>Names that differ only after their last dot have one key file, and so one identity.\<close>

lemma dotted_names_share_key:
  assumes "stem \<noteq> []" and "CHR ''.'' \<notin> set x" and "CHR ''.'' \<notin> set y"
    and "set (stem @ x @ y) \<inter> {CHR ''/''} = {}" and "x \<noteq> []" and "y \<noteq> []"
  shows "key_path (stem @ CHR ''.'' # x) [] = key_path (stem @ CHR ''.'' # y) []"
proof -
  have "segments (stem @ CHR ''.'' # z) = [stem @ CHR ''.'' # z]" if "z \<in> {x, y}" for z
    using assms that by (auto simp: segments_def split_on_none append_eq_Cons_conv)
  then show ?thesis using assms file_stem_dot
    by (auto simp: key_path_def path_join_def set_extension_def append_eq_Cons_conv split: list.splits)
qed

section \<open>Witnesses\<close>

fun unpair :: "bytes \<Rightarrow> bytes" where
  "unpair (a # b # bs) = (16 * a + b) # unpair bs"
| "unpair _ = []"

definition key_lib0 :: "bool key_lib" where
  "key_lib0 = \<lparr>kl_encode = (\<lambda>k. replicate 64 (if k then 1 else 0)), kl_from_secret = (\<lambda>b. Some (hd b = 1)),
     kl_pem_encode = (\<lambda>p. concat (map (\<lambda>b. [b div 16, b mod 16]) (pem_contents p))),
     kl_pem_parse = (\<lambda>b. Some \<lparr>pem_tag = ''PRIVATE KEY'', pem_contents = unpair b\<rparr>)\<rparr>"

lemma unpair_concat: "unpair (concat (map (\<lambda>b. [b div 16, b mod 16]) bs)) = bs"
  by (induction bs) (simp_all add: mult_div_mod_eq [of "16 :: byte"])

lemma nibbles: "list_all (\<lambda>b. b \<le> 127) (concat (map (\<lambda>b. [b div 16, b mod 16]) (bs :: bytes)))"
proof -
  have "unat (b div 16) \<le> 127" "unat (b mod 16) \<le> 127" for b :: byte
    using unsigned_less [of b, where 'a=nat] by (simp_all add: unat_div unat_mod)
  then have "b div 16 \<le> 127" "b mod 16 \<le> 127" for b :: byte by (simp_all add: word_le_nat_alt)
  then show ?thesis by (induction bs) simp_all
qed

lemma key_laws0: "key_laws key_lib0"
  using nibbles by (simp add: key_laws_def key_lib0_def unpair_concat)

definition calm_fs :: "(path \<Rightarrow> (bytes \<times> nat) option) \<Rightarrow> fsys" where
  "calm_fs files = \<lparr>fs_files = files, fs_fault = (\<lambda>_ _. None), fs_partial = 0, fs_umask = 420\<rparr>"

lemma key_path0: "key_path ''node.a'' ''keys'' = ''keys/node.pem''" "key_path ''node.b'' ''keys'' = ''keys/node.pem''"
  by (simp_all add: key_path_def path_join_def set_extension_def segments_def file_stem_def)

lemma key_save0:
  "key_save lib k ''keys/node.pem'' (calm_fs files) = (Ok (), calm_fs (files(''keys/node.pem'' \<mapsto> (encode_pem lib k, owner_only))))"
  by (simp add: key_save_def path_parent_def segments_def calm_fs_def fs_check_def fs_create_def fs_write_all_def
      fs_set_contents_def fs_set_mode_def)

theorem identity_survives_restart_witness:
  "\<exists>fs'. load_or_new key_lib0 True ''node.a'' ''keys'' (calm_fs Map.empty) =
       (Ok \<lparr>im_name = ''node.a'', im_identity = True, im_dir = ''keys''\<rparr>, fs') \<and>
     load_or_new key_lib0 False ''node.b'' ''keys'' fs' =
       (Ok \<lparr>im_name = ''node.b'', im_identity = True, im_dir = ''keys''\<rparr>, fs')"
proof -
  let ?fs = "calm_fs (Map.empty(''keys/node.pem'' \<mapsto> (encode_pem key_lib0 True, owner_only)))"
  have first: "load_or_new key_lib0 True ''node.a'' ''keys'' (calm_fs Map.empty) =
      (Ok \<lparr>im_name = ''node.a'', im_identity = True, im_dir = ''keys''\<rparr>, ?fs)"
    unfolding load_or_new_def im_load_def im_new_def key_path0 key_save0
    by (simp add: key_load_def fs_read_string_def fs_read_def fs_check_def calm_fs_def)
  have "readable_at (key_path ''node.a'' ''keys'') (calm_fs Map.empty)" by (simp add: readable_at_def calm_fs_def)
  from identity_survives_restart [OF key_laws0 this first, of "''node.b''" "''keys''" False] first
  show ?thesis by (simp add: key_path0 im_current_def)
qed

theorem unreadable_key_overwritten_witness:
  "\<exists>fs'. load_or_new key_lib0 False ''node.a'' ''keys'' (calm_fs (Map.empty(''keys/node.pem'' \<mapsto> ([255], 384)))) =
     (Ok \<lparr>im_name = ''node.a'', im_identity = False, im_dir = ''keys''\<rparr>, fs')"
proof -
  have "fs_read_string (key_path ''node.a'' ''keys'') (calm_fs (Map.empty(''keys/node.pem'' \<mapsto> ([255], 384)))) =
      Err ''stream did not contain valid UTF-8''"
    by (simp add: key_path0 fs_read_string_def fs_read_def fs_check_def calm_fs_def)
  from unreadable_key_overwritten [OF this key_save0 [of key_lib0 False, folded key_path0(1)]]
  show ?thesis by blast
qed

end
