(* ===== verification/Tracker.thy ===== *)
theory Tracker
  imports Files
begin

text \<open>
  The node tracker, \<open>ursa-tracker/src/{main,types,ip_api,lib}.rs\<close>: nodes register over HTTP,
  the tracker looks their address up and stores them, and Prometheus asks it for the nodes
  that registered lately. Address lookup, DNS, JSON, the geohash and the database are fields
  of \<open>tracker_env\<close> and \<open>tracker_db\<close>, and \<open>'j\<close> is the JSON text that the database stores; times are milliseconds since 1970 in 64 bits.
\<close>

section \<open>Types\<close>

record tracker_registration =
  tg_id :: string
  tg_agent :: string
  tg_addr :: "string option"
  tg_p2p_port :: "u16 option"
  tg_http_port :: "u16 option"
  tg_telemetry :: "bool option"

record tracked_node =
  nd_id :: string
  nd_agent :: string
  nd_addr :: string
  nd_p2p_port :: u16
  nd_http_port :: u16
  nd_telemetry :: bool
  nd_geohash :: string
  nd_timezone :: string
  nd_country_code :: string
  nd_last_registered :: nat

definition node_from_info ::
  "nat \<Rightarrow> tracker_registration \<Rightarrow> string \<Rightarrow> string \<Rightarrow> string \<Rightarrow> string \<Rightarrow> tracked_node" where
  "node_from_info now registration addr geohash timezone country_code =
     \<lparr>nd_id = tg_id registration, nd_agent = tg_agent registration,
      nd_addr = unwrap_or addr (tg_addr registration),
      nd_p2p_port = unwrap_or 6009 (tg_p2p_port registration),
      nd_http_port = unwrap_or 4069 (tg_http_port registration),
      nd_telemetry = unwrap_or True (tg_telemetry registration),
      nd_geohash = geohash, nd_timezone = timezone, nd_country_code = country_code,
      nd_last_registered = now mod 2 ^ 64\<rparr>"

record discovery_chunk =
  dc_targets :: "string list"
  dc_labels :: "(string, string) hmap"

definition chunk_of_node :: "tracked_node \<Rightarrow> discovery_chunk" where
  "chunk_of_node node =
     (let labels = [];
          labels = hm_insert ''id'' (nd_id node) labels;
          labels = hm_insert ''geohash'' (nd_geohash node) labels;
          labels = hm_insert ''country_code'' (nd_country_code node) labels;
          labels = hm_insert ''timezone'' (nd_timezone node) labels;
          labels = hm_insert ''agent'' (nd_agent node) labels
      in \<lparr>dc_targets = [nd_addr node @ '':'' @ dec (unat (nd_http_port node))], dc_labels = labels\<rparr>)"

record ip_info =
  ii_addr :: string
  ii_hostname :: string
  ii_city :: string
  ii_region :: string
  ii_country :: string
  ii_loc :: string
  ii_org :: string
  ii_postal :: string
  ii_timezone :: string
  ii_geo :: string

section \<open>Address lookup\<close>

record ('f, 'j) tracker_env =
  tk_is_ip :: "string \<Rightarrow> bool"
  tk_resolve :: "string \<Rightarrow> (string list, string) result"
  tk_get :: "string \<Rightarrow> (nat \<times> (bytes, string) result, string) result"
  tk_parse_info :: "bytes \<Rightarrow> (ip_info, string) result"
  tk_parse_f64 :: "string \<Rightarrow> ('f, string) result"
  tk_geohash :: "'f \<Rightarrow> 'f \<Rightarrow> nat \<Rightarrow> (string, string) result"
  tk_node_json :: "tracked_node \<Rightarrow> 'j"
  tk_node_parse :: "'j \<Rightarrow> tracked_node option"
  tk_header_str :: "bytes \<Rightarrow> string option"
  tk_status_str :: "nat \<Rightarrow> string"

definition geohash :: "('f, 'j) tracker_env \<Rightarrow> 'f \<Rightarrow> 'f \<Rightarrow> (string, string) result" where
  "geohash env lat lon = tk_geohash env lon lat 7"

definition lookup_ip :: "('f, 'j) tracker_env \<Rightarrow> string \<Rightarrow> (string \<times> bool, string) result" where
  "lookup_ip env addr =
     (if addr \<noteq> [] \<and> \<not> tk_is_ip env addr then
        bind_res (tk_resolve env addr) (\<lambda>ips. case ips of [] \<Rightarrow> Err ''No ip found'' | ip # _ \<Rightarrow> Ok (ip, True))
      else Ok (addr, False))"

text \<open>
  The location is two numbers with a comma between them. The second one is read by index,
  which panics when there is no comma.
\<close>

definition locate :: "('f, 'j) tracker_env \<Rightarrow> string \<Rightarrow> (string, string) result" where
  "locate env loc =
     bind_res (tk_parse_f64 env (hd (split_on CHR '','' loc))) (\<lambda>lat.
       case tl (split_on CHR '','' loc) of
         [] \<Rightarrow> Panic
       | l1 # _ \<Rightarrow> bind_res (tk_parse_f64 env l1) (\<lambda>lon. geohash env lat lon))"

definition get_ip_info :: "('f, 'j) tracker_env \<Rightarrow> string \<Rightarrow> string \<Rightarrow> (ip_info, string) result" where
  "get_ip_info env token addr =
     bind_res (lookup_ip env addr) (\<lambda>(ip, dns).
     bind_res (tk_get env (''https://ipinfo.io/'' @ ip @ ''?token='' @ token)) (\<lambda>(status, body).
     bind_res body (\<lambda>data.
       if \<not> (200 \<le> status \<and> status < 300) then Err (''Failed to get ip info: '' @ tk_status_str env status)
       else bind_res (tk_parse_info env data) (\<lambda>info.
         bind_res (locate env (ii_loc info)) (\<lambda>geo.
           Ok (info\<lparr>ii_geo := geo, ii_addr := (if dns then addr else ii_addr info)\<rparr>))))))"

section \<open>Handlers\<close>

record ('d, 'j) tracker_db =
  tdb_write :: "'d \<Rightarrow> string \<Rightarrow> 'j \<Rightarrow> (unit, string) result \<times> 'd"
  tdb_iter :: "'d \<Rightarrow> (string \<times> 'j, string) result list"

datatype tracker_body = JsonNode tracked_node | JsonError string

text \<open>The address of the request, behind a proxy that of the header; the loopback address is dropped.\<close>

definition request_ip :: "('f, 'j) tracker_env \<Rightarrow> bytes option \<Rightarrow> string \<Rightarrow> (string, string) result" where
  "request_ip env forwarded_for req_ip =
     bind_res (case forwarded_for of
                 Some h \<Rightarrow> (case tk_header_str env h of Some x \<Rightarrow> Ok x | None \<Rightarrow> Panic)
               | None \<Rightarrow> Ok req_ip) (\<lambda>ip.
       Ok (if ip \<noteq> ''127.0.0.1'' then ip else []))"

definition registration_handler ::
  "('f, 'j) tracker_env \<Rightarrow> ('d, 'j) tracker_db \<Rightarrow> string \<Rightarrow> bytes option \<Rightarrow> string \<Rightarrow> nat \<Rightarrow> tracker_registration \<Rightarrow> 'd \<Rightarrow>
   (nat \<times> tracker_body, string) result \<times> 'd" where
  "registration_handler env db token forwarded_for req_ip now registration d =
     (case (case tg_addr registration of Some a \<Rightarrow> Ok a | None \<Rightarrow> request_ip env forwarded_for req_ip) of
        Ok addr \<Rightarrow>
          (case get_ip_info env token addr of
             Ok info \<Rightarrow>
               (let entry = node_from_info now registration (ii_addr info) (ii_geo info) (ii_timezone info) (ii_country info)
                in case tdb_write db d (tg_id registration) (tk_node_json env entry) of
                     (Ok _, d1) \<Rightarrow> (Ok (200, JsonNode entry), d1)
                   | (Err e, d1) \<Rightarrow> (Ok (500, JsonError e), d1)
                   | (Panic, d1) \<Rightarrow> (Panic, d1))
           | Err e \<Rightarrow> (Ok (503, JsonError e), d)
           | Panic \<Rightarrow> (Panic, d))
      | Err e \<Rightarrow> (Err e, d)
      | Panic \<Rightarrow> (Panic, d))"

definition one_month :: nat where
  "one_month = 2629800000"

fun collect_services ::
  "('f, 'j) tracker_env \<Rightarrow> nat \<Rightarrow> (string \<times> 'j, string) result list \<Rightarrow> (discovery_chunk list, string) result" where
  "collect_services env now [] = Ok []"
| "collect_services env now (Ok (k, v) # rs) =
     (case tk_node_parse env v of
        None \<Rightarrow> Panic
      | Some node \<Rightarrow>
          bind_res (collect_services env now rs) (\<lambda>cs.
            Ok (if u64_sub (now mod 2 ^ 64) (nd_last_registered node) < one_month then chunk_of_node node # cs else cs)))"
| "collect_services env now (_ # rs) = collect_services env now rs"

definition http_sd_handler ::
  "('f, 'j) tracker_env \<Rightarrow> ('d, 'j) tracker_db \<Rightarrow> nat \<Rightarrow> 'd \<Rightarrow> (nat \<times> discovery_chunk list, string) result" where
  "http_sd_handler env db now d =
     bind_res (collect_services env now (tdb_iter db d)) (\<lambda>services. Ok (200, services))"

text \<open>
  The client side: \<open>build\<close> makes the request with the registration as its JSON body, \<open>send\<close>
  is the HTTP client with the body of the reply as text.
\<close>

definition register_with_tracker ::
  "(nat \<Rightarrow> string) \<Rightarrow> (string \<Rightarrow> tracker_registration \<Rightarrow> ('r, string) result) \<Rightarrow>
   ('r \<Rightarrow> (nat \<times> (string, string) result, string) result) \<Rightarrow>
   string \<Rightarrow> tracker_registration \<Rightarrow> (string, string) result" where
  "register_with_tracker status_str build send tracker registration =
     bind_res (build tracker registration) (\<lambda>req.
     bind_res (send req) (\<lambda>(status, body).
     bind_res body (\<lambda>body.
       if 200 \<le> status \<and> status < 300 then Ok body
       else Err (''Tracker returned error: '' @ status_str status @ '' - '' @ body))))"

section \<open>Discovery\<close>

definition entries :: "(string \<times> 'j, string) result list \<Rightarrow> (string \<times> 'j) list" where
  "entries rs = concat (map (\<lambda>r. case r of Ok e \<Rightarrow> [e] | _ \<Rightarrow> []) rs)"

definition registered :: "('f, 'j) tracker_env \<Rightarrow> ('d, 'j) tracker_db \<Rightarrow> 'd \<Rightarrow> tracked_node list" where
  "registered env db d = List.map_filter (tk_node_parse env \<circ> snd) (entries (tdb_iter db d))"

definition parseable :: "('f, 'j) tracker_env \<Rightarrow> ('d, 'j) tracker_db \<Rightarrow> 'd \<Rightarrow> bool" where
  "parseable env db d = list_all (\<lambda>(k, v). tk_node_parse env v \<noteq> None) (entries (tdb_iter db d))"

text \<open>
  What the database and serde promise: a batch that was written is read back, other keys stay, and
  a batch that could not be written changes nothing.
\<close>

definition tracker_laws :: "('f, 'j) tracker_env \<Rightarrow> ('d, 'j) tracker_db \<Rightarrow> bool" where
  "tracker_laws env db \<longleftrightarrow>
     (\<forall>n. tk_node_parse env (tk_node_json env n) = Some n) \<and>
     (\<forall>d k v d'. tdb_write db d k v = (Ok (), d') \<longrightarrow>
        set (entries (tdb_iter db d')) = insert (k, v) {e \<in> set (entries (tdb_iter db d)). fst e \<noteq> k}) \<and>
     (\<forall>d k v r d'. tdb_write db d k v = (r, d') \<and> \<not> is_ok r \<longrightarrow>
        set (entries (tdb_iter db d')) = set (entries (tdb_iter db d)))"

lemma entries_simps [simp]:
  "entries [] = []" "entries (Ok e # rs) = e # entries rs"
  "entries (Err x # rs) = entries rs" "entries (Panic # rs) = entries rs"
  by (simp_all add: entries_def)

lemma mem_map_filter: "y \<in> set (List.map_filter f xs) \<longleftrightarrow> (\<exists>x \<in> set xs. f x = Some y)"
  by (induction xs) (auto simp: List.map_filter_def)

lemma collect_services_total:
  "list_all (\<lambda>(k, v). tk_node_parse env v \<noteq> None) (entries rs) \<Longrightarrow>
     collect_services env now rs = Ok (map chunk_of_node
       (filter (\<lambda>n. u64_sub (now mod 2 ^ 64) (nd_last_registered n) < one_month)
         (List.map_filter (tk_node_parse env \<circ> snd) (entries rs))))"
  by (induction env now rs rule: collect_services.induct) (auto simp: List.map_filter_def)

lemma collect_services_panics:
  "\<not> list_all (\<lambda>(k, v). tk_node_parse env v \<noteq> None) (entries rs) \<Longrightarrow> collect_services env now rs = Panic"
  by (induction env now rs rule: collect_services.induct) (auto split: option.splits)

lemma http_sd_parseable:
  assumes "parseable env db d"
  shows "http_sd_handler env db now d = Ok (200, map chunk_of_node
    (filter (\<lambda>n. u64_sub (now mod 2 ^ 64) (nd_last_registered n) < one_month) (registered env db d)))"
  using collect_services_total [OF assms [unfolded parseable_def], of now]
  by (simp add: http_sd_handler_def registered_def)

lemma http_sd_unparseable: "\<not> parseable env db d \<Longrightarrow> http_sd_handler env db now d = Panic"
  using collect_services_panics [of env "tdb_iter db d" now] by (simp add: http_sd_handler_def parseable_def)

text \<open>The age of a node, computed in 64 bits, is small only for a past and recent time.\<close>

lemma age_recent_iff:
  assumes "now < 2 ^ 63" and "t < 2 ^ 63"
  shows "u64_sub (now mod 2 ^ 64) t < one_month \<longleftrightarrow> t \<le> now \<and> now < t + one_month"
proof (cases "t \<le> now")
  case True
  with assms show ?thesis by (auto simp: u64_sub_exact)
next
  case False
  then have "u64_sub (now mod 2 ^ 64) t = now + 2 ^ 64 - t" using assms by (simp add: u64_sub_def)
  with False assms show ?thesis by (simp add: one_month_def)
qed

lemma registration_ok_cases:
  assumes "registration_handler env db token fwd ip t reg d = (Ok (200, JsonNode n), d')"
  shows "\<exists>addr geo tz country. n = node_from_info t reg addr geo tz country \<and>
    tdb_write db d (tg_id reg) (tk_node_json env n) = (Ok (), d')"
  using assms
  by (simp add: registration_handler_def Let_def split: result.splits prod.splits option.splits) blast+

lemma parseable_write:
  assumes "tracker_laws env db" and "parseable env db d" and "tdb_write db d k (tk_node_json env n) = (Ok (), d')"
  shows "parseable env db d' \<and> n \<in> set (registered env db d')"
proof -
  have "set (entries (tdb_iter db d')) =
      insert (k, tk_node_json env n) {e \<in> set (entries (tdb_iter db d)). fst e \<noteq> k}"
    and "tk_node_parse env (tk_node_json env n) = Some n"
    using assms(1,3) unfolding tracker_laws_def by blast+
  with assms(2) show ?thesis
    by (auto simp: parseable_def registered_def list_all_iff mem_map_filter)
qed

text \<open>
  Registrations that arrive one after the other; a request comes with its header, its address and the
  time at which it is handled, and nothing is said about how it is answered.
\<close>

primrec registrations ::
  "('f, 'j) tracker_env \<Rightarrow> ('d, 'j) tracker_db \<Rightarrow> string \<Rightarrow> (bytes option \<times> string \<times> nat \<times> tracker_registration) list \<Rightarrow> 'd \<Rightarrow> 'd" where
  "registrations env db token [] d = d"
| "registrations env db token (req # reqs) d =
     (case req of (fwd, ip, t, reg) \<Rightarrow>
        registrations env db token reqs (snd (registration_handler env db token fwd ip t reg d)))"

lemma registration_state:
  "snd (registration_handler env db token fwd ip t reg d) = d \<or>
   (\<exists>n r. tdb_write db d (tg_id reg) (tk_node_json env n) = (r, snd (registration_handler env db token fwd ip t reg d)))"
  by (auto simp: registration_handler_def Let_def split: result.splits prod.splits option.splits)

lemma registration_keeps:
  assumes "tracker_laws env db" and "parseable env db d"
    and "(k, tk_node_json env n) \<in> set (entries (tdb_iter db d))" and "tg_id reg \<noteq> k"
    and "d' = snd (registration_handler env db token fwd ip t reg d)"
  shows "parseable env db d' \<and> (k, tk_node_json env n) \<in> set (entries (tdb_iter db d'))"
proof -
  consider "d' = d" | n' r where "tdb_write db d (tg_id reg) (tk_node_json env n') = (r, d')"
    using registration_state [of env db token fwd ip t reg d] assms(5) by blast
  then show ?thesis
  proof cases
    case 1
    with assms(2,3) show ?thesis by simp
  next
    case 2
    show ?thesis
    proof (cases "is_ok r")
      case True
      then have w: "tdb_write db d (tg_id reg) (tk_node_json env n') = (Ok (), d')" using 2 by (simp add: is_ok_iff)
      then have "set (entries (tdb_iter db d')) =
          insert (tg_id reg, tk_node_json env n') {e \<in> set (entries (tdb_iter db d)). fst e \<noteq> tg_id reg}"
        using assms(1) unfolding tracker_laws_def by blast
      with assms(3,4) parseable_write [OF assms(1,2) w] show ?thesis by simp
    next
      case False
      then have "set (entries (tdb_iter db d')) = set (entries (tdb_iter db d))"
        using assms(1) 2 unfolding tracker_laws_def by blast
      with assms(2,3) show ?thesis by (simp add: parseable_def list_all_iff)
    qed
  qed
qed

lemma registrations_keep:
  assumes "tracker_laws env db" and "parseable env db d"
    and "(k, tk_node_json env n) \<in> set (entries (tdb_iter db d))" and "k \<notin> (\<lambda>(fwd, ip, t, reg). tg_id reg) ` set reqs"
  shows "parseable env db (registrations env db token reqs d) \<and>
    (k, tk_node_json env n) \<in> set (entries (tdb_iter db (registrations env db token reqs d)))"
  using assms(2-4)
proof (induction reqs arbitrary: d)
  case (Cons req reqs)
  obtain fwd ip t reg where req: "req = (fwd, ip, t, reg)" by (cases req)
  with Cons.prems(3) have "tg_id reg \<noteq> k" by auto
  from registration_keeps [OF assms(1) Cons.prems(1,2) this refl] Cons.IH Cons.prems(3) req
  show ?case by auto
qed simp

lemma registration_discoverable:
  assumes "tracker_laws env db" and "parseable env db d"
    and "registration_handler env db token fwd ip t reg d = (Ok (200, JsonNode n), d')"
    and "tg_id reg \<notin> (\<lambda>(fwd, ip, t, reg). tg_id reg) ` set later"
    and "t \<le> now" and "now < t + one_month" and "now < 2 ^ 63"
  shows "nd_id n = tg_id reg \<and>
    (\<exists>cs. http_sd_handler env db now (registrations env db token later d') = Ok (200, cs) \<and> chunk_of_node n \<in> set cs)"
proof -
  let ?d = "registrations env db token later d'"
  obtain addr geo tz country where n: "n = node_from_info t reg addr geo tz country"
    and w: "tdb_write db d (tg_id reg) (tk_node_json env n) = (Ok (), d')"
    using registration_ok_cases [OF assms(3)] by blast
  have p: "parseable env db d'" using parseable_write [OF assms(1,2) w] by simp
  have e: "(tg_id reg, tk_node_json env n) \<in> set (entries (tdb_iter db d'))"
    and json: "tk_node_parse env (tk_node_json env n) = Some n"
    using assms(1) w unfolding tracker_laws_def by blast+
  have r: "parseable env db ?d" "n \<in> set (registered env db ?d)"
    using registrations_keep [OF assms(1) p e assms(4), of token] json
    by (auto simp: registered_def mem_map_filter intro!: bexI [of _ "(tg_id reg, tk_node_json env n)"])
  have "t < 2 ^ 63" using assms(5,7) by simp
  then have "nd_last_registered n = t" "nd_id n = tg_id reg" by (simp_all add: n node_from_info_def)
  moreover have "u64_sub (now mod 2 ^ 64) t < one_month"
    using age_recent_iff [of now t] assms(5-7) \<open>t < 2 ^ 63\<close> by simp
  ultimately show ?thesis using r http_sd_parseable [OF r(1), of now] by simp
qed

text \<open>
  A node whose registration was answered with 200 is found: for a month, and whatever other nodes
  register in the meantime, discovery
  answers with 200 and lists it, and a restart of the tracker in between would not matter,
  since what is listed comes from the database.\<close>

theorem registered_node_discoverable:
  assumes "tracker_laws env db" and "parseable env db d"
    and "registration_handler env db token fwd ip t reg d = (Ok (200, JsonNode n), d')"
    and "tg_id reg \<notin> (\<lambda>(fwd, ip, t, reg). tg_id reg) ` set later"
    and "t \<le> now" and "now < t + one_month" and "now < 2 ^ 63"
  shows "nd_id n = tg_id reg \<and>
    (\<exists>cs. http_sd_handler env db now (registrations env db token later d') = Ok (200, cs) \<and> chunk_of_node n \<in> set cs)"
  using assms by (rule registration_discoverable)

text \<open>
  C39. Discovery lists the registered nodes of the last month and no others: a node whose
  registration lies in the future, because the tracker's clock was set back after it, is left out until that clock
  has caught up, because the difference of the times wraps around. One entry of the database
  that does not parse makes every discovery panic.\<close>

theorem discovery_lists_recent_exactly:
  assumes "now < 2 ^ 63" and "\<forall>n \<in> set (registered env db d). nd_last_registered n < 2 ^ 63"
  shows "http_sd_handler env db now d =
    (if parseable env db d then
       Ok (200, map chunk_of_node (filter (\<lambda>n. nd_last_registered n \<le> now \<and>
         now < nd_last_registered n + one_month) (registered env db d)))
     else Panic)"
proof -
  have "filter (\<lambda>n. u64_sub (now mod 2 ^ 64) (nd_last_registered n) < one_month) (registered env db d) =
      filter (\<lambda>n. nd_last_registered n \<le> now \<and> now < nd_last_registered n + one_month) (registered env db d)"
    using assms age_recent_iff by (intro filter_cong refl) simp
  then show ?thesis by (simp add: http_sd_parseable http_sd_unparseable)
qed

definition tracker_env0 :: "(unit, tracked_node) tracker_env" where
  "tracker_env0 = \<lparr>tk_is_ip = (\<lambda>_. True), tk_resolve = (\<lambda>_. Err []), tk_get = (\<lambda>_. Ok (200, Ok [])),
     tk_parse_info = (\<lambda>_. Ok \<lparr>ii_addr = ''1.2.3.4'', ii_hostname = [], ii_city = [], ii_region = [], ii_country = ''CH'',
       ii_loc = ''47,8'', ii_org = [], ii_postal = [], ii_timezone = [], ii_geo = []\<rparr>),
     tk_parse_f64 = (\<lambda>_. Ok ()), tk_geohash = (\<lambda>_ _ _. Ok ''u0''), tk_node_json = (\<lambda>n. n), tk_node_parse = Some,
     tk_header_str = (\<lambda>_. None), tk_status_str = (\<lambda>_. [])\<rparr>"

definition tracker_db0 :: "((string \<times> tracked_node) list, tracked_node) tracker_db" where
  "tracker_db0 = \<lparr>tdb_write = (\<lambda>d k v. (Ok (), (k, v) # filter (\<lambda>e. fst e \<noteq> k) d)), tdb_iter = map Ok\<rparr>"

lemma entries_Ok [simp]: "entries (map Ok es) = es"
  by (induction es) simp_all

lemma tracker_laws0: "tracker_laws tracker_env0 tracker_db0"
  by (auto simp: tracker_laws_def tracker_env0_def tracker_db0_def)

definition registration0 :: tracker_registration where
  "registration0 = \<lparr>tg_id = ''p'', tg_agent = ''ursa'', tg_addr = None, tg_p2p_port = Some 6009,
     tg_http_port = None, tg_telemetry = None\<rparr>"

definition node0 :: tracked_node where
  "node0 = node_from_info 1000 registration0 ''1.2.3.4'' ''u0'' [] ''CH''"

lemma registration0_ok:
  "registration_handler tracker_env0 tracker_db0 [] None ''1.2.3.4'' 1000 registration0 [] =
     (Ok (200, JsonNode node0), [(''p'', node0)])"
  by (simp add: registration_handler_def registration0_def node0_def request_ip_def get_ip_info_def lookup_ip_def
      locate_def geohash_def tracker_env0_def tracker_db0_def node_from_info_def Let_def)

theorem registered_node_discoverable_witness:
  "\<exists>cs. http_sd_handler tracker_env0 tracker_db0 2000 [(''p'', node0)] = Ok (200, cs) \<and>
     dc_targets (chunk_of_node node0) = [''1.2.3.4:4069''] \<and> chunk_of_node node0 \<in> set cs"
proof -
  have "parseable tracker_env0 tracker_db0 []" by (simp add: parseable_def tracker_db0_def)
  from registered_node_discoverable [OF tracker_laws0 this registration0_ok, of "[]" 2000]
  have "\<exists>cs. http_sd_handler tracker_env0 tracker_db0 2000 [(''p'', node0)] = Ok (200, cs) \<and> chunk_of_node node0 \<in> set cs"
    by (simp add: one_month_def)
  moreover have "dc_targets (chunk_of_node node0) = [''1.2.3.4:4069'']"
    by (simp add: chunk_of_node_def node0_def node_from_info_def registration0_def dec_def digits.simps)
  ultimately show ?thesis by blast
qed

theorem discovery_lists_recent_exactly_witness:
  "http_sd_handler tracker_env0 tracker_db0 999 [(''p'', node0)] = Ok (200, [])"
proof -
  have "registered tracker_env0 tracker_db0 [(''p'', node0)] = [node0]" "parseable tracker_env0 tracker_db0 [(''p'', node0)]"
    by (simp_all add: registered_def parseable_def tracker_env0_def tracker_db0_def List.map_filter_def)
  moreover have "nd_last_registered node0 = 1000" by (simp add: node0_def node_from_info_def)
  ultimately show ?thesis
    using discovery_lists_recent_exactly [of 999 tracker_env0 tracker_db0 "[(''p'', node0)]"] by simp
qed

end
