(* ===== verification/Abci.thy ===== *)
theory Abci
  imports Prelude
begin

text \<open>
  The interface between the consensus engine and the application it drives: the calls of
  the Tendermint ABCI client, and the contract of an application that keeps a pending and a
  published state apart. The engine is proved against the contract; the application of
  \<open>ursa-application\<close> meets it.
\<close>

section \<open>Client\<close>

text \<open>
  A call runs on the state \<open>'s\<close> of the application. The client returns an error when the
  connection fails, in particular when the application's handler panicked. A query is its
  path, data, height and proof flag, a query response its key and its value.
\<close>

record request_query =
  rq_data :: bytes
  rq_path :: string
  rq_height :: int
  rq_prove :: bool

record 's abci_client =
  ac_info :: "'s \<Rightarrow> (int \<times> bytes, string) result \<times> 's"
  ac_init_chain :: "'s \<Rightarrow> (unit, string) result \<times> 's"
  ac_begin_block :: "int \<Rightarrow> 's \<Rightarrow> (unit, string) result \<times> 's"
  ac_deliver_tx :: "bytes \<Rightarrow> 's \<Rightarrow> (bytes, string) result \<times> 's"
  ac_end_block :: "int \<Rightarrow> 's \<Rightarrow> (unit, string) result \<times> 's"
  ac_commit :: "'s \<Rightarrow> (unit, string) result \<times> 's"
  ac_query :: "request_query \<Rightarrow> 's \<Rightarrow> (bytes \<times> bytes, string) result \<times> 's"

section \<open>Contract of an application\<close>

text \<open>
  \<open>pending\<close> is what the transactions of the running block have made, \<open>committed\<close> what
  \<open>info\<close> and queries read. \<open>exec\<close> is the effect of one transaction, \<open>seal\<close> the effect of
  closing a block. A query may change the committed state (a cache fills), but neither its
  height nor the pending state.
\<close>

locale abci_application =
  fixes c :: "'s abci_client"
    and pending :: "'s \<Rightarrow> 'p"
    and committed :: "'s \<Rightarrow> 'p"
    and height_of :: "'p \<Rightarrow> int"
    and exec :: "bytes \<Rightarrow> 'p \<Rightarrow> 'p"
    and seal :: "int \<Rightarrow> 'p \<Rightarrow> 'p"
  assumes begin_keeps:
      "ac_begin_block c h s = (rb, s') \<Longrightarrow> pending s' = pending s \<and> committed s' = committed s"
    and deliver_exec:
      "ac_deliver_tx c tx s = (rd, s') \<Longrightarrow> pending s' = exec tx (pending s) \<and> committed s' = committed s"
    and end_seals:
      "ac_end_block c h s = (re, s') \<Longrightarrow>
         committed s' = committed s \<and> (re = Ok () \<longrightarrow> pending s' = seal h (pending s))"
    and commit_publishes:
      "ac_commit c s = (rc, s') \<Longrightarrow>
         pending s' = pending s \<and> committed s' = (if rc = Ok () then pending s else committed s)"
    and query_keeps:
      "ac_query c q s = (rq, s') \<Longrightarrow>
         pending s' = pending s \<and> height_of (committed s') = height_of (committed s)"
    and info_height: "ac_info c s = (Ok i, s') \<Longrightarrow> fst i = height_of (committed s)"
    and info_keeps: "ac_info c s = (ri, s') \<Longrightarrow> s' = s"
    and seal_height: "height_of (seal h p) = h"
text \<open>Whether every transaction of a list is accepted in the state that the earlier ones left.\<close>

fun accepts_all :: "(bytes \<Rightarrow> 'p \<Rightarrow> bool) \<Rightarrow> (bytes \<Rightarrow> 'p \<Rightarrow> 'p) \<Rightarrow> bytes list \<Rightarrow> 'p \<Rightarrow> bool" where
  "accepts_all acc ex [] p = True"
| "accepts_all acc ex (tx # txs) p = (acc tx p \<and> accepts_all acc ex txs (ex tx p))"

lemma accepts_all_append:
  "accepts_all acc ex (xs @ ys) p \<longleftrightarrow> accepts_all acc ex xs p \<and> accepts_all acc ex ys (fold ex xs p)"
  by (induction xs arbitrary: p) auto

text \<open>
  An application that is reachable all the time: blocks open, close and commit, and a
  transaction is delivered exactly when the application accepts it in its pending state.
\<close>

locale reliable_application = abci_application +
  fixes accepts :: "bytes \<Rightarrow> 'b \<Rightarrow> bool"
  assumes begin_ok: "fst (ac_begin_block c h s) = Ok ()"
    and end_ok: "fst (ac_end_block c h s) = Ok ()"
    and commit_ok: "fst (ac_commit c s) = Ok ()"
    and deliver_ok: "is_ok (fst (ac_deliver_tx c tx s)) = accepts tx (pending s)"

end
