(* ===== verification/Application.thy ===== *)
theory Application
  imports Abci
begin

text \<open>
  The ABCI application that runs the EVM, \<open>ursa-application/src/{types,app,genesis}.rs\<close>.
  The EVM, its database, the JSON codec, the ABI encoder and the genesis file are
  third-party code or outside input: they are the fields of \<open>evm_ops\<close> and \<open>genesis_ops\<close>.
  The database may fill its cache while it is read, so reading calls return it. The locks
  of the two states make each handler one step.
\<close>

section \<open>Parameters\<close>

type_synonym address = bytes

record account_info =
  acc_balance :: nat
  acc_code :: "bytes option"

datatype name_or_address = Name string | Address address

record tx_request =
  tr_from :: "address option"
  tr_to :: "name_or_address option"
  tr_data :: "bytes option"
  tr_nonce :: "nat option"
  tr_value :: "nat option"
  tr_gas_price :: "nat option"

datatype transact_to = Call address | Create

record tx_env =
  te_caller :: address
  te_transact_to :: transact_to
  te_data :: bytes
  te_chain_id :: "nat option"
  te_nonce :: "nat option"
  te_value :: nat
  te_gas_price :: nat
  te_gas_priority_fee :: "nat option"
  te_gas_limit :: nat

record evm_env =
  ev_chain_id :: nat
  ev_disable_block_gas_limit :: bool

datatype query = EthCall tx_request | BalanceQuery address

datatype 'r query_response = TxResponse 'r | BalanceResponse nat

record ('d, 'c, 'r) evm_ops =
  evm_transact :: "evm_env \<Rightarrow> tx_env \<Rightarrow> 'd \<Rightarrow> ('r \<times> 'c) option \<times> 'd"
  evm_commit :: "'c \<Rightarrow> 'd \<Rightarrow> 'd"
  evm_basic :: "address \<Rightarrow> 'd \<Rightarrow> (account_info option, string) result \<times> 'd"
  evm_insert_account :: "address \<Rightarrow> account_info \<Rightarrow> 'd \<Rightarrow> 'd"
  json_tx :: "bytes \<Rightarrow> tx_request option"
  json_query :: "bytes \<Rightarrow> query option"
  json_result :: "'r \<Rightarrow> bytes"
  json_response :: "'r query_response \<Rightarrow> bytes"

record genesis_contract =
  gn_address :: string
  gn_bytecode :: string

record genesis =
  gn_hello :: genesis_contract
  gn_token :: genesis_contract
  gn_staking :: genesis_contract
  gn_registry :: genesis_contract

record genesis_ops =
  genesis_load :: "(genesis, string) result"
  hex_decode :: "string \<Rightarrow> bytes option"
  parse_address :: "string \<Rightarrow> address option"
  abi_token_initialize :: "nat \<Rightarrow> bytes"
  abi_staking_initialize :: "address \<Rightarrow> address \<Rightarrow> nat \<Rightarrow> nat \<Rightarrow> nat \<Rightarrow> nat \<Rightarrow> bytes"
  abi_registry_initialize :: "address \<Rightarrow> address \<Rightarrow> bytes"

section \<open>State and execution\<close>

record 'd app_state =
  as_block_height :: int
  as_app_hash :: bytes
  as_db :: 'd
  as_env :: evm_env

definition zero_address :: address where
  "zero_address = replicate 20 0"

definition build_tx_env :: "tx_request \<Rightarrow> evm_env \<Rightarrow> tx_env" where
  "build_tx_env tx env =
     \<lparr>te_caller = unwrap_or zero_address (tr_from tx),
      te_transact_to = (case tr_to tx of Some (Address a) \<Rightarrow> Call a | _ \<Rightarrow> Create),
      te_data = unwrap_or [] (tr_data tx),
      te_chain_id = Some (ev_chain_id env),
      te_nonce = Some (unwrap_or 0 (tr_nonce tx)),
      te_value = unwrap_or 0 (tr_value tx),
      te_gas_price = unwrap_or 0 (tr_gas_price tx),
      te_gas_priority_fee = Some (unwrap_or 0 (tr_gas_price tx)),
      te_gas_limit = u64_max\<rparr>"

text \<open>
  \<open>State::execute\<close>. The chain id and the nonce are 256-bit numbers that have to fit 64
  bits; otherwise the conversion panics.
\<close>

definition execute ::
  "('d, 'c, 'r) evm_ops \<Rightarrow> tx_request \<Rightarrow> bool \<Rightarrow> 'd app_state \<Rightarrow> ('r, string) result \<times> 'd app_state" where
  "execute ops tx read_only st =
     (case tr_to tx of
        Some (Name _) \<Rightarrow> (Err ''not allowed'', st)
      | _ \<Rightarrow>
          if u64_max < ev_chain_id (as_env st) then (Panic, st)
          else if u64_max < unwrap_or 0 (tr_nonce tx) then (Panic, st)
          else
            (case evm_transact ops (as_env st) (build_tx_env tx (as_env st)) (as_db st) of
               (None, d) \<Rightarrow> (Err ''theres an err'', st\<lparr>as_db := d\<rparr>)
             | (Some (r, changes), d) \<Rightarrow>
                 (Ok r, st\<lparr>as_db := (if read_only then d else evm_commit ops changes d)\<rparr>)))"

section \<open>Consensus connection\<close>

record 'd app =
  app_committed :: "'d app_state"
  app_current :: "'d app_state"

definition consensus_new :: "'d app_state \<Rightarrow> 'd app" where
  "consensus_new st = \<lparr>app_committed = st, app_current = st\<rparr>"

definition demo_address :: "genesis_ops \<Rightarrow> address option" where
  "demo_address gen = parse_address gen ''0xDAAAAAAAAAAAAAAAAAAAAAAAAAAAAAAAAAAAAAAA''"

text \<open>\<open>App::new\<close> over an empty database: one account with 1.5 ether.\<close>

definition app_new :: "('d, 'c, 'r) evm_ops \<Rightarrow> genesis_ops \<Rightarrow> 'd \<Rightarrow> ('d app, string) result" where
  "app_new ops gen d0 =
     (case demo_address gen of
        None \<Rightarrow> Panic
      | Some a \<Rightarrow>
          Ok (consensus_new \<lparr>as_block_height = 0, as_app_hash = [],
                as_db = evm_insert_account ops a \<lparr>acc_balance = 1500000000000000000, acc_code = None\<rparr> d0,
                as_env = \<lparr>ev_chain_id = 1, ev_disable_block_gas_limit = True\<rparr>\<rparr>))"

definition contract_account :: "bytes \<Rightarrow> account_info" where
  "contract_account code = \<lparr>acc_balance = 0, acc_code = Some code\<rparr>"

definition init_tx :: "address \<Rightarrow> address \<Rightarrow> bytes \<Rightarrow> tx_request" where
  "init_tx to' from' data = \<lparr>tr_from = Some from', tr_to = Some (Address to'), tr_data = Some data,
     tr_nonce = None, tr_value = None, tr_gas_price = None\<rparr>"

fun execute_all ::
  "('d, 'c, 'r) evm_ops \<Rightarrow> tx_request list \<Rightarrow> 'd app_state \<Rightarrow> (unit, string) result \<times> 'd app_state" where
  "execute_all ops [] st = (Ok (), st)"
| "execute_all ops (tx # txs) st =
     (case execute ops tx False st of
        (Ok _, st1) \<Rightarrow> execute_all ops txs st1
      | (_, st1) \<Rightarrow> (Panic, st1))"

text \<open>
  \<open>init_chain\<close>. The call \<open>let _ = self.commit(..)\<close> creates a future that nobody awaits, so
  it has no effect: the committed state stays as it is.
\<close>

definition init_chain :: "('d, 'c, 'r) evm_ops \<Rightarrow> genesis_ops \<Rightarrow> 'd app \<Rightarrow> (unit, string) result \<times> 'd app" where
  "init_chain ops gen a =
     (case genesis_load gen of
        Err e \<Rightarrow> (Panic, a)
      | Panic \<Rightarrow> (Panic, a)
      | Ok g \<Rightarrow>
          (case (hex_decode gen (gn_bytecode (gn_token g)), hex_decode gen (gn_bytecode (gn_staking g)),
                 hex_decode gen (gn_bytecode (gn_registry g)), hex_decode gen (gn_bytecode (gn_hello g)),
                 parse_address gen (gn_address (gn_token g)), parse_address gen (gn_address (gn_staking g)),
                 parse_address gen (gn_address (gn_registry g)),
                 parse_address gen ''0xf39Fd6e51aad88F6F4ce6aB8827279cffFb92266'') of
             (Some token_code, Some staking_code, Some registry_code, Some hello_code,
              Some token, Some staking, Some registry, Some owner) \<Rightarrow>
               (let st = app_current a;
                    d = evm_insert_account ops token (contract_account token_code) (as_db st);
                    d = evm_insert_account ops staking (contract_account staking_code) d;
                    d = evm_insert_account ops registry (contract_account registry_code) d
                in case parse_address gen (gn_address (gn_hello g)) of
                     None \<Rightarrow> (Panic, a\<lparr>app_current := st\<lparr>as_db := d\<rparr>\<rparr>)
                   | Some hello \<Rightarrow>
                       (let st1 = st\<lparr>as_db := evm_insert_account ops hello (contract_account hello_code) d\<rparr>;
                            (r, st2) = execute_all ops
                              [init_tx token owner (abi_token_initialize gen 1000000000),
                               init_tx staking owner (abi_staking_initialize gen owner token 1000 10 10 10),
                               init_tx registry owner (abi_registry_initialize gen owner staking)] st1
                        in (r, a\<lparr>app_current := st2\<rparr>)))
           | _ \<Rightarrow> (Panic, a)))"

definition begin_block :: "'d app \<Rightarrow> (unit, string) result \<times> 'd app" where
  "begin_block a = (Ok (), a)"

definition deliver_tx :: "('d, 'c, 'r) evm_ops \<Rightarrow> bytes \<Rightarrow> 'd app \<Rightarrow> (bytes, string) result \<times> 'd app" where
  "deliver_tx ops raw a =
     (case json_tx ops raw of
        None \<Rightarrow> (Ok (map of_char ''could not decode request''), a)
      | Some tx \<Rightarrow>
          (case tr_to tx of
             Some (Name _) \<Rightarrow> (Panic, a)
           | _ \<Rightarrow>
               (case execute ops tx False (app_current a) of
                  (Ok r, st) \<Rightarrow> (Ok (json_result ops r), a\<lparr>app_current := st\<rparr>)
                | (_, st) \<Rightarrow> (Panic, a\<lparr>app_current := st\<rparr>))))"

definition end_block :: "int \<Rightarrow> 'd app \<Rightarrow> (unit, string) result \<times> 'd app" where
  "end_block height a = (Ok (), a\<lparr>app_current := (app_current a)\<lparr>as_block_height := height, as_app_hash := []\<rparr>\<rparr>)"

definition commit :: "'d app \<Rightarrow> (unit, string) result \<times> 'd app" where
  "commit a = (Ok (), a\<lparr>app_committed := app_current a\<rparr>)"

section \<open>Mempool and info connections\<close>

definition check_tx :: "bytes \<Rightarrow> nat" where
  "check_tx tx = 0"

definition info :: "'d app \<Rightarrow> int \<times> bytes" where
  "info a = (as_block_height (app_committed a), as_app_hash (app_committed a))"

fun as_tx :: "'r query_response \<Rightarrow> ('r, string) result" where
  "as_tx (TxResponse r) = Ok r"
| "as_tx (BalanceResponse b) = Panic"

fun as_balance :: "'r query_response \<Rightarrow> (nat, string) result" where
  "as_balance (BalanceResponse b) = Ok b"
| "as_balance (TxResponse r) = Panic"

text \<open>A response of \<open>query\<close> is its key and its value.\<close>

definition query_app ::
  "('d, 'c, 'r) evm_ops \<Rightarrow> bytes \<Rightarrow> 'd app \<Rightarrow> (bytes \<times> bytes, string) result \<times> 'd app" where
  "query_app ops data a =
     (case json_query ops data of
        None \<Rightarrow> (Ok ([], map of_char ''could not decode request''), a)
      | Some (EthCall tx) \<Rightarrow>
          (case tr_to tx of
             Some (Address _) \<Rightarrow>
               (case execute ops tx True (app_committed a) of
                  (Ok r, st) \<Rightarrow> (Ok (data, json_response ops (TxResponse r)), a\<lparr>app_committed := st\<rparr>)
                | (_, st) \<Rightarrow> (Panic, a\<lparr>app_committed := st\<rparr>))
           | _ \<Rightarrow> (Panic, a))
      | Some (BalanceQuery addr) \<Rightarrow>
          (case evm_basic ops addr (as_db (app_committed a)) of
             (Ok i, d) \<Rightarrow>
               (Ok (data, json_response ops (BalanceResponse (case i of Some x \<Rightarrow> acc_balance x | None \<Rightarrow> 0))),
                a\<lparr>app_committed := (app_committed a)\<lparr>as_db := d\<rparr>\<rparr>)
           | (_, d) \<Rightarrow> (Panic, a\<lparr>app_committed := (app_committed a)\<lparr>as_db := d\<rparr>\<rparr>)))"

section \<open>The application as an ABCI server\<close>

text \<open>
  A handler that panics takes its connection down, so the client sees an error. The request
  of a query carries more than the data, but only the data is read.
\<close>

fun conn :: "('a, string) result \<times> 's \<Rightarrow> ('a, string) result \<times> 's" where
  "conn (Panic, s) = (Err ''connection closed'', s)"
| "conn (r, s) = (r, s)"

definition app_client :: "('d, 'c, 'r) evm_ops \<Rightarrow> genesis_ops \<Rightarrow> 'd app abci_client" where
  "app_client ops gen =
     \<lparr>ac_info = (\<lambda>a. (Ok (info a), a)),
      ac_init_chain = (\<lambda>a. conn (init_chain ops gen a)),
      ac_begin_block = (\<lambda>h a. conn (begin_block a)),
      ac_deliver_tx = (\<lambda>raw a. conn (deliver_tx ops raw a)),
      ac_end_block = (\<lambda>h a. conn (end_block h a)),
      ac_commit = (\<lambda>a. conn (commit a)),
      ac_query = (\<lambda>q a. conn (query_app ops (rq_data q) a))\<rparr>"

lemma conn_eq: "conn rs = (case fst rs of Panic \<Rightarrow> Err ''connection closed'' | r \<Rightarrow> r, snd rs)"
  by (cases rs rule: conn.cases) auto

lemma snd_conn [simp]: "snd (conn rs) = snd rs"
  by (simp add: conn_eq)

lemma fst_conn_ok [simp]: "is_ok (fst (conn rs)) = is_ok (fst rs)"
  by (cases rs rule: conn.cases) auto

text \<open>What a transaction does to the state it runs in, and when it is executed at all.\<close>

definition exec_tx :: "('d, 'c, 'r) evm_ops \<Rightarrow> bytes \<Rightarrow> 'd app_state \<Rightarrow> 'd app_state" where
  "exec_tx ops raw st =
     (case json_tx ops raw of
        None \<Rightarrow> st
      | Some tx \<Rightarrow> (case tr_to tx of Some (Name _) \<Rightarrow> st | _ \<Rightarrow> snd (execute ops tx False st)))"

definition tx_accepted :: "('d, 'c, 'r) evm_ops \<Rightarrow> bytes \<Rightarrow> 'd app_state \<Rightarrow> bool" where
  "tx_accepted ops raw st =
     (case json_tx ops raw of None \<Rightarrow> True | Some tx \<Rightarrow> is_ok (fst (execute ops tx False st)))"

definition seal_block :: "int \<Rightarrow> 'd app_state \<Rightarrow> 'd app_state" where
  "seal_block h st = st\<lparr>as_block_height := h, as_app_hash := []\<rparr>"

lemma execute_Name: "tr_to tx = Some (Name n) \<Longrightarrow> execute ops tx ro st = (Err ''not allowed'', st)"
  by (simp add: execute_def)

lemma execute_keeps:
  "as_block_height (snd (execute ops tx ro st)) = as_block_height st"
  "as_app_hash (snd (execute ops tx ro st)) = as_app_hash st"
  "as_env (snd (execute ops tx ro st)) = as_env st"
  by (auto simp: execute_def Let_def split: option.splits name_or_address.splits prod.splits)

lemma deliver_tx_state: "snd (deliver_tx ops raw a) = a\<lparr>app_current := exec_tx ops raw (app_current a)\<rparr>"
  by (auto simp: deliver_tx_def exec_tx_def
      split: option.splits name_or_address.splits prod.splits result.splits)

lemma deliver_tx_ok: "is_ok (fst (deliver_tx ops raw a)) = tx_accepted ops raw (app_current a)"
  by (auto simp: deliver_tx_def tx_accepted_def execute_Name
      split: option.splits name_or_address.splits prod.splits result.splits)

lemma query_app_keeps:
  "app_current (snd (query_app ops data a)) = app_current a"
  "as_block_height (app_committed (snd (query_app ops data a))) = as_block_height (app_committed a)"
  "as_app_hash (app_committed (snd (query_app ops data a))) = as_app_hash (app_committed a)"
  "as_env (app_committed (snd (query_app ops data a))) = as_env (app_committed a)"
  using execute_keeps [of ops _ True "app_committed a"]
  by (auto simp: query_app_def split: option.splits query.splits name_or_address.splits prod.splits result.splits)
    (metis snd_conv)+

interpretation ev: reliable_application "app_client ops gen" app_current app_committed as_block_height
  "exec_tx ops" seal_block "tx_accepted ops" for ops :: "('d, 'c, 'r) evm_ops" and gen
proof unfold_locales
  fix q s rq s'
  assume "ac_query (app_client ops gen) q s = (rq, s')"
  then have "s' = snd (query_app ops (rq_data q) s)" by (simp add: app_client_def conn_eq)
  then show "app_current s' = app_current s \<and>
      as_block_height (app_committed s') = as_block_height (app_committed s)"
    by (simp add: query_app_keeps)
next
  fix tx s
  show "is_ok (fst (ac_deliver_tx (app_client ops gen) tx s)) = tx_accepted ops tx (app_current s)"
    by (simp add: app_client_def deliver_tx_ok)
qed (auto simp: app_client_def begin_block_def end_block_def commit_def seal_block_def info_def
      deliver_tx_ok conn_eq deliver_tx_state)

section \<open>Sequences of calls\<close>

datatype app_call =
    InitChain
  | BeginBlock
  | DeliverTx bytes
  | EndBlock int
  | Commit
  | QueryCall bytes

fun app_call_step :: "('d, 'c, 'r) evm_ops \<Rightarrow> genesis_ops \<Rightarrow> app_call \<Rightarrow> 'd app \<Rightarrow> 'd app" where
  "app_call_step ops gen InitChain a = snd (init_chain ops gen a)"
| "app_call_step ops gen BeginBlock a = snd (begin_block a)"
| "app_call_step ops gen (DeliverTx raw) a = snd (deliver_tx ops raw a)"
| "app_call_step ops gen (EndBlock h) a = snd (end_block h a)"
| "app_call_step ops gen Commit a = snd (commit a)"
| "app_call_step ops gen (QueryCall data) a = snd (query_app ops data a)"

definition app_calls :: "('d, 'c, 'r) evm_ops \<Rightarrow> genesis_ops \<Rightarrow> app_call list \<Rightarrow> 'd app \<Rightarrow> 'd app" where
  "app_calls ops gen calls a = fold (app_call_step ops gen) calls a"

lemma execute_all_keeps:
  "as_block_height (snd (execute_all ops txs st)) = as_block_height st"
  "as_app_hash (snd (execute_all ops txs st)) = as_app_hash st"
  "as_env (snd (execute_all ops txs st)) = as_env st"
proof (induction txs arbitrary: st)
  case (Cons tx txs)
  {
    case 1
    show ?case using Cons(1) execute_keeps [of ops tx False st]
      by (auto split: prod.splits result.splits)
  next
    case 2
    show ?case using Cons(2) execute_keeps [of ops tx False st]
      by (auto split: prod.splits result.splits)
  next
    case 3
    show ?case using Cons(3) execute_keeps [of ops tx False st]
      by (auto split: prod.splits result.splits)
  }
qed simp_all

lemma init_chain_keeps:
  "app_committed (snd (init_chain ops gen a)) = app_committed a"
  "as_block_height (app_current (snd (init_chain ops gen a))) = as_block_height (app_current a)"
  "as_app_hash (app_current (snd (init_chain ops gen a))) = as_app_hash (app_current a)"
  "as_env (app_current (snd (init_chain ops gen a))) = as_env (app_current a)"
  by (auto simp: init_chain_def Let_def execute_all_keeps case_prod_unfold
      simp del: execute_all.simps split: result.splits option.splits)

lemma exec_tx_keeps:
  "as_block_height (exec_tx ops raw st) = as_block_height st"
  "as_app_hash (exec_tx ops raw st) = as_app_hash st"
  "as_env (exec_tx ops raw st) = as_env st"
  by (auto simp: exec_tx_def execute_keeps split: option.splits name_or_address.splits)

lemmas call_keeps = init_chain_keeps query_app_keeps exec_tx_keeps deliver_tx_state
  begin_block_def end_block_def commit_def

text \<open>The chain id never changes and the application hash is always empty.\<close>

definition app_inv :: "'d app \<Rightarrow> bool" where
  "app_inv a = (ev_chain_id (as_env (app_committed a)) = 1 \<and> ev_chain_id (as_env (app_current a)) = 1 \<and>
     as_app_hash (app_committed a) = [] \<and> as_app_hash (app_current a) = [])"

lemma app_new_inv: "app_new ops gen d0 = Ok a \<Longrightarrow> app_inv a"
  by (auto simp: app_new_def consensus_new_def app_inv_def split: option.splits)

lemma app_call_step_inv [inv_intros]: "app_inv a \<Longrightarrow> app_inv (app_call_step ops gen call a)"
  by (cases call) (simp_all add: app_inv_def call_keeps)

lemma app_calls_inv: "app_inv a \<Longrightarrow> app_inv (app_calls ops gen calls a)"
  unfolding app_calls_def by (induction calls arbitrary: a) (auto intro: inv_intros)

definition info_part :: "'d app_state \<Rightarrow> int \<times> bytes \<times> evm_env" where
  "info_part st = (as_block_height st, as_app_hash st, as_env st)"

lemma app_calls_keep_committed:
  "Commit \<notin> set calls \<Longrightarrow>
     info_part (app_committed (app_calls ops gen calls a)) = info_part (app_committed a)"
proof (induction calls arbitrary: a)
  case (Cons call calls)
  then have "info_part (app_committed (app_call_step ops gen call a)) = info_part (app_committed a)"
    by (cases call) (simp_all add: info_part_def call_keeps)
  with Cons show ?case by (simp add: app_calls_def)
qed (simp add: app_calls_def)

section \<open>What queries see\<close>

text \<open>
  Reading from the database may fill its cache but does not change what it holds (\<open>view\<close>),
  and the outcome of an execution and a lookup depend on what it holds only.
\<close>

definition view_law :: "('d, 'c, 'r) evm_ops \<Rightarrow> ('d \<Rightarrow> 'v) \<Rightarrow> bool" where
  "view_law ops view \<longleftrightarrow>
     (\<forall>env tx d. view (snd (evm_transact ops env tx d)) = view d) \<and>
     (\<forall>env tx d d'. view d = view d' \<longrightarrow>
        map_option fst (fst (evm_transact ops env tx d)) = map_option fst (fst (evm_transact ops env tx d'))) \<and>
     (\<forall>addr d. view (snd (evm_basic ops addr d)) = view d) \<and>
     (\<forall>addr d d'. view d = view d' \<longrightarrow> fst (evm_basic ops addr d) = fst (evm_basic ops addr d'))"

lemma view_lawD:
  assumes "view_law ops view"
  shows "view (snd (evm_transact ops env tx d)) = view d"
    and "view (snd (evm_basic ops addr d)) = view d"
    and "view d = view d' \<Longrightarrow>
      map_option fst (fst (evm_transact ops env tx d)) = map_option fst (fst (evm_transact ops env tx d'))"
    and "view d = view d' \<Longrightarrow> fst (evm_basic ops addr d) = fst (evm_basic ops addr d')"
  using assms unfolding view_law_def by blast+

lemma execute_read_view:
  assumes "view_law ops view"
  shows "view (as_db (snd (execute ops tx True st))) = view (as_db st)"
  using view_lawD(1) [OF assms, of "as_env st" "build_tx_env tx (as_env st)" "as_db st"]
  by (auto simp: execute_def split: option.splits name_or_address.splits prod.splits)

lemma query_app_view:
  assumes "view_law ops view"
  shows "view (as_db (app_committed (snd (query_app ops data a)))) = view (as_db (app_committed a))"
  using execute_read_view [OF assms, of _ "app_committed a"] view_lawD(2) [OF assms, of _ "as_db (app_committed a)"]
  by (auto simp: query_app_def split: option.splits query.splits name_or_address.splits prod.splits result.splits)
    (metis snd_conv)+

lemma app_calls_view:
  assumes "view_law ops view" and "Commit \<notin> set calls"
  shows "view (as_db (app_committed (app_calls ops gen calls a))) = view (as_db (app_committed a))"
  using assms(2)
proof (induction calls arbitrary: a)
  case (Cons call calls)
  then have "view (as_db (app_committed (app_call_step ops gen call a))) = view (as_db (app_committed a))"
    by (cases call) (simp_all add: call_keeps query_app_view [OF assms(1)])
  with Cons show ?case by (simp add: app_calls_def)
qed (simp add: app_calls_def)

lemma fst_execute_view:
  assumes "view_law ops view" and "view (as_db st) = view (as_db st')" and "as_env st = as_env st'"
  shows "fst (execute ops tx True st) = fst (execute ops tx True st')"
  using view_lawD(3) [OF assms(1,2), of "as_env st'" "build_tx_env tx (as_env st')"] assms(3)
  by (auto simp: execute_def split: option.splits name_or_address.splits prod.splits)

text \<open>
  C18. Isolation: whatever sequence of calls without a commit runs, block calls, delivered
  transactions, \<open>init_chain\<close> and other queries included, every query gets the answer and
  \<open>info\<close> reports the height and hash that it would have got before the sequence.\<close>

theorem queries_see_committed_state:
  assumes "view_law ops view" and "Commit \<notin> set calls"
  shows "fst (query_app ops data (app_calls ops gen calls a)) = fst (query_app ops data a) \<and>
    info (app_calls ops gen calls a) = info a"
proof
  let ?a = "app_calls ops gen calls a"
  have keep: "as_env (app_committed ?a) = as_env (app_committed a)" "info ?a = info a"
    using app_calls_keep_committed [OF assms(2), of ops gen a] by (simp_all add: info_part_def info_def)
  note view = app_calls_view [OF assms, of gen a]
  have ex: "fst (execute ops tx True (app_committed ?a)) = fst (execute ops tx True (app_committed a))" for tx
    using assms(1) view keep(1) by (rule fst_execute_view)
  have ba: "fst (evm_basic ops x (as_db (app_committed ?a))) = fst (evm_basic ops x (as_db (app_committed a)))" for x
    using assms(1) view by (rule view_lawD(4))
  show "fst (query_app ops data ?a) = fst (query_app ops data a)"
  proof (cases "json_query ops data")
    case (Some q)
    then show ?thesis
    proof (cases q)
      case (EthCall tx)
      with Some ex [of tx] show ?thesis
        by (auto simp: query_app_def split: option.splits name_or_address.splits prod.splits result.splits)
    next
      case (BalanceQuery x)
      with Some ba [of x] show ?thesis
        by (auto simp: query_app_def split: prod.splits result.splits)
    qed
  qed (simp add: query_app_def)
  show "info ?a = info a" by (fact keep(2))
qed

section \<open>A database for examples\<close>

text \<open>
  Balances in an association list; a transaction of three bytes moves a value from one
  account to another, one of a single byte names its receiver.
\<close>

definition demo_tx :: "bytes \<Rightarrow> tx_request option" where
  "demo_tx raw =
     (case raw of
        [f, t, v] \<Rightarrow> Some \<lparr>tr_from = Some [f], tr_to = Some (Address [t]), tr_data = None, tr_nonce = None,
            tr_value = Some (unat v), tr_gas_price = None\<rparr>
      | [f] \<Rightarrow> Some \<lparr>tr_from = Some [f], tr_to = Some (Name ''name.eth''), tr_data = None, tr_nonce = None,
            tr_value = None, tr_gas_price = None\<rparr>
      | _ \<Rightarrow> None)"

definition demo_transact ::
  "evm_env \<Rightarrow> tx_env \<Rightarrow> (address \<times> nat) list \<Rightarrow> (bool \<times> (address \<times> nat) list) option \<times> (address \<times> nat) list" where
  "demo_transact env tx d =
     (let to' = (case te_transact_to tx of Call t \<Rightarrow> t | Create \<Rightarrow> []);
          have = unwrap_or 0 (map_of d (te_caller tx))
      in if te_value tx \<le> have
         then (Some (True, [(te_caller tx, have - te_value tx), (to', unwrap_or 0 (map_of d to') + te_value tx)]), d)
         else (None, d))"

definition demo_ops :: "((address \<times> nat) list, (address \<times> nat) list, bool) evm_ops" where
  "demo_ops =
     \<lparr>evm_transact = demo_transact,
      evm_commit = (\<lambda>cs d. fold (\<lambda>(k, v). AList.update k v) cs d),
      evm_basic = (\<lambda>k d. (Ok (map_option (\<lambda>b. \<lparr>acc_balance = b, acc_code = None\<rparr>) (map_of d k)), d)),
      evm_insert_account = (\<lambda>k i d. AList.update k (acc_balance i) d),
      json_tx = demo_tx,
      json_query = (\<lambda>data. Some (BalanceQuery data)),
      json_result = (\<lambda>r. [if r then 1 else 0]),
      json_response = (\<lambda>r. case r of TxResponse b \<Rightarrow> [if b then 1 else 0] | BalanceResponse n \<Rightarrow> [of_nat n])\<rparr>"

definition demo_genesis :: genesis_ops where
  "demo_genesis =
     \<lparr>genesis_load = Err ''no genesis file'', hex_decode = (\<lambda>s. Some (map of_char s)),
      parse_address = (\<lambda>s. Some (map of_char (take 3 s))), abi_token_initialize = (\<lambda>n. []),
      abi_staking_initialize = (\<lambda>o' t a b c d. []), abi_registry_initialize = (\<lambda>o' s. [])\<rparr>"

definition demo_app :: "(address \<times> nat) list app" where
  "demo_app = consensus_new \<lparr>as_block_height = 0, as_app_hash = [], as_db = [([1], 100)],
     as_env = \<lparr>ev_chain_id = 1, ev_disable_block_gas_limit = True\<rparr>\<rparr>"

lemmas app_eval = demo_ops_def demo_genesis_def demo_app_def demo_transact_def demo_tx_def consensus_new_def
  app_calls_def deliver_tx_def execute_def build_tx_env_def begin_block_def end_block_def commit_def
  query_app_def info_def u64_max_def app_new_def demo_address_def

lemma demo_view_law: "view_law demo_ops id"
  by (auto simp: view_law_def demo_ops_def demo_transact_def Let_def)

theorem queries_see_committed_state_witness:
  "view_law demo_ops id \<and> Commit \<notin> set [InitChain, DeliverTx [1, 2, 30], EndBlock 1] \<and>
   fst (query_app demo_ops [2] (app_calls demo_ops demo_genesis [InitChain, DeliverTx [1, 2, 30], EndBlock 1] demo_app)) =
     Ok ([2], [0]) \<and>
   fst (query_app demo_ops [2] (app_calls demo_ops demo_genesis [DeliverTx [1, 2, 30], EndBlock 1, Commit] demo_app)) =
     Ok ([2], [30])"
proof -
  have q: "fst (query_app demo_ops [2] demo_app) = Ok ([2], [0])"
    by (simp add: app_eval)
  have n: "Commit \<notin> set [InitChain, DeliverTx [1, 2, 30], EndBlock 1]" by simp
  have c: "fst (query_app demo_ops [2] (app_calls demo_ops demo_genesis [DeliverTx [1, 2, 30], EndBlock 1, Commit] demo_app)) =
     Ok ([2], [30])"
    by (simp add: app_eval Let_def)
  show ?thesis
    using queries_see_committed_state [OF demo_view_law n, of "[2]" demo_genesis demo_app] q c demo_view_law n by simp
qed

section \<open>Panics of a delivered transaction\<close>

text \<open>
  C33. At any time after \<open>App::new\<close>, delivering a transaction panics exactly when the bytes
  decode to a request that names its receiver, whose nonce does not fit 64 bits, or that the
  EVM refuses to execute. \<open>check_tx\<close> rejects none of them.\<close>

theorem deliver_tx_panics_iff:
  assumes "app_new ops gen d0 = Ok a0" and "st = app_current (app_calls ops gen calls a0)"
  shows "(fst (deliver_tx ops raw (app_calls ops gen calls a0)) = Panic \<longleftrightarrow>
      (\<exists>tx. json_tx ops raw = Some tx \<and>
         ((\<exists>n. tr_to tx = Some (Name n)) \<or> u64_max < unwrap_or 0 (tr_nonce tx) \<or>
          fst (evm_transact ops (as_env st) (build_tx_env tx (as_env st)) (as_db st)) = None))) \<and>
    check_tx raw = 0"
proof
  have "ev_chain_id (as_env st) = 1"
    using app_calls_inv [OF app_new_inv [OF assms(1)], of ops gen calls] assms(2) by (simp add: app_inv_def)
  then have fits: "\<not> u64_max < ev_chain_id (as_env st)" by (simp add: u64_max_def)
  show "fst (deliver_tx ops raw (app_calls ops gen calls a0)) = Panic \<longleftrightarrow>
      (\<exists>tx. json_tx ops raw = Some tx \<and>
         ((\<exists>n. tr_to tx = Some (Name n)) \<or> u64_max < unwrap_or 0 (tr_nonce tx) \<or>
          fst (evm_transact ops (as_env st) (build_tx_env tx (as_env st)) (as_db st)) = None))"
    using fits unfolding assms(2)
    by (auto simp: deliver_tx_def execute_def
        split: option.splits name_or_address.splits prod.splits result.splits if_splits)
  show "check_tx raw = 0" by (simp add: check_tx_def)
qed

theorem deliver_tx_panics_iff_witness:
  "\<exists>a0. app_new demo_ops demo_genesis [] = Ok a0 \<and> fst (deliver_tx demo_ops [7] a0) = Panic \<and>
     fst (deliver_tx demo_ops [1, 2, 3] a0) = Panic \<and> check_tx [1, 2, 3] = 0"
proof -
  obtain a0 where a0: "app_new demo_ops demo_genesis [] = Ok a0"
    by (simp add: app_new_def demo_address_def demo_genesis_def)
  then have "map_of (as_db (app_current a0)) [1] = None"
    by (auto simp: app_eval)
  then have "fst (evm_transact demo_ops e (build_tx_env tx e') (as_db (app_current a0))) = None"
    if "demo_tx [1, 2, 3] = Some tx" for tx e e'
    using that by (auto simp: app_eval Let_def)
  moreover have "fst (deliver_tx demo_ops [7] (app_calls demo_ops demo_genesis [] a0)) = Panic"
    using deliver_tx_panics_iff [OF a0 refl, of "[7]" "[]"] by (simp add: demo_ops_def demo_tx_def)
  ultimately show ?thesis
    using a0 deliver_tx_panics_iff [OF a0 refl, of "[1, 2, 3]" "[]"]
    by (auto simp: demo_ops_def demo_tx_def app_calls_def)
qed

end
