(* ===== verification/Engine.thy ===== *)
theory Engine
  imports Application
begin

text \<open>
  The consensus engine, \<open>ursa-consensus/src/{engine,server,lib}.rs\<close>: for each certificate
  that Narwhal orders it rebuilds the batches from the worker's store and drives the
  application through one block; in between it forwards queries. The worker's database, the
  \<open>bincode\<close> decoder and the ABCI client are parameters. \<open>tokio::select!\<close> may take its two
  queues in any order: a run is given by the sequence of messages it takes.
\<close>

section \<open>State\<close>

type_synonym digest = bytes
type_synonym certificate = "(digest \<times> nat) list"

datatype worker_message = Batch "bytes list"

record abci_query_query =
  aq_path :: string
  aq_data :: string
  aq_height :: "nat option"
  aq_prove :: "bool option"

record worker_env =
  db_open_for_read_only :: "string \<Rightarrow> (digest \<Rightarrow> (bytes option, string) result, string) result"
  bincode_deserialize :: "bytes \<Rightarrow> worker_message option"

record engine =
  eng_store_path :: string
  eng_last_block_height :: int

definition i64_wrap :: "int \<Rightarrow> int" where
  "i64_wrap x = (x + 2 ^ 63) mod 2 ^ 64 - 2 ^ 63"

definition engine_new :: "'s abci_client \<Rightarrow> string \<Rightarrow> 's \<Rightarrow> engine \<times> 's" where
  "engine_new c store_path s =
     (case ac_info c s of
        (Ok i, s1) \<Rightarrow> (\<lparr>eng_store_path = store_path, eng_last_block_height = fst i\<rparr>, s1)
      | (_, s1) \<Rightarrow> (\<lparr>eng_store_path = store_path, eng_last_block_height = 0\<rparr>, s1))"

section \<open>Batches\<close>

definition worker_db :: "engine \<Rightarrow> string" where
  "worker_db e = eng_store_path e @ ''-'' @ ''worker''"

definition reconstruct_batch :: "worker_env \<Rightarrow> engine \<Rightarrow> digest \<Rightarrow> (bytes, string) result" where
  "reconstruct_batch w e dig =
     bind_res (db_open_for_read_only w (worker_db e)) (\<lambda>get.
       case get dig of
         Ok (Some res) \<Rightarrow> Ok res
       | Ok None \<Rightarrow> Err ''digest not found''
       | Err err \<Rightarrow> Err err
       | Panic \<Rightarrow> Panic)"

definition engine_deliver_tx :: "'s abci_client \<Rightarrow> bytes \<Rightarrow> 's \<Rightarrow> (unit, string) result \<times> 's" where
  "engine_deliver_tx c tx s =
     (case ac_deliver_tx c tx s of
        (Ok _, s1) \<Rightarrow> (Ok (), s1)
      | (Err e, s1) \<Rightarrow> (Err e, s1)
      | (Panic, s1) \<Rightarrow> (Panic, s1))"

text \<open>\<open>try_for_each\<close>: stop at the first element that does not succeed.\<close>

fun try_for_each ::
  "('a \<Rightarrow> 's \<Rightarrow> (unit, string) result \<times> 's) \<Rightarrow> 'a list \<Rightarrow> 's \<Rightarrow> (unit, string) result \<times> 's" where
  "try_for_each f [] s = (Ok (), s)"
| "try_for_each f (x # xs) s =
     (case f x s of
        (Ok _, s1) \<Rightarrow> try_for_each f xs s1
      | (r, s1) \<Rightarrow> (r, s1))"

definition deliver_batch ::
  "worker_env \<Rightarrow> 's abci_client \<Rightarrow> bytes \<Rightarrow> 's \<Rightarrow> (unit, string) result \<times> 's" where
  "deliver_batch w c batch s =
     (case bincode_deserialize w batch of
        Some (Batch txs) \<Rightarrow> try_for_each (engine_deliver_tx c) txs s
      | None \<Rightarrow> (Err ''unrecognized message format'', s))"

definition deliver_read ::
  "worker_env \<Rightarrow> 's abci_client \<Rightarrow> (bytes, string) result \<Rightarrow> 's \<Rightarrow> (unit, string) result \<times> 's" where
  "deliver_read w c batch s =
     (case batch of
        Ok b \<Rightarrow> deliver_batch w c b s
      | Err e \<Rightarrow> (Err e, s)
      | Panic \<Rightarrow> (Panic, s))"

definition reconstruct_and_deliver_txs ::
  "worker_env \<Rightarrow> 's abci_client \<Rightarrow> engine \<Rightarrow> certificate \<Rightarrow> 's \<Rightarrow> (unit, string) result \<times> 's" where
  "reconstruct_and_deliver_txs w c e cert s =
     (let batches = map (reconstruct_batch w e) (map fst cert)
      in try_for_each (deliver_read w c) batches s)"

section \<open>Lifecycle\<close>

definition then_call ::
  "(unit, string) result \<times> 's \<Rightarrow> ('s \<Rightarrow> (unit, string) result \<times> 's) \<Rightarrow> (unit, string) result \<times> 's" where
  "then_call rs f = (case rs of (Ok _, s) \<Rightarrow> f s | (r, s) \<Rightarrow> (r, s))"

definition engine_begin_block :: "'s abci_client \<Rightarrow> int \<Rightarrow> 's \<Rightarrow> (unit, string) result \<times> 's" where
  [simp]: "engine_begin_block c height s = ac_begin_block c height s"

definition engine_end_block :: "'s abci_client \<Rightarrow> int \<Rightarrow> 's \<Rightarrow> (unit, string) result \<times> 's" where
  [simp]: "engine_end_block c height s = ac_end_block c height s"

definition engine_commit :: "'s abci_client \<Rightarrow> 's \<Rightarrow> (unit, string) result \<times> 's" where
  [simp]: "engine_commit c s = ac_commit c s"

definition handle_cert ::
  "worker_env \<Rightarrow> 's abci_client \<Rightarrow> certificate \<Rightarrow> engine \<Rightarrow> 's \<Rightarrow> (unit, string) result \<times> engine \<times> 's" where
  "handle_cert w c cert e s =
     (let proposed = i64_wrap (eng_last_block_height e + 1);
          e1 = e\<lparr>eng_last_block_height := proposed\<rparr>;
          r1 = engine_begin_block c proposed s;
          r2 = then_call r1 (reconstruct_and_deliver_txs w c e1 cert);
          r3 = then_call r2 (engine_end_block c proposed);
          (r, s4) = then_call r3 (engine_commit c)
      in (r, e1, s4))"

definition engine_init_chain :: "(string \<Rightarrow> bool) \<Rightarrow> 's abci_client \<Rightarrow> 's \<Rightarrow> (unit, string) result \<times> 's" where
  "engine_init_chain already_initialized c s =
     (case ac_init_chain c s of
        (Err err, s1) \<Rightarrow> if already_initialized err then (Ok (), s1) else (Err err, s1)
      | (r, s1) \<Rightarrow> (r, s1))"

section \<open>Queries and the main loop\<close>

text \<open>
  \<open>handle_abci_query\<close>. \<open>waiting\<close> says whether the requester still holds its end of the
  one-shot channel; the response that is sent is returned.
\<close>

definition handle_abci_query ::
  "'s abci_client \<Rightarrow> abci_query_query \<Rightarrow> bool \<Rightarrow> 's \<Rightarrow> (bytes \<times> bytes, string) result \<times> 's" where
  "handle_abci_query c req waiting s =
     (let q = \<lparr>rq_data = map of_char (aq_data req), rq_path = aq_path req,
               rq_height = i64_wrap (int (unwrap_or 0 (aq_height req))), rq_prove = unwrap_or False (aq_prove req)\<rparr>
      in case ac_query c q s of
           (Ok resp, s1) \<Rightarrow> if waiting then (Ok resp, s1) else (Err ''ResponseQuery'', s1)
         | (r, s1) \<Rightarrow> (r, s1))"

datatype engine_message = Cert certificate | AbciQuery abci_query_query bool

fun engine_loop ::
  "worker_env \<Rightarrow> 's abci_client \<Rightarrow> engine_message list \<Rightarrow> engine \<Rightarrow> 's \<Rightarrow> (unit, string) result \<times> engine \<times> 's" where
  "engine_loop w c [] e s = (Ok (), e, s)"
| "engine_loop w c (Cert cert # ms) e s =
     (case handle_cert w c cert e s of
        (Ok _, e1, s1) \<Rightarrow> engine_loop w c ms e1 s1
      | (r, e1, s1) \<Rightarrow> (r, e1, s1))"
| "engine_loop w c (AbciQuery req waiting # ms) e s =
     (case handle_abci_query c req waiting s of
        (Ok _, s1) \<Rightarrow> engine_loop w c ms e s1
      | (Err err, s1) \<Rightarrow> (Err err, e, s1)
      | (Panic, s1) \<Rightarrow> (Panic, e, s1))"

definition engine_run ::
  "(string \<Rightarrow> bool) \<Rightarrow> worker_env \<Rightarrow> 's abci_client \<Rightarrow> engine_message list \<Rightarrow> engine \<Rightarrow> 's
   \<Rightarrow> (unit, string) result \<times> engine \<times> 's" where
  "engine_run already_initialized w c ms e s =
     (case engine_init_chain already_initialized c s of
        (Ok _, s1) \<Rightarrow> engine_loop w c ms e s1
      | (r, s1) \<Rightarrow> (r, e, s1))"

section \<open>The HTTP endpoint\<close>

text \<open>
  The two routes of \<open>AbciApi\<close>. \<open>connect\<close> and \<open>send\<close> are the TCP connection to the worker
  and its framed writer; \<open>forward\<close> gives the answer of the engine, \<open>None\<close> when the engine
  dropped the one-shot sender or does not take the message.
\<close>

definition route_broadcast_tx ::
  "('t, string) result \<Rightarrow> ('t \<Rightarrow> bytes \<Rightarrow> (unit, string) result) \<Rightarrow> string \<Rightarrow> (string, string) result" where
  "route_broadcast_tx connect send tx =
     bind_res (unwrap connect) (\<lambda>stream.
       case send stream (map of_char tx) of
         Ok _ \<Rightarrow> Ok (''broadcast_tx: '' @ tx)
       | Err e \<Rightarrow> Ok (''ERROR IN: broadcast_tx: '' @ tx @ ''. Err: '' @ e)
       | Panic \<Rightarrow> Panic)"

definition route_abci_query ::
  "(abci_query_query \<Rightarrow> (bytes \<times> bytes) option) \<Rightarrow> abci_query_query \<Rightarrow> (bytes, string) result" where
  "route_abci_query forward req =
     (case forward req of
        None \<Rightarrow> Panic
      | Some resp \<Rightarrow> Ok (snd resp))"

section \<open>Transactions of a certificate\<close>

definition batch_txs :: "worker_env \<Rightarrow> engine \<Rightarrow> digest \<Rightarrow> bytes list option" where
  "batch_txs w e dig =
     (case reconstruct_batch w e dig of
        Ok b \<Rightarrow> (case bincode_deserialize w b of Some (Batch txs) \<Rightarrow> Some txs | None \<Rightarrow> None)
      | _ \<Rightarrow> None)"

fun digests_txs :: "worker_env \<Rightarrow> engine \<Rightarrow> digest list \<Rightarrow> bytes list option" where
  "digests_txs w e [] = Some []"
| "digests_txs w e (d # ds) =
     (case batch_txs w e d of
        None \<Rightarrow> None
      | Some txs \<Rightarrow> map_option (\<lambda>rest. txs @ rest) (digests_txs w e ds))"

definition cert_txs :: "worker_env \<Rightarrow> engine \<Rightarrow> certificate \<Rightarrow> bytes list option" where
  "cert_txs w e cert = digests_txs w e (map fst cert)"

text \<open>The height and the state that a sequence of messages should lead to.\<close>

fun ledger ::
  "(bytes \<Rightarrow> 'p \<Rightarrow> 'p) \<Rightarrow> (int \<Rightarrow> 'p \<Rightarrow> 'p) \<Rightarrow> worker_env \<Rightarrow> engine \<Rightarrow> engine_message list \<Rightarrow> int \<times> 'p \<Rightarrow> (int \<times> 'p) option" where
  "ledger exec seal w e [] (h, p) = Some (h, p)"
| "ledger exec seal w e (Cert cert # ms) (h, p) =
     (case cert_txs w e cert of
        None \<Rightarrow> None
      | Some txs \<Rightarrow> ledger exec seal w e ms (h + 1, seal (h + 1) (fold exec txs p)))"
| "ledger exec seal w e (AbciQuery q b # ms) (h, p) = ledger exec seal w e ms (h, p)"

lemma reconstruct_batch_height [simp]:
  "reconstruct_batch w (e\<lparr>eng_last_block_height := h\<rparr>) = reconstruct_batch w e"
  by (rule ext) (simp add: reconstruct_batch_def worker_db_def)

lemma batch_txs_height [simp]: "batch_txs w (e\<lparr>eng_last_block_height := h\<rparr>) d = batch_txs w e d"
  by (simp add: batch_txs_def)

lemma digests_txs_height [simp]: "digests_txs w (e\<lparr>eng_last_block_height := h\<rparr>) ds = digests_txs w e ds"
  by (induction ds) (auto split: option.split)

lemma cert_txs_height [simp]: "cert_txs w (e\<lparr>eng_last_block_height := h\<rparr>) cert = cert_txs w e cert"
  by (simp add: cert_txs_def)

lemma ledger_height [simp]:
  "ledger exec seal w (e\<lparr>eng_last_block_height := h\<rparr>) ms hp = ledger exec seal w e ms hp"
  by (induction exec seal w e ms hp rule: ledger.induct) (auto split: option.split)

lemma i64_wrap_id: "- (2 ^ 63) \<le> x \<Longrightarrow> x < 2 ^ 63 \<Longrightarrow> i64_wrap x = x"
  by (simp add: i64_wrap_def)

lemma then_call_eq: "then_call (Ok u, s) f = f s" "then_call (Err m, s) f = (Err m, s)" "then_call (Panic, s) f = (Panic, s)"
  by (simp_all add: then_call_def)

lemma handle_cert_calls [simp]: "engine_end_block c h = ac_end_block c h" "engine_commit c = ac_commit c"
  by (rule ext, simp)+

lemma try_for_each_append:
  "try_for_each f (xs @ ys) s = then_call (try_for_each f xs s) (try_for_each f ys)"
  by (induction xs arbitrary: s) (auto simp: then_call_def split: prod.split result.split)

lemma snd_engine_deliver_tx [simp]: "snd (engine_deliver_tx c tx s) = snd (ac_deliver_tx c tx s)"
  by (auto simp: engine_deliver_tx_def split: prod.split result.split)

lemma ok_engine_deliver_tx [simp]: "is_ok (fst (engine_deliver_tx c tx s)) = is_ok (fst (ac_deliver_tx c tx s))"
  by (auto simp: engine_deliver_tx_def split: prod.split result.split)

section \<open>Blocks against the contract\<close>

context abci_application
begin

lemma deliver_txs:
  "try_for_each (engine_deliver_tx c) txs s = (r, s') \<Longrightarrow>
     committed s' = committed s \<and> (r = Ok () \<longrightarrow> pending s' = fold exec txs (pending s))"
proof (induction txs arbitrary: s)
  case (Cons tx txs)
  obtain r1 s1 where call: "engine_deliver_tx c tx s = (r1, s1)" by (cases "engine_deliver_tx c tx s")
  then have "s1 = snd (ac_deliver_tx c tx s)" using snd_engine_deliver_tx [of c tx s] by simp
  then have step: "pending s1 = exec tx (pending s) \<and> committed s1 = committed s"
    by (metis deliver_exec prod.collapse)
  show ?case
  proof (cases "is_ok r1")
    case True
    with call Cons.prems have "try_for_each (engine_deliver_tx c) txs s1 = (r, s')"
      by (auto simp: is_ok_iff)
    with Cons.IH step show ?thesis by auto
  next
    case False
    with call Cons.prems step show ?thesis by (auto split: result.splits)
  qed
qed simp

lemma deliver_digests:
  "try_for_each (deliver_read w c) (map (reconstruct_batch w e) ds) s = (r, s') \<Longrightarrow>
     committed s' = committed s \<and>
     (r = Ok () \<longrightarrow> (\<exists>txs. digests_txs w e ds = Some txs \<and> pending s' = fold exec txs (pending s)))"
proof (induction ds arbitrary: s)
  case (Cons d ds)
  show ?case
  proof (cases "batch_txs w e d")
    case None
    then have "\<not> is_ok (fst (deliver_read w c (reconstruct_batch w e d) s)) \<and>
        snd (deliver_read w c (reconstruct_batch w e d) s) = s"
      by (auto simp: batch_txs_def deliver_read_def deliver_batch_def
          split: result.splits option.splits worker_message.splits)
    with Cons.prems show ?thesis by (auto split: prod.splits result.splits)
  next
    case (Some txs)
    then have read: "deliver_read w c (reconstruct_batch w e d) s = try_for_each (engine_deliver_tx c) txs s"
      by (auto simp: batch_txs_def deliver_read_def deliver_batch_def
          split: result.splits option.splits worker_message.splits)
    obtain r1 s1 where call: "try_for_each (engine_deliver_tx c) txs s = (r1, s1)"
      by (cases "try_for_each (engine_deliver_tx c) txs s")
    note step = deliver_txs [OF call]
    show ?thesis
    proof (cases "r1 = Ok ()")
      case True
      with read call Cons.prems
      have "try_for_each (deliver_read w c) (map (reconstruct_batch w e) ds) s1 = (r, s')" by simp
      from Cons.IH [OF this] Some step True show ?thesis by auto
    next
      case False
      with read call Cons.prems step show ?thesis by (cases r1) auto
    qed
  qed
qed simp

lemma handle_cert_spec:
  assumes "handle_cert w c cert e s = (r, e', s')"
    and "- (2 ^ 63) \<le> eng_last_block_height e" and "eng_last_block_height e + 1 < 2 ^ 63"
  shows "e' = e\<lparr>eng_last_block_height := eng_last_block_height e + 1\<rparr>"
    and "r = Ok () \<Longrightarrow> (\<exists>txs. cert_txs w e cert = Some txs \<and>
      pending s' = seal (eng_last_block_height e + 1) (fold exec txs (pending s)) \<and> committed s' = pending s')"
    and "r \<noteq> Ok () \<Longrightarrow> committed s' = committed s"
proof -
  let ?h = "eng_last_block_height e + 1"
  let ?e = "e\<lparr>eng_last_block_height := ?h\<rparr>"
  have h: "i64_wrap ?h = ?h" using assms(2,3) by (intro i64_wrap_id) auto
  obtain r1 s1 where c1: "ac_begin_block c ?h s = (r1, s1)" by (cases "ac_begin_block c ?h s")
  obtain r2 s2 where c2: "then_call (r1, s1) (reconstruct_and_deliver_txs w c ?e cert) = (r2, s2)"
    by (cases "then_call (r1, s1) (reconstruct_and_deliver_txs w c ?e cert)")
  obtain r3 s3 where c3: "then_call (r2, s2) (ac_end_block c ?h) = (r3, s3)"
    by (cases "then_call (r2, s2) (ac_end_block c ?h)")
  have c4: "then_call (r3, s3) (ac_commit c) = (r, s')" and e': "e' = ?e"
    using assms(1) by (auto simp: handle_cert_def Let_def h c1 c2 c3 split: prod.splits)
  note b = begin_keeps [OF c1]
  have d: "committed s2 = committed s \<and> (r2 = Ok () \<longrightarrow>
      (\<exists>txs. cert_txs w e cert = Some txs \<and> pending s2 = fold exec txs (pending s)))"
    using c2 b deliver_digests [of w ?e "map fst cert" s1 r2 s2]
    by (cases r1) (auto simp: then_call_eq reconstruct_and_deliver_txs_def cert_txs_def)
  have f: "committed s3 = committed s \<and> (r3 = Ok () \<longrightarrow>
      (\<exists>txs. cert_txs w e cert = Some txs \<and> pending s3 = seal ?h (fold exec txs (pending s))))"
    using c3 d end_seals [of ?h s2 r3 s3] by (cases r2) (auto simp: then_call_eq)
  have g: "(r = Ok () \<longrightarrow> r3 = Ok () \<and> pending s' = pending s3 \<and> committed s' = pending s3) \<and>
      (r \<noteq> Ok () \<longrightarrow> committed s' = committed s)"
    using c4 f commit_publishes [of s3 r s'] by (cases r3) (auto simp: then_call_eq)
  show "e' = ?e" by (rule e')
  show "r = Ok () \<Longrightarrow> (\<exists>txs. cert_txs w e cert = Some txs \<and>
      pending s' = seal ?h (fold exec txs (pending s)) \<and> committed s' = pending s')"
    using f g by auto
  show "r \<noteq> Ok () \<Longrightarrow> committed s' = committed s" using g by blast
qed

lemma handle_abci_query_keeps:
  "handle_abci_query c req waiting s = (r, s') \<Longrightarrow>
     pending s' = pending s \<and> height_of (committed s') = height_of (committed s)"
  using query_keeps by (auto simp: handle_abci_query_def Let_def split: prod.splits result.splits if_splits)

lemma engine_loop_spec:
  "engine_loop w c ms e s = (Ok (), e', s') \<Longrightarrow> - (2 ^ 63) \<le> eng_last_block_height e \<Longrightarrow>
   eng_last_block_height e + int (length ms) < 2 ^ 63 \<Longrightarrow>
   height_of (committed s) = eng_last_block_height e \<Longrightarrow>
     ledger exec seal w e ms (eng_last_block_height e, pending s) = Some (eng_last_block_height e', pending s') \<and>
     height_of (committed s') = eng_last_block_height e'"
proof (induction ms arbitrary: e s)
  case (Cons m ms)
  show ?case
  proof (cases m)
    case (Cert cert)
    obtain r1 e1 s1 where call: "handle_cert w c cert e s = (r1, e1, s1)" by (cases "handle_cert w c cert e s")
    have r1: "r1 = Ok ()" and rest: "engine_loop w c ms e1 s1 = (Ok (), e', s')"
      using Cons.prems(1) Cert call by (auto split: result.splits)
    have room: "eng_last_block_height e + 1 < 2 ^ 63" using Cons.prems(3) by simp
    note spec = handle_cert_spec [OF call Cons.prems(2) room]
    obtain txs where txs: "cert_txs w e cert = Some txs"
      "pending s1 = seal (eng_last_block_height e + 1) (fold exec txs (pending s))" "committed s1 = pending s1"
      using spec(2) [OF r1] by blast
    have "height_of (committed s1) = eng_last_block_height e1"
      by (simp add: txs(2,3) spec(1) seal_height)
    with Cons.IH [OF rest] Cons.prems(2,3) Cert txs show ?thesis by (simp add: spec(1))
  next
    case (AbciQuery req waiting)
    obtain r1 s1 where call: "handle_abci_query c req waiting s = (r1, s1)"
      by (cases "handle_abci_query c req waiting s")
    have rest: "engine_loop w c ms e s1 = (Ok (), e', s')"
      using Cons.prems(1) AbciQuery call by (auto split: result.splits)
    from Cons.IH [OF rest] Cons.prems(2-4) AbciQuery handle_abci_query_keeps [OF call]
    show ?thesis by simp
  qed
qed simp

end

context reliable_application
begin

lemma deliver_txs_ok:
  "is_ok (fst (try_for_each (engine_deliver_tx c) txs s)) = accepts_all accepts exec txs (pending s)"
proof (induction txs arbitrary: s)
  case (Cons tx txs)
  obtain r1 s1 where call: "engine_deliver_tx c tx s = (r1, s1)" by (cases "engine_deliver_tx c tx s")
  then have s1: "s1 = snd (ac_deliver_tx c tx s)" using snd_engine_deliver_tx [of c tx s] by simp
  have "is_ok r1 = accepts tx (pending s)"
    using call ok_engine_deliver_tx [of c tx s] by (simp add: deliver_ok)
  moreover have "pending s1 = exec tx (pending s)" unfolding s1 by (metis deliver_exec prod.collapse)
  ultimately show ?case using call Cons.IH [of s1] by (cases r1) auto
qed simp

lemma deliver_digests_ok:
  "is_ok (fst (try_for_each (deliver_read w c) (map (reconstruct_batch w e) ds) s)) \<longleftrightarrow>
     (\<exists>txs. digests_txs w e ds = Some txs \<and> accepts_all accepts exec txs (pending s))"
proof (induction ds arbitrary: s)
  case (Cons d ds)
  show ?case
  proof (cases "batch_txs w e d")
    case None
    then have "\<not> is_ok (fst (deliver_read w c (reconstruct_batch w e d) s))"
      by (auto simp: batch_txs_def deliver_read_def deliver_batch_def
          split: result.splits option.splits worker_message.splits)
    with None show ?thesis by (auto split: prod.splits result.splits)
  next
    case (Some txs)
    then have read: "deliver_read w c (reconstruct_batch w e d) s = try_for_each (engine_deliver_tx c) txs s"
      by (auto simp: batch_txs_def deliver_read_def deliver_batch_def
          split: result.splits option.splits worker_message.splits)
    obtain r1 s1 where call: "try_for_each (engine_deliver_tx c) txs s = (r1, s1)"
      by (cases "try_for_each (engine_deliver_tx c) txs s")
    have r1: "is_ok r1 = accepts_all accepts exec txs (pending s)" using call deliver_txs_ok [of txs s] by simp
    show ?thesis
    proof (cases r1)
      case (Ok u)
      with deliver_txs [OF call] have "pending s1 = fold exec txs (pending s)" by simp
      with Ok Some read call r1 Cons.IH [of s1] show ?thesis by (auto simp: accepts_all_append)
    qed (use Some read call r1 in \<open>auto simp: accepts_all_append\<close>)
  qed
qed simp

lemma handle_cert_ok:
  "is_ok (fst (handle_cert w c cert e s)) \<longleftrightarrow>
     (\<exists>txs. cert_txs w e cert = Some txs \<and> accepts_all accepts exec txs (pending s))"
proof -
  let ?h = "i64_wrap (eng_last_block_height e + 1)"
  obtain s1 where c1: "ac_begin_block c ?h s = (Ok (), s1)" by (metis begin_ok prod.collapse)
  obtain r2 s2 where c2: "reconstruct_and_deliver_txs w c (e\<lparr>eng_last_block_height := ?h\<rparr>) cert s1 = (r2, s2)"
    by (cases "reconstruct_and_deliver_txs w c (e\<lparr>eng_last_block_height := ?h\<rparr>) cert s1")
  have "is_ok r2 \<longleftrightarrow> (\<exists>txs. cert_txs w e cert = Some txs \<and> accepts_all accepts exec txs (pending s))"
    using c2 deliver_digests_ok [of w e "map fst cert" s1] begin_keeps [OF c1]
    by (simp add: reconstruct_and_deliver_txs_def cert_txs_def)
  moreover have "is_ok (fst (handle_cert w c cert e s)) = is_ok r2"
  proof (cases r2)
    case (Ok u)
    obtain s3 where c3: "ac_end_block c ?h s2 = (Ok (), s3)" by (metis end_ok prod.collapse)
    obtain s4 where "ac_commit c s3 = (Ok (), s4)" by (metis commit_ok prod.collapse)
    with Ok c1 c2 c3 show ?thesis by (simp add: handle_cert_def Let_def then_call_eq)
  qed (use c1 c2 in \<open>simp_all add: handle_cert_def Let_def then_call_eq\<close>)
  ultimately show ?thesis by simp
qed

lemma partial_block:
  assumes "batch_txs w e d = Some txs" and "accepts_all accepts exec txs (pending s)"
    and "reconstruct_batch w e d2 = Err m"
  shows "\<exists>e' s'. handle_cert w c [(d, k), (d2, k2)] e s = (Err m, e', s') \<and>
    pending s' = fold exec txs (pending s) \<and> committed s' = committed s"
proof -
  let ?h = "i64_wrap (eng_last_block_height e + 1)"
  obtain s1 where c1: "ac_begin_block c ?h s = (Ok (), s1)" by (metis begin_ok prod.collapse)
  note b = begin_keeps [OF c1]
  have read: "deliver_read w c (reconstruct_batch w e d) s1 = try_for_each (engine_deliver_tx c) txs s1"
    using assms(1) by (auto simp: batch_txs_def deliver_read_def deliver_batch_def
        split: result.splits option.splits worker_message.splits)
  obtain r2 s2 where c2: "try_for_each (engine_deliver_tx c) txs s1 = (r2, s2)"
    by (cases "try_for_each (engine_deliver_tx c) txs s1")
  have "is_ok r2" using deliver_txs_ok [of txs s1] c2 assms(2) b by simp
  then have ok: "r2 = Ok ()" by (auto simp: is_ok_iff)
  have "handle_cert w c [(d, k), (d2, k2)] e s = (Err m, e\<lparr>eng_last_block_height := ?h\<rparr>, s2)"
    using deliver_read_def [of w c "Err m" s2]
    by (simp add: handle_cert_def Let_def c1 then_call_eq reconstruct_and_deliver_txs_def read c2 ok assms(3))
  moreover have "pending s2 = fold exec txs (pending s) \<and> committed s2 = committed s"
    using deliver_txs [OF c2] ok b by simp
  ultimately show ?thesis by blast
qed

end

section \<open>The engine on the EVM application\<close>

lemma ac_init_chain_app: "ac_init_chain (app_client ops gen) a = conn (init_chain ops gen a)"
  by (simp add: app_client_def)

lemma engine_init_chain_app: "snd (engine_init_chain ai (app_client ops gen) a) = snd (init_chain ops gen a)"
  by (auto simp: engine_init_chain_def ac_init_chain_app conn_eq split: prod.splits result.splits)

lemma engine_run_after_init:
  assumes "is_ok (fst (engine_init_chain ai (app_client ops gen) a))"
  shows "engine_run ai w (app_client ops gen) ms e a = engine_loop w (app_client ops gen) ms e (snd (init_chain ops gen a))"
  using assms engine_init_chain_app [of ai ops gen a]
  by (cases "engine_init_chain ai (app_client ops gen) a") (auto simp: engine_run_def is_ok_iff)

lemma engine_new_app:
  "engine_new (app_client ops gen) path a =
     (\<lparr>eng_store_path = path, eng_last_block_height = as_block_height (app_committed a)\<rparr>, a)"
  by (simp add: engine_new_def app_client_def info_def)

text \<open>
  C6. A block is committed exactly when every batch of its certificate is stored and decodes
  and the application accepts every transaction in turn. Then the committed state is the
  pending state after those transactions, in the order of the certificate, sealed at the
  next height; otherwise the committed state is untouched.\<close>

theorem handle_cert_commits_block:
  assumes "handle_cert w (app_client ops gen) cert e a = (r, e', a')"
    and "- (2 ^ 63) \<le> eng_last_block_height e" and "eng_last_block_height e + 1 < 2 ^ 63"
  shows "eng_last_block_height e' = eng_last_block_height e + 1 \<and>
    (case cert_txs w e cert of
       Some txs \<Rightarrow>
         if accepts_all (tx_accepted ops) (exec_tx ops) txs (app_current a)
         then r = Ok () \<and> app_current a' = app_committed a' \<and>
           app_committed a' = seal_block (eng_last_block_height e + 1) (fold (exec_tx ops) txs (app_current a))
         else \<not> is_ok r \<and> app_committed a' = app_committed a
     | None \<Rightarrow> \<not> is_ok r \<and> app_committed a' = app_committed a)"
  using ev.handle_cert_spec [OF assms] ev.handle_cert_ok [of w ops gen cert e a] assms(1)
  by (cases r) (auto split: option.splits)

text \<open>
  C4. A run of the engine that ends without an error has executed the certificates it took,
  in order, one block each, on top of the state that \<open>init_chain\<close> made; queries in between
  change nothing of that, and the application reports the engine's height.\<close>

theorem engine_run_executes_ledger:
  assumes "engine_new (app_client ops gen) path a = (e, a1)"
    and "engine_run already_initialized w (app_client ops gen) ms e a1 = (Ok (), e', a')"
    and "0 \<le> as_block_height (app_committed a)"
    and "as_block_height (app_committed a) + int (length ms) < 2 ^ 63"
  shows "ledger (exec_tx ops) seal_block w e ms
      (as_block_height (app_committed a), app_current (snd (init_chain ops gen a))) =
        Some (eng_last_block_height e', app_current a') \<and>
    fst (info a') = eng_last_block_height e'"
proof -
  have e: "a1 = a" "eng_last_block_height e = as_block_height (app_committed a)"
    using assms(1) by (auto simp: engine_new_app)
  obtain r1 a2 where i: "engine_init_chain already_initialized (app_client ops gen) a = (r1, a2)"
    by (cases "engine_init_chain already_initialized (app_client ops gen) a")
  then have a2: "a2 = snd (init_chain ops gen a)"
    using engine_init_chain_app [of already_initialized ops gen a] by simp
  have loop: "engine_loop w (app_client ops gen) ms e a2 = (Ok (), e', a')"
    using assms(2) i e(1) by (cases r1) (auto simp: engine_run_def)
  have "as_block_height (app_committed a2) = eng_last_block_height e"
    by (simp add: a2 init_chain_keeps e(2))
  with ev.engine_loop_spec [OF loop] assms(3,4) show ?thesis by (simp add: e(2) a2 info_def)
qed

text \<open>
  C29. A block that fails half-way is not rolled back. When the second batch of a certificate
  is missing, the run of the engine stops with the error and nothing of the block is committed, but the
  transactions of the first batch stay in the pending state of the application. An engine that is
  then started on the same application runs \<open>init_chain\<close> on that pending state, and its first block,
  even an empty one, commits the result: whatever \<open>init_chain\<close> does not itself touch, read by \<open>view\<close>, is
  committed as the transactions of the aborted block left it.\<close>

theorem aborted_block_is_published_later:
  assumes "is_ok (fst (engine_init_chain ai (app_client ops gen) a))" and "a0 = snd (init_chain ops gen a)"
    and "batch_txs w e d1 = Some txs"
    and "accepts_all (tx_accepted ops) (exec_tx ops) txs (app_current a0)"
    and "reconstruct_batch w e d2 = Err m"
    and "engine_run ai w (app_client ops gen) (Cert [(d1, k1), (d2, k2)] # ms) e a = (r, e1, a1)"
    and "is_ok (fst (engine_init_chain ai (app_client ops gen) a1))"
    and "engine_new (app_client ops gen) path a1 = (e2, a2)"
    and "engine_run ai w (app_client ops gen) [Cert []] e2 a2 = (r2, e3, a3)"
    and "- (2 ^ 63) \<le> as_block_height (app_committed a)"
    and "as_block_height (app_committed a) + 1 < 2 ^ 63"
    and "\<forall>b. view (as_db (app_current (snd (init_chain ops gen b)))) = view (as_db (app_current b))"
  shows "r = Err m \<and> app_committed a1 = app_committed a \<and> r2 = Ok () \<and>
    app_current a1 = fold (exec_tx ops) txs (app_current a0) \<and>
    app_committed a3 = seal_block (as_block_height (app_committed a) + 1) (app_current (snd (init_chain ops gen a1))) \<and>
    view (as_db (app_committed a3)) = view (as_db (fold (exec_tx ops) txs (app_current a0)))"
proof -
  obtain e' s' where part: "handle_cert w (app_client ops gen) [(d1, k1), (d2, k2)] e a0 = (Err m, e', s')"
    "app_current s' = fold (exec_tx ops) txs (app_current a0)" "app_committed s' = app_committed a0"
    using ev.partial_block [OF assms(3-5), of gen k1 k2] by blast
  have "engine_run ai w (app_client ops gen) (Cert [(d1, k1), (d2, k2)] # ms) e a = (Err m, e', s')"
    using assms(1) part(1) by (simp add: engine_run_after_init assms(2))
  with part assms(6) have first: "r = Err m" "app_current a1 = fold (exec_tx ops) txs (app_current a0)"
    "app_committed a1 = app_committed a" by (auto simp: assms(2) init_chain_keeps)
  let ?b = "snd (init_chain ops gen a1)"
  have new: "a2 = a1" "eng_last_block_height e2 = as_block_height (app_committed a)"
    using assms(8) first(3) by (auto simp: engine_new_app)
  obtain r4 e4 a4 where c: "handle_cert w (app_client ops gen) [] e2 ?b = (r4, e4, a4)"
    by (cases "handle_cert w (app_client ops gen) [] e2 ?b")
  then have "r4 = Ok ()" using ev.handle_cert_ok [of w ops gen "[]" e2 ?b] by (simp add: cert_txs_def is_ok_iff)
  moreover from this have "app_committed a4 = seal_block (as_block_height (app_committed a) + 1) (app_current ?b)"
    using ev.handle_cert_spec(2) [OF c] assms(10,11) new(2) by (auto simp: cert_txs_def)
  ultimately have "r2 = Ok ()" "app_committed a3 = seal_block (as_block_height (app_committed a) + 1) (app_current ?b)"
    using assms(9) c by (simp_all add: new(1) engine_run_after_init [OF assms(7)])
  with first assms(12) show ?thesis by (simp add: seal_block_def)
qed

text \<open>
  C31. A query whose requester has gone away, or that makes the application's handler fail,
  ends the engine: it takes no further certificate, whatever is queued.\<close>

theorem failed_query_stops_engine:
  assumes "\<not> waiting \<or> (\<exists>p. json_query ops (map of_char (aq_data req)) = Some (EthCall p) \<and> tr_to p = None)"
    and "engine_loop w (app_client ops gen) (AbciQuery req waiting # ms) e a = (r, e', a')"
  shows "\<not> is_ok r \<and> e' = e \<and> app_current a' = app_current a \<and> info a' = info a"
proof -
  obtain rq aq where q: "query_app ops (map of_char (aq_data req)) a = (rq, aq)"
    by (cases "query_app ops (map of_char (aq_data req)) a")
  have keep: "app_current aq = app_current a" "info aq = info a"
    using query_app_keeps [of ops "map of_char (aq_data req)" a] q by (simp_all add: info_def)
  obtain rh where h: "handle_abci_query (app_client ops gen) req waiting a = (rh, aq)"
    using q by (cases waiting; cases rq) (auto simp: handle_abci_query_def Let_def app_client_def)
  have "\<not> is_ok rh"
  proof (cases waiting)
    case True
    with assms(1) q have "rq = Panic" by (auto simp: query_app_def)
    with True q h show ?thesis by (auto simp: handle_abci_query_def Let_def app_client_def)
  next
    case False
    with q h show ?thesis by (cases rq) (auto simp: handle_abci_query_def Let_def app_client_def)
  qed
  with assms(2) h keep show ?thesis by (cases rh) auto
qed

section \<open>Examples\<close>

text \<open>A worker store with one batch of two transfers, under the digest 7.\<close>

definition demo_worker :: worker_env where
  "demo_worker =
     \<lparr>db_open_for_read_only = (\<lambda>path. if path = ''db-worker''
        then Ok (\<lambda>d. if d = [7] then Ok (Some [42]) else Ok None) else Err ''no such database''),
      bincode_deserialize = (\<lambda>b. if b = [42] then Some (Batch [[1, 2, 30], [2, 3, 10]]) else None)\<rparr>"

definition demo_engine :: engine where
  "demo_engine = \<lparr>eng_store_path = ''db'', eng_last_block_height = 0\<rparr>"

definition demo_final :: "(address \<times> nat) list" where
  "demo_final = [([1], 70), ([2], 20), ([3], 10)]"

lemmas engine_eval = demo_worker_def demo_engine_def demo_final_def cert_txs_def batch_txs_def
  reconstruct_batch_def worker_db_def

lemma demo_batch:
  "batch_txs demo_worker demo_engine [7] = Some [[1, 2, 30], [2, 3, 10]]"
  "reconstruct_batch demo_worker demo_engine [8] = Err ''digest not found''"
  "cert_txs demo_worker demo_engine [([7], 0)] = Some [[1, 2, 30], [2, 3, 10]]"
  by (simp_all add: engine_eval)

lemma demo_accepts: "accepts_all (tx_accepted demo_ops) (exec_tx demo_ops) [[1, 2, 30], [2, 3, 10]] (app_current demo_app)"
  by (simp add: tx_accepted_def exec_tx_def app_eval Let_def)

lemma demo_exec:
  "as_db (fold (exec_tx demo_ops) [[1, 2, 30], [2, 3, 10]] (app_current demo_app)) = demo_final"
  by (simp add: exec_tx_def app_eval Let_def demo_final_def)

theorem handle_cert_commits_block_witness:
  "\<exists>e' a'. handle_cert demo_worker (app_client demo_ops demo_genesis) [([7], 0)] demo_engine demo_app = (Ok (), e', a') \<and>
     eng_last_block_height e' = 1 \<and> as_db (app_committed a') = demo_final \<and> fst (info a') = 1"
proof -
  obtain r e' a' where run: "handle_cert demo_worker (app_client demo_ops demo_genesis) [([7], 0)] demo_engine demo_app = (r, e', a')"
    by (cases "handle_cert demo_worker (app_client demo_ops demo_genesis) [([7], 0)] demo_engine demo_app")
  have h: "eng_last_block_height demo_engine = 0" by (simp add: demo_engine_def)
  show ?thesis
    using handle_cert_commits_block [OF run] run demo_exec demo_accepts
    by (simp add: h demo_batch seal_block_def info_def)
qed

theorem engine_run_executes_ledger_witness:
  "\<exists>e a1 e' a'. engine_new (app_client demo_ops demo_genesis) ''db'' demo_app = (e, a1) \<and>
     engine_run (\<lambda>m. True) demo_worker (app_client demo_ops demo_genesis) [Cert [([7], 0)]] e a1 = (Ok (), e', a') \<and>
     eng_last_block_height e' = 1 \<and> as_db (app_current a') = demo_final"
proof -
  let ?c = "app_client demo_ops demo_genesis"
  have h: "eng_last_block_height demo_engine = 0" "as_block_height (app_committed demo_app) = 0"
    by (simp_all add: demo_engine_def demo_app_def consensus_new_def)
  have new: "engine_new ?c ''db'' demo_app = (demo_engine, demo_app)"
    by (simp add: engine_new_app demo_engine_def h)
  have init: "engine_init_chain (\<lambda>m. True) ?c demo_app = (Ok (), demo_app)" "snd (init_chain demo_ops demo_genesis demo_app) = demo_app"
    by (simp_all add: engine_init_chain_def ac_init_chain_app init_chain_def demo_genesis_def)
  obtain e' a' where cert: "handle_cert demo_worker ?c [([7], 0)] demo_engine demo_app = (Ok (), e', a')"
    using ev.handle_cert_ok [of demo_worker demo_ops demo_genesis "[([7], 0)]" demo_engine demo_app] demo_accepts
    by (cases "handle_cert demo_worker ?c [([7], 0)] demo_engine demo_app") (auto simp: is_ok_iff demo_batch)
  have run: "engine_run (\<lambda>m. True) demo_worker ?c [Cert [([7], 0)]] demo_engine demo_app = (Ok (), e', a')"
    by (simp add: engine_run_def init(1) cert)
  have "0 \<le> as_block_height (app_committed demo_app)"
    "as_block_height (app_committed demo_app) + int (length [Cert [([7], 0)]]) < 2 ^ 63" by (simp_all add: h)
  from engine_run_executes_ledger [OF new run this] have
    "eng_last_block_height e' = 1" "app_current a' = seal_block 1 (fold (exec_tx demo_ops) [[1, 2, 30], [2, 3, 10]] (app_current demo_app))"
    by (auto simp: h init(2) demo_batch)
  then have "as_db (app_current a') = demo_final" using demo_exec by (simp add: seal_block_def)
  with new run \<open>eng_last_block_height e' = 1\<close> show ?thesis by blast
qed

theorem aborted_block_is_published_later_witness:
  "\<exists>e1 a1 e2 a2 e3 a3.
     engine_run (\<lambda>m. True) demo_worker (app_client demo_ops demo_genesis) [Cert [([7], 0), ([8], 0)]] demo_engine demo_app =
       (Err ''digest not found'', e1, a1) \<and> app_committed a1 = app_committed demo_app \<and>
     engine_new (app_client demo_ops demo_genesis) ''db'' a1 = (e2, a2) \<and>
     engine_run (\<lambda>m. True) demo_worker (app_client demo_ops demo_genesis) [Cert []] e2 a2 = (Ok (), e3, a3) \<and>
     as_db (app_committed a3) = demo_final"
proof -
  let ?c = "app_client demo_ops demo_genesis" and ?ai = "\<lambda>m::string. True"
  have init: "snd (init_chain demo_ops demo_genesis b) = b" "is_ok (fst (engine_init_chain ?ai ?c b))" for b
    by (simp_all add: engine_init_chain_def ac_init_chain_app init_chain_def demo_genesis_def)
  obtain r e1 a1 where c1: "engine_run ?ai demo_worker ?c [Cert [([7], 0), ([8], 0)]] demo_engine demo_app = (r, e1, a1)"
    by (cases "engine_run ?ai demo_worker ?c [Cert [([7], 0), ([8], 0)]] demo_engine demo_app")
  obtain e2 a2 where c2: "engine_new ?c ''db'' a1 = (e2, a2)" by (cases "engine_new ?c ''db'' a1")
  obtain r2 e3 a3 where c3: "engine_run ?ai demo_worker ?c [Cert []] e2 a2 = (r2, e3, a3)"
    by (cases "engine_run ?ai demo_worker ?c [Cert []] e2 a2")
  have h: "- (2 ^ 63) \<le> as_block_height (app_committed demo_app)" "as_block_height (app_committed demo_app) + 1 < 2 ^ 63"
    by (simp_all add: demo_app_def consensus_new_def)
  have "\<forall>b. id (as_db (app_current (snd (init_chain demo_ops demo_genesis b)))) = id (as_db (app_current b))"
    by (simp add: init)
  from aborted_block_is_published_later [OF init(2) init(1) [symmetric] demo_batch(1) demo_accepts demo_batch(2) c1 init(2) c2 c3 h this]
  have "r = Err ''digest not found''" "app_committed a1 = app_committed demo_app" "r2 = Ok ()" "as_db (app_committed a3) = demo_final"
    unfolding demo_exec id_apply by blast+
  with c1 c2 c3 show ?thesis by blast
qed

theorem failed_query_stops_engine_witness:
  "\<exists>r e' a'. engine_loop demo_worker (app_client demo_ops demo_genesis)
       [AbciQuery \<lparr>aq_path = [], aq_data = ''a'', aq_height = None, aq_prove = None\<rparr> False, Cert [([7], 0)]]
       demo_engine demo_app = (r, e', a') \<and> \<not> is_ok r \<and> e' = demo_engine \<and> info a' = info demo_app"
proof -
  let ?run = "engine_loop demo_worker (app_client demo_ops demo_genesis)
       [AbciQuery \<lparr>aq_path = [], aq_data = ''a'', aq_height = None, aq_prove = None\<rparr> False, Cert [([7], 0)]]
       demo_engine demo_app"
  obtain r e' a' where run: "?run = (r, e', a')" by (cases ?run)
  from failed_query_stops_engine [OF _ run] run show ?thesis by blast
qed

end
