(* ===== verification/Consensus_Start.thy ===== *)
theory Consensus_Start
  imports Engine
begin

text \<open>
  How consensus comes up: \<open>ursa-consensus/src/config.rs\<close> with \<open>consensus_start\<close> and \<open>process\<close> of
  \<open>engine.rs\<close>, and \<open>ursa-application/src/{config,server}.rs\<close>. Narwhal (committee, stores, primary,
  consensus and worker) is a record of operations; a socket address is an ip and a port.
\<close>

section \<open>Configuration\<close>

type_synonym socket_addr = "string \<times> u16"

record application_config =
  apc_domain :: string

definition application_config_default :: application_config where
  "application_config_default = \<lparr>apc_domain = ''0.0.0.0:3004''\<rparr>"

text \<open>The narwhal parameters: the two that are set here, and the others as the library has them.\<close>

record 'n narwhal_params =
  np_max_header_delay :: nat
  np_max_batch_delay :: nat
  np_rest :: 'n

record 'n consensus_config =
  cc_rpc_domain :: string
  cc_committee_path :: string
  cc_database_path :: string
  cc_narwhal_params :: "'n narwhal_params"

definition default_params :: "'n narwhal_params \<Rightarrow> 'n narwhal_params" where
  "default_params lib = lib\<lparr>np_max_header_delay := 1000, np_max_batch_delay := 1000\<rparr>"

definition consensus_config_default :: "'n narwhal_params \<Rightarrow> 'n consensus_config" where
  "consensus_config_default lib =
     \<lparr>cc_rpc_domain = ''0.0.0.0:3005'', cc_committee_path = ''./committee.json'',
      cc_database_path = ''~/.ursa/data/narwhal'', cc_narwhal_params = default_params lib\<rparr>"

text \<open>
  Sections of the configuration file, fields that are left out as \<open>None\<close>. The attribute of
  \<open>committee_path\<close> is a plain \<open>serde(default)\<close>, the empty string.
\<close>

record application_section =
  aps_domain :: "string option"

record 'n consensus_section =
  cs_rpc_domain :: "string option"
  cs_committee_path :: "string option"
  cs_database_path :: "string option"
  cs_narwhal_params :: "'n narwhal_params option"

definition application_config_of :: "application_section \<Rightarrow> application_config" where
  "application_config_of f = \<lparr>apc_domain = unwrap_or (apc_domain application_config_default) (aps_domain f)\<rparr>"

definition consensus_config_of :: "'n narwhal_params \<Rightarrow> 'n consensus_section \<Rightarrow> 'n consensus_config" where
  "consensus_config_of lib f =
     \<lparr>cc_rpc_domain = unwrap_or ''0.0.0.0:3005'' (cs_rpc_domain f),
      cc_committee_path = unwrap_or [] (cs_committee_path f),
      cc_database_path = unwrap_or ''~/.ursa/data/narwhal'' (cs_database_path f),
      cc_narwhal_params = unwrap_or (default_params lib) (cs_narwhal_params f)\<rparr>"

section \<open>Starting the application\<close>

definition application_start ::
  "(string \<Rightarrow> socket_addr option) \<Rightarrow> (socket_addr \<Rightarrow> (unit, string) result) \<Rightarrow> application_config \<Rightarrow>
   (unit, string) result" where
  "application_start parse run config =
     (case parse (apc_domain config) of
        None \<Rightarrow> Panic
      | Some addr \<Rightarrow> run addr)"

section \<open>Starting consensus\<close>

datatype key_pair = Ed25519Key bytes bytes | OtherKey

record 'c narwhal_ops =
  nw_committee :: "string \<Rightarrow> ('c, string) result"
  nw_store :: "string \<Rightarrow> (unit, string) result"
  nw_worker :: "'c \<Rightarrow> bytes \<Rightarrow> nat \<Rightarrow> socket_addr option"
  nw_parse :: "string \<Rightarrow> socket_addr option"

text \<open>
  What runs once \<open>consensus_start\<close> has set everything up: the stores that the primary and the
  worker were given, the address where queries and transactions arrive, the mempool they are
  forwarded to, the path that the engine is given and the application that it connects to.
  A malformed \<open>rpc_domain\<close> panics in the task of the server alone.
\<close>

record running =
  rn_primary_store :: string
  rn_worker_store :: string
  rn_worker_id :: nat
  rn_api :: "socket_addr option"
  rn_mempool :: socket_addr
  rn_store_path :: string
  rn_app_address :: socket_addr

definition set_ip :: "socket_addr \<Rightarrow> socket_addr" where
  "set_ip a = (''0.0.0.0'', snd a)"

definition process ::
  "'c narwhal_ops \<Rightarrow> string \<Rightarrow> bytes \<Rightarrow> 'c \<Rightarrow> string \<Rightarrow> string \<Rightarrow> running \<Rightarrow> (running, string) result" where
  "process nw store_path keypair_name committee abci_api app_api r =
     (case nw_worker nw committee keypair_name 0 of
        None \<Rightarrow> Panic
      | Some mempool_address \<Rightarrow>
          (case nw_parse nw app_api of
             None \<Rightarrow> Panic
           | Some app_address \<Rightarrow>
               Ok (r\<lparr>rn_api := map_option set_ip (nw_parse nw abci_api), rn_mempool := mempool_address,
                     rn_store_path := store_path, rn_app_address := set_ip app_address\<rparr>)))"

definition consensus_start ::
  "'c narwhal_ops \<Rightarrow> 'n consensus_config \<Rightarrow> string \<Rightarrow> key_pair \<Rightarrow> (running, string) result" where
  "consensus_start nw config app_api key =
     (case key of
        OtherKey \<Rightarrow> Err ''Keypair not supported''
      | Ed25519Key name secret \<Rightarrow>
          bind_res (map_err (\<lambda>_. ''Failed to read the committee data for committee file'')
              (nw_committee nw (cc_committee_path config))) (\<lambda>committee.
          (let primary = cc_database_path config; worker = cc_database_path config @ ''-'' @ ''worker'' in
          bind_res (map_err (\<lambda>_. ''Failed to create primary store'') (nw_store nw primary)) (\<lambda>_.
          bind_res (map_err (\<lambda>_. ''Failed to create worker store'') (nw_store nw worker)) (\<lambda>_.
            process nw (cc_database_path config) name committee (cc_rpc_domain config) app_api
              \<lparr>rn_primary_store = primary, rn_worker_store = worker, rn_worker_id = 0, rn_api = None,
               rn_mempool = ([], 0), rn_store_path = [], rn_app_address = ([], 0)\<rparr>)))))"

lemma process_Ok_iff:
  "process nw path name committee abci_api app_api r0 = Ok r \<longleftrightarrow>
     (\<exists>mempool app. nw_worker nw committee name 0 = Some mempool \<and> nw_parse nw app_api = Some app \<and>
        r = r0\<lparr>rn_api := map_option set_ip (nw_parse nw abci_api), rn_mempool := mempool,
               rn_store_path := path, rn_app_address := set_ip app\<rparr>)"
  by (cases "nw_worker nw committee name 0"; cases "nw_parse nw app_api") (auto simp: process_def)

lemma map_err_Ok_iff: "map_err f x = Ok y \<longleftrightarrow> x = Ok y"
  by (cases x) auto

lemma consensus_start_Ok:
  assumes "consensus_start nw config app_api (Ed25519Key name secret) = Ok r"
  shows "\<exists>committee app. nw_committee nw (cc_committee_path config) = Ok committee \<and>
    nw_worker nw committee name 0 = Some (rn_mempool r) \<and> nw_parse nw app_api = Some app \<and>
    rn_app_address r = set_ip app \<and> rn_store_path r = cc_database_path config \<and>
    rn_worker_store r = cc_database_path config @ ''-worker'' \<and> rn_worker_id r = 0 \<and>
    nw_store nw (rn_worker_store r) = Ok () \<and> rn_api r = map_option set_ip (nw_parse nw (cc_rpc_domain config))"
proof -
  have "\<exists>committee mempool app. nw_committee nw (cc_committee_path config) = Ok committee \<and>
      nw_store nw (cc_database_path config @ ''-worker'') = Ok () \<and>
      nw_worker nw committee name 0 = Some mempool \<and> nw_parse nw app_api = Some app \<and>
      r = \<lparr>rn_primary_store = cc_database_path config, rn_worker_store = cc_database_path config @ ''-worker'',
           rn_worker_id = 0, rn_api = map_option set_ip (nw_parse nw (cc_rpc_domain config)), rn_mempool = mempool,
           rn_store_path = cc_database_path config, rn_app_address = set_ip app\<rparr>"
    using assms by (auto simp: consensus_start_def bind_res_Ok_iff map_err_Ok_iff process_Ok_iff Let_def)
  then show ?thesis by auto
qed

text \<open>
  The engine reads the worker it started: the path at which it looks for the batches of a
  certificate is that of the store the worker was given, transactions are forwarded to the
  address of that worker in the committee, and the engine connects to the port that the
  application listens on.\<close>

theorem engine_finds_worker_store:
  assumes "consensus_start nw config (apc_domain ac) (Ed25519Key name secret) = Ok r"
  shows "rn_worker_store r = worker_db (fst (engine_new c (rn_store_path r) s)) \<and>
    nw_store nw (worker_db (fst (engine_new c (rn_store_path r) s))) = Ok () \<and>
    (\<exists>committee. nw_committee nw (cc_committee_path config) = Ok committee \<and>
       nw_worker nw committee name (rn_worker_id r) = Some (rn_mempool r)) \<and>
    (\<exists>addr. (\<forall>run. application_start (nw_parse nw) run ac = run addr) \<and> snd (rn_app_address r) = snd addr)"
proof -
  have "eng_store_path (fst (engine_new c p s)) = p" for p
    by (simp add: engine_new_def split: prod.split result.split)
  then have "worker_db (fst (engine_new c (rn_store_path r) s)) = rn_store_path r @ ''-worker''"
    by (simp add: worker_db_def)
  with consensus_start_Ok [OF assms] show ?thesis by (auto simp: application_start_def set_ip_def)
qed

text \<open>The application can bind any address, but the engine always connects to \<open>0.0.0.0\<close>.\<close>

lemma engine_ignores_application_ip:
  "consensus_start nw config app_api (Ed25519Key name secret) = Ok r \<Longrightarrow> fst (rn_app_address r) = ''0.0.0.0''"
  using consensus_start_Ok [of nw config app_api name secret r] by (auto simp: set_ip_def)

definition narwhal0 :: "unit narwhal_ops" where
  "narwhal0 = \<lparr>nw_committee = (\<lambda>p. if p = ''./committee.json'' then Ok () else Err []), nw_store = (\<lambda>_. Ok ()),
     nw_worker = (\<lambda>_ k _. if k = [1] then Some (''10.0.0.1'', 3007) else None),
     nw_parse = (\<lambda>d. if d = ''0.0.0.0:3004'' then Some (''0.0.0.0'', 3004) else None)\<rparr>"

definition consensus_config0 :: "unit consensus_config" where
  "consensus_config0 = consensus_config_default \<lparr>np_max_header_delay = 100, np_max_batch_delay = 100, np_rest = ()\<rparr>"

definition running0 :: running where
  "running0 = \<lparr>rn_primary_store = ''~/.ursa/data/narwhal'', rn_worker_store = ''~/.ursa/data/narwhal-worker'',
     rn_worker_id = 0, rn_api = None, rn_mempool = (''10.0.0.1'', 3007),
     rn_store_path = ''~/.ursa/data/narwhal'', rn_app_address = (''0.0.0.0'', 3004)\<rparr>"

theorem engine_finds_worker_store_witness:
  "rn_worker_store running0 = worker_db \<lparr>eng_store_path = ''~/.ursa/data/narwhal'', eng_last_block_height = 0\<rparr>"
proof -
  define c :: "unit abci_client" where "c = \<lparr>ac_info = (\<lambda>s. (Err [], s)), ac_init_chain = undefined, ac_begin_block = undefined,
    ac_deliver_tx = undefined, ac_end_block = undefined, ac_commit = undefined, ac_query = undefined\<rparr>"
  have "consensus_start narwhal0 consensus_config0 (apc_domain application_config_default) (Ed25519Key [1] [2]) = Ok running0"
    by (simp add: consensus_start_def process_def narwhal0_def consensus_config0_def consensus_config_default_def
        application_config_default_def running0_def set_ip_def Let_def)
  from engine_finds_worker_store [OF this, of c "()"] show ?thesis
    by (simp add: engine_new_def c_def running0_def)
qed

end
