(* ===== verification/Rpc_Service.thy ===== *)
theory Rpc_Service
  imports Store
begin

text \<open>
  The request side of a node, \<open>ursa-rpc-service/src/{api.rs,http/routes/network.rs,rpc/routes/network.rs}\<close>:
  fetching content from the network or from an origin gateway, providing it, and the HTTP
  and RPC handlers. The database, the network and provider services behind their channels,
  the origin and the CAR codec are fields of \<open>rpc_env\<close>. The content functions are those of
  one request; how requests for the same content id meet in \<open>get_origin\<close> is the state
  machine at the end.
\<close>

section \<open>Environment\<close>

text \<open>A command sent over a channel with a one-shot answer.\<close>

datatype chan_reply = SendFailed | RecvFailed | Reply "(unit, string) result"

record 'd rpc_env =
  re_db :: "('d, string) db_ops"
  re_ipld :: "string ipld_ops"
  re_get_bitswap :: "cid \<Rightarrow> 'd \<Rightarrow> chan_reply \<times> 'd"
  re_net_put :: "cid \<Rightarrow> chan_reply"
  re_provider_put :: "cid \<Rightarrow> nat \<Rightarrow> chan_reply"
  re_cid_str :: "cid \<Rightarrow> string"
  re_parse_cid :: "string \<Rightarrow> cid option"
  re_parse_url :: "string \<Rightarrow> bool"
  re_http :: "string \<Rightarrow> (bytes, string) result"
  re_car_roots :: "bytes \<Rightarrow> (cid list, string) result"
  re_car_read_into :: "bytes \<Rightarrow> 'd \<Rightarrow> (unit, string) result \<times> 'd"
  re_load_car :: "bytes \<Rightarrow> 'd \<Rightarrow> (cid list, string) result \<times> 'd"
  re_car_write :: "cid \<Rightarrow> (cid \<times> bytes) list \<Rightarrow> bytes"

record origin_config =
  oc_ipfs_gateway :: string
  oc_use_https :: "bool option"

definition origin_config_default :: origin_config where
  "origin_config_default = \<lparr>oc_ipfs_gateway = ''ipfs.io'', oc_use_https = None\<rparr>"

text \<open>
  What a request sends: commands to the network and the provider service, and the request to the origin.
  A command is listed when the channel has taken it, whatever becomes of the answer; one that could not
  be sent because the service is gone is not.
\<close>

datatype rpc_command = NetGet cid | OriginGet string | NetPut cid | ProviderPut cid nat

section \<open>Fetching and providing\<close>

text \<open>A command of \<open>provide_cid\<close>: a service that is gone and an answer that does not come are only logged.\<close>

fun tell :: "rpc_command \<Rightarrow> chan_reply \<Rightarrow> (unit, string) result \<times> rpc_command list" where
  "tell cmd SendFailed = (Ok (), [])"
| "tell cmd RecvFailed = (Ok (), [cmd])"
| "tell cmd (Reply r) = (r, [cmd])"

definition provide_cid :: "'d rpc_env \<Rightarrow> cid \<Rightarrow> nat \<Rightarrow> (unit, string) result \<times> rpc_command list" where
  "provide_cid env c n =
     (case tell (NetPut c) (re_net_put env c) of
        (Ok _, sent) \<Rightarrow> (case tell (ProviderPut c n) (re_provider_put env c n) of (r, announced) \<Rightarrow> (r, sent @ announced))
      | (r, sent) \<Rightarrow> (r, sent))"

definition get_network :: "'d rpc_env \<Rightarrow> cid \<Rightarrow> 'd \<Rightarrow> (unit, string) result \<times> 'd \<times> rpc_command list" where
  "get_network env c d =
     (case re_get_bitswap env c d of
        (Reply r, d1) \<Rightarrow> (r, d1, [NetGet c])
      | (RecvFailed, d1) \<Rightarrow> (Err ''channel closed'', d1, [NetGet c])
      | (SendFailed, d1) \<Rightarrow> (Err ''channel closed'', d1, []))"

definition origin_url :: "'d rpc_env \<Rightarrow> origin_config \<Rightarrow> cid \<Rightarrow> string" where
  "origin_url env cfg c =
     unwrap_or ''https://'' (map_option (\<lambda>v. if v then ''https://'' else ''http://'') (oc_use_https cfg)) @
     oc_ipfs_gateway cfg @ ''/ipfs/'' @ re_cid_str env c"

text \<open>The spawned task of \<open>get_origin\<close>: fetch the CAR file, check its roots, store it.\<close>

definition origin_task :: "'d rpc_env \<Rightarrow> origin_config \<Rightarrow> cid \<Rightarrow> 'd \<Rightarrow> (nat, string) result \<times> 'd" where
  "origin_task env cfg c d =
     (case re_http env (origin_url env cfg c) of
        Err e \<Rightarrow> (Err (''Error getting content from origin: '' @ e), d)
      | Panic \<Rightarrow> (Panic, d)
      | Ok body \<Rightarrow>
          (case re_car_roots env body of
             Err e \<Rightarrow> (Err (''Error reading car file from origin: '' @ e), d)
           | Panic \<Rightarrow> (Panic, d)
           | Ok roots \<Rightarrow>
               if c \<in> set roots then
                 (case re_car_read_into env body d of
                    (Ok _, d1) \<Rightarrow> (Ok (length body), d1)
                  | (Err e, d1) \<Rightarrow> (Err (''Error storing cid from origin: '' @ e), d1)
                  | (Panic, d1) \<Rightarrow> (Panic, d1))
               else (Err ''Error: cid not found in the origin response car file'', d)))"

text \<open>\<open>get_origin\<close> of a request that meets no other request for the same content id.\<close>

definition get_origin :: "'d rpc_env \<Rightarrow> origin_config \<Rightarrow> cid \<Rightarrow> 'd \<Rightarrow> (nat, string) result \<times> 'd \<times> rpc_command list" where
  "get_origin env cfg c d =
     (if \<not> re_parse_url env (origin_url env cfg c) then (Err ''invalid url'', d, [])
      else case origin_task env cfg c d of (r, d1) \<Rightarrow> (r, d1, [OriginGet (origin_url env cfg c)]))"

definition sync_content ::
  "'d rpc_env \<Rightarrow> origin_config \<Rightarrow> cid \<Rightarrow> 'd \<Rightarrow> ((unit, string) result \<times> 'd \<times> rpc_command list) option" where
  "sync_content env cfg c d =
     (case db_has (re_db env) d c of
        Err e \<Rightarrow> Some (Err e, d, [])
      | Panic \<Rightarrow> Some (Panic, d, [])
      | Ok True \<Rightarrow> Some (Ok (), d, [])
      | Ok False \<Rightarrow>
          (case get_network env c d of
             (Ok _, d1, asked) \<Rightarrow>
               (case car_size (re_db env) (re_ipld env) d1 c of
                  None \<Rightarrow> None
                | Some (Ok n) \<Rightarrow> (let (r, cmds) = provide_cid env c n in Some (r, d1, asked @ cmds))
                | Some (Err e) \<Rightarrow> Some (Err ''car size'', d1, asked)
                | Some Panic \<Rightarrow> Some (Panic, d1, asked))
           | (Err e, d1, asked) \<Rightarrow>
               (case get_origin env cfg c d1 of
                  (Ok n, d2, fetched) \<Rightarrow> (let (r, cmds) = provide_cid env c n in Some (r, d2, asked @ fetched @ cmds))
                | (Err e, d2, fetched) \<Rightarrow> Some (Err e, d2, asked @ fetched)
                | (Panic, d2, fetched) \<Rightarrow> Some (Panic, d2, asked @ fetched))
           | (Panic, d1, asked) \<Rightarrow> Some (Panic, d1, asked)))"

section \<open>The network interface\<close>

definition rpc_get ::
  "'d rpc_env \<Rightarrow> origin_config \<Rightarrow> cid \<Rightarrow> 'd \<Rightarrow> ((bytes, string) result \<times> 'd \<times> rpc_command list) option" where
  "rpc_get env cfg c d =
     map_option (\<lambda>(r, d1, cmds).
       (case r of
          Ok _ \<Rightarrow> bind_res (db_get (re_db env) d1 c)
             (ok_or ''content was fetched but could not be found in blockstore'')
        | Err e \<Rightarrow> Err e
        | Panic \<Rightarrow> Panic, d1, cmds)) (sync_content env cfg c d)"

definition get_data ::
  "'d rpc_env \<Rightarrow> origin_config \<Rightarrow> cid \<Rightarrow> 'd \<Rightarrow> (((cid \<times> bytes) list, string) result \<times> 'd \<times> rpc_command list) option" where
  "get_data env cfg c d =
     (case sync_content env cfg c d of
        None \<Rightarrow> None
      | Some (Ok _, d1, cmds) \<Rightarrow>
          map_option (\<lambda>dag. (map_err (\<lambda>e. ''dag traversal'') dag, d1, cmds)) (dag_traversal (re_db env) (re_ipld env) d1 c)
      | Some (Err e, d1, cmds) \<Rightarrow> Some (Err e, d1, cmds)
      | Some (Panic, d1, cmds) \<Rightarrow> Some (Panic, d1, cmds))"

definition stream ::
  "'d rpc_env \<Rightarrow> origin_config \<Rightarrow> cid \<Rightarrow> 'd \<Rightarrow> ((bytes, string) result \<times> 'd \<times> rpc_command list) option" where
  "stream env cfg c d =
     map_option (\<lambda>(r, d1, cmds). (bind_res r (\<lambda>dag. Ok (re_car_write env c dag)), d1, cmds)) (get_data env cfg c d)"

text \<open>\<open>get_file\<close> also writes the file; the result holds its path and its content.\<close>

definition get_file ::
  "'d rpc_env \<Rightarrow> origin_config \<Rightarrow> (string \<Rightarrow> bytes \<Rightarrow> (unit, string) result) \<Rightarrow> string \<Rightarrow> cid \<Rightarrow> 'd \<Rightarrow>
     ((unit, string) result \<times> 'd \<times> rpc_command list) option" where
  "get_file env cfg write_file path c d =
     map_option (\<lambda>(r, d1, cmds).
       (bind_res r (\<lambda>dag. write_file (path @ ''/'' @ re_cid_str env c @ ''.car'') (re_car_write env c dag)), d1, cmds))
       (get_data env cfg c d)"

definition put_car ::
  "'d rpc_env \<Rightarrow> bytes \<Rightarrow> nat \<Rightarrow> 'd \<Rightarrow> (cid list, string) result \<times> 'd \<times> rpc_command list" where
  "put_car env car n d =
     (case re_load_car env car d of
        (Err e, d1) \<Rightarrow> (Err e, d1, [])
      | (Panic, d1) \<Rightarrow> (Panic, d1, [])
      | (Ok cids, d1) \<Rightarrow>
          (case cids of
             [] \<Rightarrow> (Panic, d1, [])
           | root # _ \<Rightarrow>
               (let (r, cmds) = provide_cid env root n
                in (bind_res r (\<lambda>_. Ok cids), d1, cmds))))"

definition put_file ::
  "'d rpc_env \<Rightarrow> (string \<Rightarrow> (bytes, string) result) \<Rightarrow> string \<Rightarrow> 'd \<Rightarrow> (cid list, string) result \<times> 'd \<times> rpc_command list" where
  "put_file env read_file path d =
     (case read_file path of
        Ok car \<Rightarrow> put_car env car (length car) d
      | Err e \<Rightarrow> (Err e, d, [])
      | Panic \<Rightarrow> (Panic, d, []))"

section \<open>HTTP and RPC handlers\<close>

datatype network_error = NotFound string | InternalErr string | BadRequest string

fun network_error_status :: "network_error \<Rightarrow> nat \<times> string" where
  "network_error_status (NotFound e) = (404, e)"
| "network_error_status (InternalErr e) = (500, e)"
| "network_error_status (BadRequest e) = (400, e)"

text \<open>A panic in the spawned upload task is a join error.\<close>

definition upload_handler ::
  "'d rpc_env \<Rightarrow> ((string option \<times> (bytes, string) result) option, string) result \<Rightarrow> 'd
   \<Rightarrow> (cid list, network_error) result \<times> 'd \<times> rpc_command list" where
  "upload_handler env field d =
     (case field of
        Err e \<Rightarrow> (Err (InternalErr e), d, [])
      | Panic \<Rightarrow> (Err (InternalErr ''task panicked''), d, [])
      | Ok None \<Rightarrow> (Err (BadRequest ''No files found''), d, [])
      | Ok (Some (None, _)) \<Rightarrow> (Err (InternalErr ''task panicked''), d, [])
      | Ok (Some (Some content_type, data)) \<Rightarrow>
          if content_type = ''application/vnd.curl.car'' then
            (case data of
               Ok bs \<Rightarrow>
                 (let (r, d1, cmds) = put_car env bs (length bs) d
                  in (case r of Ok cids \<Rightarrow> Ok cids | Err e \<Rightarrow> Err (InternalErr e)
                              | Panic \<Rightarrow> Err (InternalErr ''task panicked''), d1, cmds))
             | Err e \<Rightarrow> (Err (InternalErr e), d, [])
             | Panic \<Rightarrow> (Err (InternalErr ''task panicked''), d, []))
          else (Err (BadRequest ''Content type do not match. Only .car files can be uploaded''), d, []))"

definition get_handler ::
  "'d rpc_env \<Rightarrow> origin_config \<Rightarrow> string \<Rightarrow> 'd \<Rightarrow> ((bytes, network_error) result \<times> 'd \<times> rpc_command list) option" where
  "get_handler env cfg cid_str d =
     (case re_parse_cid env cid_str of
        Some c \<Rightarrow> map_option (\<lambda>(r, d1, cmds). (map_err InternalErr r, d1, cmds)) (stream env cfg c d)
      | None \<Rightarrow> Some (Err (InternalErr (''Invalid Cid String, Cannot Parse '' @ cid_str @ '' to CID'')), d, []))"

datatype rpc_error = InvalidParams | RpcInternal string

definition get_cid_handler ::
  "'d rpc_env \<Rightarrow> origin_config \<Rightarrow> string \<Rightarrow> 'd \<Rightarrow> ((bytes, rpc_error) result \<times> 'd \<times> rpc_command list) option" where
  "get_cid_handler env cfg cid_str d =
     (case re_parse_cid env cid_str of
        Some c \<Rightarrow> map_option (\<lambda>(r, d1, cmds). (map_err RpcInternal r, d1, cmds)) (rpc_get env cfg c d)
      | None \<Rightarrow> Some (Err InvalidParams, d, []))"

definition get_file_handler ::
  "'d rpc_env \<Rightarrow> origin_config \<Rightarrow> (string \<Rightarrow> bytes \<Rightarrow> (unit, string) result) \<Rightarrow> string \<Rightarrow> string \<Rightarrow> 'd \<Rightarrow>
     ((unit, rpc_error) result \<times> 'd \<times> rpc_command list) option" where
  "get_file_handler env cfg write_file path cid_str d =
     (case re_parse_cid env cid_str of
        Some c \<Rightarrow> map_option (\<lambda>(r, d1, cmds). (map_err RpcInternal r, d1, cmds)) (get_file env cfg write_file path c d)
      | None \<Rightarrow> Some (Err InvalidParams, d, []))"

text \<open>The answer of \<open>put_file_handler\<close> is one string: the content ids without a separator.\<close>

definition put_file_handler ::
  "'d rpc_env \<Rightarrow> (string \<Rightarrow> (bytes, string) result) \<Rightarrow> string \<Rightarrow> 'd \<Rightarrow> (string, rpc_error) result \<times> 'd \<times> rpc_command list" where
  "put_file_handler env read_file path d =
     (let (r, d1, cmds) = put_file env read_file path d
      in (bind_res (map_err RpcInternal r) (\<lambda>cids. Ok (concat (map (re_cid_str env) cids))), d1, cmds))"

section \<open>Requests for content\<close>

text \<open>The commands that content is announced with: those to the services that are there.\<close>

definition announcements :: "'d rpc_env \<Rightarrow> cid \<Rightarrow> nat \<Rightarrow> rpc_command list" where
  "announcements env c n =
     (if re_net_put env c = SendFailed then [] else [NetPut c]) @
     (if re_provider_put env c n = SendFailed then [] else [ProviderPut c n])"

lemma tell_commands: "snd (tell cmd reply) = (if reply = SendFailed then [] else [cmd])"
  by (cases reply) simp_all

lemma provide_cid_commands:
  "provide_cid env c n = (Ok u, cmds) \<Longrightarrow> cmds = announcements env c n"
  using tell_commands [of "NetPut c" "re_net_put env c"] tell_commands [of "ProviderPut c n" "re_provider_put env c n"]
  by (auto simp: provide_cid_def announcements_def split: prod.splits result.splits)

text \<open>What a request for content that is not stored asks for first.\<close>

definition fetches :: "'d rpc_env \<Rightarrow> origin_config \<Rightarrow> cid \<Rightarrow> 'd \<Rightarrow> rpc_command list" where
  "fetches env cfg c d =
     (case fst (re_get_bitswap env c d) of
        Reply (Ok _) \<Rightarrow> [NetGet c]
      | SendFailed \<Rightarrow> [OriginGet (origin_url env cfg c)]
      | _ \<Rightarrow> [NetGet c, OriginGet (origin_url env cfg c)])"

lemma get_origin_ok: "get_origin env cfg c d = (Ok n, d1, fetched) \<Longrightarrow> fetched = [OriginGet (origin_url env cfg c)]"
  by (auto simp: get_origin_def split: if_splits prod.splits)

lemma sync_content_ok:
  assumes "sync_content env cfg c d = Some (Ok u, d', cmds)"
  shows "(db_has (re_db env) d c = Ok True \<and> d' = d \<and> cmds = []) \<or>
    (db_has (re_db env) d c = Ok False \<and> (\<exists>n. cmds = fetches env cfg c d @ announcements env c n))"
proof (cases "db_has (re_db env) d c = Ok False")
  case True
  obtain r d1 asked where net: "get_network env c d = (r, d1, asked)" by (cases "get_network env c d")
  show ?thesis
  proof (cases r)
    case (Ok v)
    then have "fetches env cfg c d = asked"
      using net by (auto simp: get_network_def fetches_def split: prod.splits chan_reply.splits)
    with assms True Ok net show ?thesis
      by (auto simp: sync_content_def split: option.splits result.splits prod.splits dest: provide_cid_commands)
  next
    case (Err e)
    then have "fetches env cfg c d = asked @ [OriginGet (origin_url env cfg c)]"
      using net by (auto simp: get_network_def fetches_def split: prod.splits chan_reply.splits)
    with assms True Err net show ?thesis
      by (auto simp: sync_content_def split: option.splits result.splits prod.splits dest!: provide_cid_commands get_origin_ok)
  next
    case Panic
    with assms True net show ?thesis by (simp add: sync_content_def)
  qed
next
  case False
  with assms show ?thesis by (auto simp: sync_content_def split: result.splits bool.splits)
qed

text \<open>
  C20. A request for the content under a root that succeeds returns exactly the blocks that
  are reachable from the root in the store it leaves behind. When the root is stored it contacts nobody, neither network nor
  provider nor origin. Otherwise it has asked the network service, if that is there, and, unless the
  network had the content, the origin; then it has told the network service and the provider about the content, each of them
  exactly if its channel still takes commands.\<close>

theorem get_data_returns_content:
  assumes "get_data env cfg c d = Some (Ok dag, d', cmds)"
    and "finite {c. \<exists>data. db_get (re_db env) d' c = Ok (Some data)}"
  shows "fst ` set dag = {x. reachable (re_db env) (re_ipld env) d' c x} \<and>
    (\<forall>(x, data) \<in> set dag. db_get (re_db env) d' x = Ok (Some data)) \<and>
    (if db_has (re_db env) d c = Ok True then d' = d \<and> cmds = []
     else \<exists>n. cmds =
       (if fst (re_get_bitswap env c d) = SendFailed then [] else [NetGet c]) @
       (if fst (re_get_bitswap env c d) = Reply (Ok ()) then [] else [OriginGet (origin_url env cfg c)]) @
       (if re_net_put env c = SendFailed then [] else [NetPut c]) @
       (if re_provider_put env c n = SendFailed then [] else [ProviderPut c n]))"
proof -
  obtain u where sync: "sync_content env cfg c d = Some (Ok u, d', cmds)"
    and "map_option (map_err (\<lambda>e. ''dag traversal'')) (dag_traversal (re_db env) (re_ipld env) d' c) = Some (Ok dag)"
    using assms(1) by (auto simp: get_data_def split: option.splits result.splits prod.splits)
  then have dag: "dag_traversal (re_db env) (re_ipld env) d' c = Some (Ok dag)"
    by (auto elim: map_err.elims)
  note t = dag_traversal_ok [OF assms(2) dag]
  from t(2) have "\<forall>(x, data) \<in> set dag. db_get (re_db env) d' x = Ok (Some data)"
    by (auto simp: good_block_def)
  with t(1) sync_content_ok [OF sync] show ?thesis
    by (auto simp: fetches_def announcements_def split: chan_reply.splits result.splits)
qed

text \<open>
  A root that is stored without all of its blocks stays incomplete: a request for the
  content fails and asks neither the network nor the origin for the missing block.\<close>

theorem partial_content_never_completed:
  assumes "db_has (re_db env) d c = Ok True"
    and "finite {c. \<exists>data. db_get (re_db env) d c = Ok (Some data)}"
    and "reachable (re_db env) (re_ipld env) d c x" and "db_get (re_db env) d x = Ok None"
  shows "\<exists>r. get_data env cfg c d = Some (r, d, []) \<and> \<not> is_ok r"
proof -
  have sync: "sync_content env cfg c d = Some (Ok (), d, [])" using assms(1) by (simp add: sync_content_def)
  obtain r where r: "dag_traversal (re_db env) (re_ipld env) d c = Some r"
    using dag_loop_total [OF assms(2) dag_inv_start] by (auto simp: dag_traversal_def)
  have "\<not> is_ok r"
  proof
    assume "is_ok r"
    then obtain dag where dag: "r = Ok dag" by (auto simp: is_ok_iff)
    note t = dag_traversal_ok [OF assms(2) r [unfolded dag]]
    from t(1) assms(3) obtain data where "(x, data) \<in> set dag" by force
    with t(2) assms(4) show False by (auto simp: good_block_def)
  qed
  then have "\<not> is_ok (map_err (\<lambda>e. ''dag traversal'') r)" by (cases r) auto
  with sync r show ?thesis by (simp add: get_data_def)
qed

section \<open>Examples\<close>

definition demo_rpc :: "(cid \<times> bytes) list rpc_env" where
  "demo_rpc = \<lparr>re_db = mem_db, re_ipld = mem_ipld, re_get_bitswap = (\<lambda>c d. (RecvFailed, d)),
     re_net_put = (\<lambda>c. Reply (Ok ())), re_provider_put = (\<lambda>c n. Reply (Ok ())),
     re_cid_str = (\<lambda>c. ''cid''), re_parse_cid = (\<lambda>s. Some [3]), re_parse_url = (\<lambda>u. True),
     re_http = (\<lambda>u. Ok [3]), re_car_roots = (\<lambda>b. Ok [b]), re_car_read_into = (\<lambda>b d. (Ok (), (b, []) # d)),
     re_load_car = (\<lambda>b d. (Ok [b], (b, []) # d)), re_car_write = (\<lambda>c dag. concat (map snd dag))\<rparr>"

lemma demo_rpc_simps [simp]: "re_db demo_rpc = mem_db" "re_ipld demo_rpc = mem_ipld"
  by (simp_all add: demo_rpc_def)

lemma demo_has: "db_has mem_db d c = Ok (map_of d c \<noteq> None)"
  by (simp add: mem_db_def)

lemma demo_sync: "sync_content demo_rpc origin_config_default [3] [] =
    Some (Ok (), [([3], [])], [NetGet [3], OriginGet ''https://ipfs.io/ipfs/cid'', NetPut [3], ProviderPut [3] 1])"
  by (simp add: sync_content_def demo_has get_network_def get_origin_def origin_task_def provide_cid_def origin_url_def
      origin_config_default_def demo_rpc_def [THEN arg_cong, of re_cid_str]
      demo_rpc_def [THEN arg_cong, of re_get_bitswap] demo_rpc_def [THEN arg_cong, of re_parse_url]
      demo_rpc_def [THEN arg_cong, of re_http] demo_rpc_def [THEN arg_cong, of re_car_roots]
      demo_rpc_def [THEN arg_cong, of re_car_read_into] demo_rpc_def [THEN arg_cong, of re_net_put]
      demo_rpc_def [THEN arg_cong, of re_provider_put])

theorem get_data_returns_content_witness:
  "get_data demo_rpc origin_config_default [3] [] =
     Some (Ok [([3], [])], [([3], [])], [NetGet [3], OriginGet ''https://ipfs.io/ipfs/cid'', NetPut [3], ProviderPut [3] 1]) \<and>
   {x. reachable mem_db mem_ipld [([3], [])] [3] x} = {[3]}"
proof -
  have t: "dag_traversal mem_db mem_ipld [([3], [])] [3] = Some (Ok [([3], [])])"
    by (simp add: dag_traversal_def dag_loop.simps picked_def set_add_def)
  have g: "get_data demo_rpc origin_config_default [3] [] =
     Some (Ok [([3], [])], [([3], [])], [NetGet [3], OriginGet ''https://ipfs.io/ipfs/cid'', NetPut [3], ProviderPut [3] 1])"
    by (simp add: get_data_def demo_sync t)
  have fin: "finite {c. \<exists>data. db_get (re_db demo_rpc) [([3], [])] c = Ok (Some data)}"
    using mem_db_finite [of "[([3], [])]"] by (simp del: mem_db_simps)
  show ?thesis using get_data_returns_content [OF g fin] g by auto
qed

theorem partial_content_never_completed_witness:
  "\<exists>r. get_data demo_rpc origin_config_default [1] [([1], [2])] = Some (r, [([1], [2])], []) \<and> \<not> is_ok r"
proof (rule partial_content_never_completed)
  show "db_has (re_db demo_rpc) [([1], [2])] [1] = Ok True" by (simp add: demo_has)
  show "finite {c. \<exists>data. db_get (re_db demo_rpc) [([1], [2])] c = Ok (Some data)}"
    using mem_db_finite [of "[([1], [2])]"] by (simp del: mem_db_simps)
  have "links mem_db mem_ipld [([1], [2])] [1] [2]" by (simp add: links_def)
  then show "reachable (re_db demo_rpc) (re_ipld demo_rpc) [([1], [2])] [1] [2]" by simp
  show "db_get (re_db demo_rpc) [([1], [2])] [2] = Ok None" by simp
qed

section \<open>Concurrent requests to the origin\<close>

text \<open>
  \<open>get_origin\<close> as a step relation. The guard of \<open>pending_requests\<close> that the scrutinee of the
  \<open>match\<close> takes lives until the end of the \<open>match\<close>: a request that finds an entry waits for
  its answer while it holds the write lock (\<open>WaitingLocked\<close>), the first request for a
  content id drops the lock, spawns the task and waits (\<open>Waiting\<close>). A task needs the lock
  to answer. The future of a request is followed to its end: that a server drops it, because its client went
  away, is not modelled. Requests are numbered; \<open>os_box\<close> is what a request's channel holds, and
  \<open>url_ok\<close> says whether the url of a content id parses.
\<close>

datatype req_phase = Idle cid | Waiting cid | WaitingLocked cid | Done "(nat, string) result"

datatype task_phase = Fetching | Fetched "(nat, string) result"

record origin_state =
  os_pending :: "(cid, nat list) hmap"
  os_lock :: "nat option"
  os_reqs :: "nat \<Rightarrow> req_phase option"
  os_tasks :: "cid \<Rightarrow> task_phase option"
  os_box :: "nat \<Rightarrow> (nat, string) result option"

definition origin_init :: origin_state where
  "origin_init = \<lparr>os_pending = [], os_lock = None, os_reqs = (\<lambda>_. None), os_tasks = (\<lambda>_. None), os_box = (\<lambda>_. None)\<rparr>"

inductive origin_step :: "(cid \<Rightarrow> bool) \<Rightarrow> origin_state \<Rightarrow> origin_state \<Rightarrow> bool" for url_ok where
  arrive: "os_reqs s r = None \<Longrightarrow> origin_step url_ok s (s\<lparr>os_reqs := (os_reqs s)(r \<mapsto> Idle c)\<rparr>)"
| first: "os_reqs s r = Some (Idle c) \<Longrightarrow> os_lock s = None \<Longrightarrow> hm_get (os_pending s) c = None \<Longrightarrow> url_ok c \<Longrightarrow>
    origin_step url_ok s (s\<lparr>os_pending := hm_insert c [r] (os_pending s),
      os_reqs := (os_reqs s)(r \<mapsto> Waiting c), os_tasks := (os_tasks s)(c \<mapsto> Fetching)\<rparr>)"
| bad_url: "os_reqs s r = Some (Idle c) \<Longrightarrow> os_lock s = None \<Longrightarrow> hm_get (os_pending s) c = None \<Longrightarrow> \<not> url_ok c \<Longrightarrow>
    origin_step url_ok s (s\<lparr>os_pending := hm_insert c [r] (os_pending s),
      os_reqs := (os_reqs s)(r \<mapsto> Done (Err ''invalid url''))\<rparr>)"
| second: "os_reqs s r = Some (Idle c) \<Longrightarrow> os_lock s = None \<Longrightarrow> hm_get (os_pending s) c = Some rs \<Longrightarrow>
    origin_step url_ok s (s\<lparr>os_pending := hm_insert c (rs @ [r]) (os_pending s), os_lock := Some r,
      os_reqs := (os_reqs s)(r \<mapsto> WaitingLocked c)\<rparr>)"
| fetched: "os_tasks s c = Some Fetching \<Longrightarrow> origin_step url_ok s (s\<lparr>os_tasks := (os_tasks s)(c \<mapsto> Fetched res)\<rparr>)"
| notify: "os_tasks s c = Some (Fetched res) \<Longrightarrow> os_lock s = None \<Longrightarrow>
    origin_step url_ok s (s\<lparr>os_pending := hm_remove c (os_pending s), os_tasks := (os_tasks s)(c := None),
      os_box := (\<lambda>q. if q \<in> set (unwrap_or [] (hm_get (os_pending s) c)) then Some res else os_box s q)\<rparr>)"
| receive: "os_reqs s r = Some (Waiting c) \<Longrightarrow> os_box s r = Some res \<Longrightarrow>
    origin_step url_ok s (s\<lparr>os_reqs := (os_reqs s)(r \<mapsto> Done res)\<rparr>)"
| receive_locked: "os_reqs s r = Some (WaitingLocked c) \<Longrightarrow> os_box s r = Some res \<Longrightarrow>
    origin_step url_ok s (s\<lparr>os_reqs := (os_reqs s)(r \<mapsto> Done res), os_lock := None\<rparr>)"

inductive_cases origin_stepE: "origin_step url_ok s s'"

text \<open>
  A request that waits with the lock is the holder and has no answer; no request that has
  not entered yet is registered or answered.
\<close>

definition origin_inv :: "origin_state \<Rightarrow> bool" where
  "origin_inv s \<longleftrightarrow>
     (\<forall>r c. os_reqs s r = Some (WaitingLocked c) \<longrightarrow> os_lock s = Some r \<and> os_box s r = None) \<and>
     (\<forall>r c. os_reqs s r = None \<or> os_reqs s r = Some (Idle c) \<longrightarrow>
        os_box s r = None \<and> (\<forall>d rs. hm_get (os_pending s) d = Some rs \<longrightarrow> r \<notin> set rs))"

lemma origin_init_inv: "origin_inv origin_init"
  by (simp add: origin_inv_def origin_init_def)

lemma origin_step_inv [inv_intros]: "origin_step url_ok s s' \<Longrightarrow> origin_inv s \<Longrightarrow> origin_inv s'"
proof (induction rule: origin_step.induct)
  case (arrive s r c)
  then show ?case by (auto simp: origin_inv_def)
next
  case (first s r c)
  then show ?case by (auto simp: origin_inv_def hm_get_insert split: if_splits)
next
  case (bad_url s r c)
  then show ?case by (auto simp: origin_inv_def hm_get_insert split: if_splits)
next
  case (second s r c rs)
  then show ?case by (auto simp: origin_inv_def hm_get_insert split: if_splits)
next
  case (fetched s c res)
  then show ?case by (auto simp: origin_inv_def)
next
  case (notify s c res)
  have "q \<notin> set (unwrap_or [] (hm_get (os_pending s) c))" if "os_reqs s q = None \<or> os_reqs s q = Some (Idle e)" for q e
    using notify(3) that by (cases "hm_get (os_pending s) c") (auto simp: origin_inv_def)
  with notify show ?case by (auto simp: origin_inv_def hm_get_remove split: if_splits)
next
  case (receive s r c res)
  then show ?case by (auto simp: origin_inv_def)
next
  case (receive_locked s r c res)
  then show ?case by (auto simp: origin_inv_def)
qed

lemma origin_reachable_inv: "(origin_step url_ok)\<^sup>*\<^sup>* origin_init s \<Longrightarrow> origin_inv s"
  by (induction rule: rtranclp_induct) (auto intro: origin_init_inv inv_intros)

text \<open>
  C23. A request that reaches the origin while another one for the same content id is pending
  never returns: from then on it holds the write lock for ever, no pending request is
  answered and no other request can enter.\<close>

theorem concurrent_origin_requests_deadlock:
  assumes "(origin_step url_ok)\<^sup>*\<^sup>* origin_init s" and "os_reqs s r = Some (WaitingLocked c)"
    and "(origin_step url_ok)\<^sup>*\<^sup>* s s'"
  shows "os_reqs s' r = Some (WaitingLocked c) \<and> os_lock s' = Some r \<and> os_box s' = os_box s \<and>
    os_pending s' = os_pending s"
  using assms(3)
proof (induction rule: rtranclp_induct)
  case base
  with origin_reachable_inv [OF assms(1)] assms(2) show ?case by (auto simp: origin_inv_def)
next
  case (step y z)
  have "os_box s r = None" using origin_reachable_inv [OF assms(1)] assms(2) by (auto simp: origin_inv_def)
  moreover have "origin_inv y"
    using origin_reachable_inv rtranclp_trans [OF assms(1) step.hyps(1)] by blast
  moreover note step.IH
  ultimately show ?case
    using step.hyps(2) by (elim origin_stepE) (auto simp: origin_inv_def)
qed

text \<open>Two requests for one content id, the second after the first has entered.\<close>

definition demo_origin :: "nat \<Rightarrow> origin_state" where
  "demo_origin n = \<lparr>os_pending = (if n < 3 then [] else if n = 3 then [([7], [1])] else [([7], [1, 2])]),
     os_lock = (if n < 4 then None else Some 2),
     os_reqs = (\<lambda>q. if q = 1 \<and> 0 < n then Some (if n < 3 then Idle [7] else Waiting [7])
        else if q = 2 \<and> 1 < n then Some (if n < 4 then Idle [7] else WaitingLocked [7]) else None),
     os_tasks = (\<lambda>c. if c = [7] \<and> 3 \<le> n then Some Fetching else None), os_box = (\<lambda>_. None)\<rparr>"

lemma demo_origin_run: "(origin_step (\<lambda>_. True))\<^sup>*\<^sup>* origin_init (demo_origin 4)"
proof -
  have eqs: "demo_origin 0 = origin_init"
    "demo_origin 1 = (demo_origin 0)\<lparr>os_reqs := (os_reqs (demo_origin 0))(1 \<mapsto> Idle [7])\<rparr>"
    "demo_origin 2 = (demo_origin 1)\<lparr>os_reqs := (os_reqs (demo_origin 1))(2 \<mapsto> Idle [7])\<rparr>"
    "demo_origin 3 = (demo_origin 2)\<lparr>os_pending := hm_insert [7] [1] (os_pending (demo_origin 2)),
      os_reqs := (os_reqs (demo_origin 2))(1 \<mapsto> Waiting [7]), os_tasks := (os_tasks (demo_origin 2))([7] \<mapsto> Fetching)\<rparr>"
    "demo_origin 4 = (demo_origin 3)\<lparr>os_pending := hm_insert [7] ([1] @ [2]) (os_pending (demo_origin 3)), os_lock := Some 2,
      os_reqs := (os_reqs (demo_origin 3))(2 \<mapsto> WaitingLocked [7])\<rparr>"
    by (auto simp: demo_origin_def origin_init_def hm_insert_def fun_eq_iff)
  have "origin_step (\<lambda>_. True) (demo_origin 0) (demo_origin 1)" unfolding eqs(2)
    by (rule origin_step.arrive) (simp add: demo_origin_def)
  moreover have "origin_step (\<lambda>_. True) (demo_origin 1) (demo_origin 2)" unfolding eqs(3)
    by (rule origin_step.arrive) (simp add: demo_origin_def)
  moreover have "origin_step (\<lambda>_. True) (demo_origin 2) (demo_origin 3)" unfolding eqs(4)
    by (rule origin_step.first) (simp_all add: demo_origin_def)
  moreover have "origin_step (\<lambda>_. True) (demo_origin 3) (demo_origin 4)" unfolding eqs(5)
    by (rule origin_step.second) (simp_all add: demo_origin_def hm_get_def)
  ultimately show ?thesis unfolding eqs(1) [symmetric] by (meson converse_rtranclp_into_rtranclp rtranclp.rtrancl_refl)
qed

theorem concurrent_origin_requests_deadlock_witness:
  "os_reqs (demo_origin 4) 2 = Some (WaitingLocked [7]) \<and> os_lock (demo_origin 4) = Some 2"
proof -
  have w: "os_reqs (demo_origin 4) 2 = Some (WaitingLocked [7])" by (simp add: demo_origin_def)
  show ?thesis
    using concurrent_origin_requests_deadlock [OF demo_origin_run w rtranclp.rtrancl_refl] by simp
qed

end
