(* ===== verification/Node.thy ===== *)
theory Node
  imports Network_Setup Identity Tracker Consensus_Start Rpc_Service
begin

text \<open>
  The node binary, \<open>ursa/src/config.rs\<close>, \<open>ursa/src/ursa/mod.rs\<close> and \<open>main.rs\<close>: the
  configuration file that is read, completed, migrated and written back, the command line,
  and the order in which the services of a node are made and started. TOML, the line diff and
  the parser of multiaddresses are fields of \<open>toml_lib\<close>.
\<close>

section \<open>Configuration of the services\<close>

record provider_config =
  pc_domain :: "string option"
  pc_indexer_url :: string
  pc_database_path :: string

definition provider_config_default :: provider_config where
  "provider_config_default =
     \<lparr>pc_domain = None, pc_indexer_url = ''https://dev.cid.contact'', pc_database_path = ''~/.ursa/data/index_provider_db''\<rparr>"

record node_server_config =
  sc_domain :: net_addr
  sc_port :: u16
  sc_addr :: string
  sc_origin :: origin_config

definition server_config_default :: node_server_config where
  "server_config_default =
     \<lparr>sc_domain = [NetProto ''ip4/127.0.0.1'', NetTcp 4069], sc_port = 4069, sc_addr = ''0.0.0.0'',
      sc_origin = origin_config_default\<rparr>"

text \<open>The sections of the file; fields that are left out are \<open>None\<close>.\<close>

record provider_section =
  ps_domain :: "string option"
  ps_indexer_url :: "string option"
  ps_database_path :: "string option"

record origin_section =
  os_ipfs_gateway :: "string option"
  os_use_https :: "bool option"

record server_section =
  ss_domain :: "net_addr option"
  ss_port :: "u16 option"
  ss_addr :: "string option"
  ss_origin :: "origin_section option"

definition provider_config_of :: "provider_section \<Rightarrow> provider_config" where
  "provider_config_of f =
     \<lparr>pc_domain = ps_domain f,
      pc_indexer_url = unwrap_or (pc_indexer_url provider_config_default) (ps_indexer_url f),
      pc_database_path = unwrap_or (pc_database_path provider_config_default) (ps_database_path f)\<rparr>"

definition origin_config_of :: "origin_section \<Rightarrow> origin_config" where
  "origin_config_of f =
     \<lparr>oc_ipfs_gateway = unwrap_or (oc_ipfs_gateway origin_config_default) (os_ipfs_gateway f), oc_use_https = os_use_https f\<rparr>"

definition server_config_of :: "server_section \<Rightarrow> node_server_config" where
  "server_config_of f =
     \<lparr>sc_domain = unwrap_or (sc_domain server_config_default) (ss_domain f),
      sc_port = unwrap_or (sc_port server_config_default) (ss_port f),
      sc_addr = unwrap_or (sc_addr server_config_default) (ss_addr f),
      sc_origin = (case ss_origin f of None \<Rightarrow> origin_config_default | Some o' \<Rightarrow> origin_config_of o')\<rparr>"

record 'n ursa_config =
  uc_network :: network_config
  uc_provider :: provider_config
  uc_server :: node_server_config
  uc_application :: application_config
  uc_consensus :: "'n consensus_config"

definition ursa_config_default :: "'n narwhal_params \<Rightarrow> 'n ursa_config" where
  "ursa_config_default lib =
     \<lparr>uc_network = net_config_default, uc_provider = provider_config_default, uc_server = server_config_default,
      uc_application = application_config_default, uc_consensus = consensus_config_default lib\<rparr>"

record 'n ursa_file =
  uf_network :: "network_section option"
  uf_provider :: "provider_section option"
  uf_server :: "server_section option"
  uf_application :: "application_section option"
  uf_consensus :: "'n consensus_section option"

text \<open>A section that is left out is \<open>Default::default()\<close> of its type.\<close>

definition ursa_config_of :: "'n narwhal_params \<Rightarrow> 'n ursa_file \<Rightarrow> 'n ursa_config" where
  "ursa_config_of lib f =
     (let d = ursa_config_default lib in
      \<lparr>uc_network = (case uf_network f of None \<Rightarrow> uc_network d | Some s \<Rightarrow> net_config_of s),
       uc_provider = (case uf_provider f of None \<Rightarrow> uc_provider d | Some s \<Rightarrow> provider_config_of s),
       uc_server = (case uf_server f of None \<Rightarrow> uc_server d | Some s \<Rightarrow> server_config_of s),
       uc_application = (case uf_application f of None \<Rightarrow> uc_application d | Some s \<Rightarrow> application_config_of s),
       uc_consensus = (case uf_consensus f of None \<Rightarrow> uc_consensus d | Some s \<Rightarrow> consensus_config_of lib s)\<rparr>)"

section \<open>Loading\<close>

record 'n toml_lib =
  tm_params :: "'n narwhal_params"
  tm_parse :: "bytes \<Rightarrow> ('n ursa_file, string) result"
  tm_print :: "'n ursa_config \<Rightarrow> (bytes, string) result"
  tm_diff :: "bytes \<Rightarrow> bytes \<Rightarrow> nat"
  tm_multiaddr :: "string \<Rightarrow> net_addr option"

definition config_write :: "bytes \<Rightarrow> path \<Rightarrow> fsys \<Rightarrow> (unit, string) result \<times> fsys" where
  "config_write str path fs =
     (case path_parent path of
        None \<Rightarrow> (Panic, fs)
      | Some dir \<Rightarrow>
          bind_fs (fs_check OpCreateDir dir fs, fs) (\<lambda>_ fs.
          bind_fs (fs_create path fs) (\<lambda>_ fs. fs_write_all path str fs)))"

definition migrate :: "'n toml_lib \<Rightarrow> 'n ursa_config \<Rightarrow> ('n ursa_config, string) result" where
  "migrate lib config =
     (case pc_domain (uc_provider config) of
        None \<Rightarrow> Ok config
      | Some domain \<Rightarrow>
          (case tm_multiaddr lib domain of
             None \<Rightarrow> Panic
           | Some a \<Rightarrow>
               Ok (config\<lparr>uc_server := (uc_server config)\<lparr>sc_domain := a\<rparr>,
                          uc_provider := (uc_provider config)\<lparr>pc_domain := None\<rparr>\<rparr>)))"

definition load_or_default :: "'n toml_lib \<Rightarrow> path \<Rightarrow> fsys \<Rightarrow> ('n ursa_config, string) result \<times> fsys" where
  "load_or_default lib path fs =
     (if fs_exists path fs then
        bind_fs (fs_read_string path fs, fs) (\<lambda>raw fs.
        bind_fs (map_err (\<lambda>_. ''Failed to parse config file'') (tm_parse lib raw), fs) (\<lambda>f fs.
        bind_fs (migrate lib (ursa_config_of (tm_params lib) f), fs) (\<lambda>config fs.
        bind_fs (tm_print lib config, fs) (\<lambda>config_str fs.
          if 0 < tm_diff lib raw config_str then bind_fs (config_write config_str path fs) (\<lambda>_ fs. (Ok config, fs))
          else (Ok config, fs)))))
      else
        (let config = ursa_config_default (tm_params lib) in
         bind_fs (tm_print lib config, fs) (\<lambda>config_str fs.
         bind_fs (config_write config_str path fs) (\<lambda>_ fs. (Ok config, fs)))))"

record cli_opts =
  co_config :: "string option"
  co_rpc :: bool
  co_rpc_port :: "u16 option"
  co_log :: "string option"

definition config_path :: "(path \<Rightarrow> path) \<Rightarrow> path option \<Rightarrow> cli_opts \<Rightarrow> path" where
  "config_path resolve home opts =
     (case co_config opts of Some p \<Rightarrow> resolve p | None \<Rightarrow> path_join (unwrap_or [] home) ''.ursa/config.toml'')"

definition to_config ::
  "'n toml_lib \<Rightarrow> (path \<Rightarrow> path) \<Rightarrow> path option \<Rightarrow> cli_opts \<Rightarrow> fsys \<Rightarrow> ('n ursa_config, string) result \<times> fsys" where
  "to_config lib resolve home opts fs =
     bind_fs (load_or_default lib (config_path resolve home opts) fs) (\<lambda>config fs.
         (Ok (case co_rpc_port opts of
                Some rpc_port \<Rightarrow> config\<lparr>uc_server := (uc_server config)\<lparr>sc_port := rpc_port\<rparr>\<rparr>
              | None \<Rightarrow> config), fs))"

section \<open>Loading twice\<close>

text \<open>
  TOML text is UTF-8 and parses back to what was printed, a text does not differ from itself,
  and texts with the same lines parse alike.
\<close>

definition toml_laws :: "'n toml_lib \<Rightarrow> bool" where
  "toml_laws lib \<longleftrightarrow>
     (\<forall>c t. tm_print lib c = Ok t \<longrightarrow> utf8_valid t \<and> (\<exists>f. tm_parse lib t = Ok f \<and> ursa_config_of (tm_params lib) f = c)) \<and>
     (\<forall>t. tm_diff lib t t = 0)"

definition stable_at :: "path \<Rightarrow> fsys \<Rightarrow> bool" where
  "stable_at p fs = (fs_fault fs OpExists p = None \<and> fs_fault fs OpOpen p = None \<and> fs_fault fs OpRead p = None)"

lemma config_write_Ok:
  assumes "config_write t path fs = (Ok (), fs')"
  shows "\<exists>m. fs' = fs\<lparr>fs_files := (fs_files fs)(path \<mapsto> (t, m))\<rparr>"
  using assms
  by (auto simp: config_write_def bind_fs_Ok_iff fs_create_def fs_write_all_def fs_set_contents_def split: option.splits)

lemma migrate_domain: "migrate lib c = Ok c' \<Longrightarrow> pc_domain (uc_provider c') = None"
  by (auto simp: migrate_def split: option.splits)

text \<open>A file that the next start reads as \<open>c\<close> and leaves alone.\<close>

definition settled :: "'n toml_lib \<Rightarrow> path \<Rightarrow> 'n ursa_config \<Rightarrow> fsys \<Rightarrow> bool" where
  "settled lib p c fs \<longleftrightarrow>
     (\<exists>raw m f t. fs_files fs p = Some (raw, m) \<and> utf8_valid raw \<and> tm_parse lib raw = Ok f \<and>
        migrate lib (ursa_config_of (tm_params lib) f) = Ok c \<and> tm_print lib c = Ok t \<and> tm_diff lib raw t = 0)"

lemma settled_load:
  "settled lib p c fs \<Longrightarrow> stable_at p fs \<Longrightarrow> load_or_default lib p fs = (Ok c, fs)"
  by (auto simp: settled_def load_or_default_def fs_exists_def stable_at_def fs_read_string_def fs_read_def fs_check_def)

lemma settled_written:
  assumes "toml_laws lib" and "config_write t p fs = (Ok (), fs')" and "tm_print lib c = Ok t"
    and "pc_domain (uc_provider c) = None"
  shows "settled lib p c fs'"
proof -
  obtain m where "fs' = fs\<lparr>fs_files := (fs_files fs)(p \<mapsto> (t, m))\<rparr>" using config_write_Ok [OF assms(2)] by blast
  moreover obtain f where "tm_parse lib t = Ok f" "ursa_config_of (tm_params lib) f = c" "utf8_valid t" "tm_diff lib t t = 0"
    using assms(1,3) by (auto simp: toml_laws_def)
  ultimately show ?thesis using assms(3,4) by (auto simp: settled_def migrate_def)
qed

lemma load_or_default_domain:
  "load_or_default lib p fs = (Ok c, fs') \<Longrightarrow> pc_domain (uc_provider c) = None"
  by (auto simp: load_or_default_def bind_fs_Ok_iff Let_def ursa_config_default_def provider_config_default_def
      split: if_splits dest: migrate_domain)

lemma fs_read_string_Ok: "fs_read_string p fs = Ok raw \<Longrightarrow> utf8_valid raw \<and> (\<exists>m. fs_files fs p = Some (raw, m))"
  by (auto simp: fs_read_string_def fs_read_def bind_res_Ok_iff split: if_splits option.splits)

lemma load_settles:
  assumes "toml_laws lib" and "load_or_default lib p fs = (Ok c, fs')"
  shows "settled lib p c fs'"
proof -
  have "settled lib p c fs' \<or> (\<exists>t. tm_print lib c = Ok t \<and> config_write t p fs = (Ok (), fs'))"
    using assms(2)
    by (auto simp: load_or_default_def bind_fs_Ok_iff map_err_Ok_iff settled_def Let_def dest: fs_read_string_Ok split: if_splits)
  then show ?thesis using settled_written [OF assms(1)] load_or_default_domain [OF assms(2)] by blast
qed

lemma load_keeps_faults: "load_or_default lib p fs = (Ok c, fs') \<Longrightarrow> fs_fault fs' = fs_fault fs"
  by (auto simp: load_or_default_def bind_fs_Ok_iff Let_def dest: config_write_Ok split: if_splits)

interpretation cfg: restartable "\<lambda>_ :: unit. load_or_default lib p" "\<lambda>fs. toml_laws lib \<and> stable_at p fs" for lib p
proof
  fix fs c fs'
  assume ok: "toml_laws lib \<and> stable_at p fs" and l: "load_or_default lib p fs = (Ok c, fs')"
  then have "stable_at p fs'" using load_keeps_faults [OF l] by (simp add: stable_at_def)
  with ok load_settles [OF _ l] show "load_or_default lib p fs' = (Ok c, fs')" by (blast intro: settled_load)
qed

lemma to_config_Ok:
  assumes "to_config lib resolve home opts fs = (Ok c, fs')"
  shows "\<exists>c0. load_or_default lib (config_path resolve home opts) fs = (Ok c0, fs') \<and>
    c = c0\<lparr>uc_server := (uc_server c0)\<lparr>sc_port := unwrap_or (sc_port (uc_server c0)) (co_rpc_port opts)\<rparr>\<rparr>"
  using assms by (cases "co_rpc_port opts") (auto simp: to_config_def bind_fs_Ok_iff)

lemma to_config_load:
  "load_or_default lib (config_path resolve home opts) fs = (Ok c0, fs') \<Longrightarrow>
     to_config lib resolve home opts fs = (Ok (c0\<lparr>uc_server := (uc_server c0)\<lparr>sc_port :=
       unwrap_or (sc_port (uc_server c0)) (co_rpc_port opts)\<rparr>\<rparr>), fs')"
  by (cases "co_rpc_port opts") (auto simp: to_config_def)

text \<open>
  C30. Loading the configuration settles after one run: whether the file was missing, lacked
  fields, had the deprecated domain or was complete, any number of further
  starts read exactly the configuration of this one and leave the file as it is. The port of the command line holds
  for one run and never reaches the file.\<close>

theorem config_load_settles:
  assumes "toml_laws lib"
    and "p = config_path resolve home opts" and "stable_at p fs" and "to_config lib resolve home opts fs = (Ok c, fs')"
  shows "\<exists>c0. load_or_default lib p fs = (Ok c0, fs') \<and>
    restarts (\<lambda>_ :: unit. load_or_default lib p) us fs' = (replicate (length us) (Ok c0), fs') \<and>
    pc_domain (uc_provider c0) = None \<and>
    c = c0\<lparr>uc_server := (uc_server c0)\<lparr>sc_port := unwrap_or (sc_port (uc_server c0)) (co_rpc_port opts)\<rparr>\<rparr>"
proof -
  obtain c0 where l: "load_or_default lib p fs = (Ok c0, fs')"
    and c: "c = c0\<lparr>uc_server := (uc_server c0)\<lparr>sc_port := unwrap_or (sc_port (uc_server c0)) (co_rpc_port opts)\<rparr>\<rparr>"
    using to_config_Ok [OF assms(4)] assms(2) by blast
  with assms(1,3) show ?thesis using cfg.restarts_same [of lib p fs, OF _ l] load_or_default_domain [OF l] by blast
qed

text \<open>
  An empty section means the defaults, except for consensus: there the path of the
  committee file becomes the empty string, not the documented default, so a file that only
  sets another field of that section names no committee.\<close>

theorem empty_sections_default:
  assumes "uf_network f \<in> {None, Some \<lparr>ns_mdns = None, ns_relay_server = None, ns_autonat = None, ns_relay_client = None,
      ns_bootstrapper = None, ns_swarm_addrs = None, ns_bootstrap_nodes = None, ns_database_path = None,
      ns_identity = None, ns_keystore_path = None, ns_tracker = None, ns_kad_replication_factor = None\<rparr>}"
    and "uf_provider f \<in> {None, Some \<lparr>ps_domain = None, ps_indexer_url = None, ps_database_path = None\<rparr>}"
    and "uf_server f \<in> {None, Some \<lparr>ss_domain = None, ss_port = None, ss_addr = None, ss_origin = None\<rparr>}"
    and "uf_application f \<in> {None, Some \<lparr>aps_domain = None\<rparr>}"
    and "uf_consensus f \<in> {None, Some \<lparr>cs_rpc_domain = None, cs_committee_path = None, cs_database_path = None,
      cs_narwhal_params = None\<rparr>}"
  shows "ursa_config_of lib f =
    (if uf_consensus f = None then ursa_config_default lib
     else (ursa_config_default lib)\<lparr>uc_consensus := (consensus_config_default lib)\<lparr>cc_committee_path := []\<rparr>\<rparr>)"
proof -
  have "uc_network (ursa_config_of lib f) = net_config_default"
    using assms(1) by (auto simp: ursa_config_of_def ursa_config_default_def net_config_of_def Let_def)
  moreover have "uc_provider (ursa_config_of lib f) = provider_config_default"
    using assms(2) by (auto simp: ursa_config_of_def ursa_config_default_def provider_config_of_def provider_config_default_def Let_def)
  moreover have "uc_server (ursa_config_of lib f) = server_config_default"
    using assms(3) by (auto simp: ursa_config_of_def ursa_config_default_def server_config_of_def server_config_default_def Let_def)
  moreover have "uc_application (ursa_config_of lib f) = application_config_default"
    using assms(4) by (auto simp: ursa_config_of_def ursa_config_default_def application_config_of_def application_config_default_def Let_def)
  moreover have "uc_consensus (ursa_config_of lib f) =
      (if uf_consensus f = None then consensus_config_default lib else (consensus_config_default lib)\<lparr>cc_committee_path := []\<rparr>)"
    using assms(5) by (auto simp: ursa_config_of_def ursa_config_default_def consensus_config_of_def consensus_config_default_def Let_def)
  ultimately show ?thesis by (cases "ursa_config_of lib f") (auto simp: ursa_config_default_def)
qed

section \<open>Starting the services\<close>

text \<open>
  The services of other theories appear by what \<open>main\<close> hands them: \<open>na_service\<close> is
  \<open>UrsaService::new\<close> with the identity, \<open>na_open\<close> opens a database, \<open>na_peer_id\<close> is the peer id of
  a key and \<open>na_resolve\<close> expands a path.
\<close>

record ('k, 's) node_ops =
  na_version :: string
  na_resolve :: "path \<Rightarrow> path"
  na_peer_id :: "'k \<Rightarrow> string"
  na_open :: "path \<Rightarrow> (unit, string) result"
  na_service :: "'k \<Rightarrow> network_config \<Rightarrow> ('s, string) result"
  na_multiaddr :: "string \<Rightarrow> net_addr option"
  na_read_head :: "path \<Rightarrow> (bytes option, string) result"
  na_is_cid :: "bytes \<Rightarrow> bool"

datatype node_task = ServiceTask | RpcTask | ProviderTask | ApplicationTask | ConsensusTask

text \<open>A running node: the tasks in the order they were spawned, with what the later ones were given.\<close>

record ('k, 's, 'n) node_run =
  nr_keypair :: 'k
  nr_service :: 's
  nr_tasks :: "node_task list"
  nr_server_address :: net_addr
  nr_server_domain :: net_addr
  nr_server_port :: u16
  nr_application :: application_config
  nr_consensus :: "'n consensus_config"
  nr_app_api :: string
  nr_registration :: "(string \<times> tracker_registration) option"

definition choose_identity ::
  "'k key_lib \<Rightarrow> ('k, 's) node_ops \<Rightarrow> 'k \<Rightarrow> network_config \<Rightarrow> fsys \<Rightarrow> ('k identity_manager, string) result \<times> fsys" where
  "choose_identity kl na gen config fs =
     (if nc_identity config = ''random'' then (Ok (im_random gen), fs)
      else load_or_new kl gen (nc_identity config) (na_resolve na (nc_keystore_path config)) fs)"

fun proto_port :: "net_addr \<Rightarrow> u16 option" where
  "proto_port [] = None"
| "proto_port (NetTcp port # ps) = Some port"
| "proto_port (NetUdp port # ps) = Some port"
| "proto_port (_ # ps) = proto_port ps"

definition node_registration ::
  "('k, 's) node_ops \<Rightarrow> 'k \<Rightarrow> network_config \<Rightarrow> node_server_config \<Rightarrow> (tracker_registration, string) result" where
  "node_registration na keypair network server =
     (case nc_swarm_addrs network of
        [] \<Rightarrow> Panic
      | a # _ \<Rightarrow>
          Ok \<lparr>tg_id = na_peer_id na keypair, tg_agent = ''ursa/'' @ na_version na, tg_addr = None,
              tg_p2p_port = proto_port a, tg_http_port = Some (sc_port server), tg_telemetry = Some True\<rparr>)"

text \<open>The head that \<open>Provider::new\<close> reads from the provider's database has to be readable and a content id.\<close>

definition provider_head :: "('k, 's) node_ops \<Rightarrow> path \<Rightarrow> (bytes option, string) result" where
  "provider_head na db =
     bind_res (unwrap (na_read_head na db)) (\<lambda>head.
       case head of Some h \<Rightarrow> if na_is_cid na h then Ok (Some h) else Panic | None \<Rightarrow> Ok None)"

definition node_start ::
  "'k key_lib \<Rightarrow> ('k, 's) node_ops \<Rightarrow> 'k \<Rightarrow> 'n ursa_config \<Rightarrow> fsys \<Rightarrow> (('k, 's, 'n) node_run, string) result \<times> fsys" where
  "node_start kl na gen config fs =
     (let network = uc_network config; provider = uc_provider config; server = uc_server config in
      bind_fs (choose_identity kl na gen network fs) (\<lambda>im fs.
      (let keypair = im_current im in
       (bind_res (node_registration na keypair network server) (\<lambda>registration.
        bind_res (unwrap (na_open na (na_resolve na (nc_database_path network)))) (\<lambda>_.
        bind_res (na_service na keypair network) (\<lambda>service.
        bind_res (unwrap (na_open na (na_resolve na (pc_database_path provider)))) (\<lambda>_.
        case na_multiaddr na (''/ip4/'' @ sc_addr server @ ''/tcp/'' @ dec (unat (sc_port server))) of
          None \<Rightarrow> Panic
        | Some server_address \<Rightarrow>
            bind_res (provider_head na (na_resolve na (pc_database_path provider))) (\<lambda>_.
            Ok \<lparr>nr_keypair = keypair, nr_service = service,
                nr_tasks = [ServiceTask, RpcTask, ProviderTask, ApplicationTask, ConsensusTask],
                nr_server_address = server_address, nr_server_domain = sc_domain server, nr_server_port = sc_port server,
                nr_application = uc_application config, nr_consensus = uc_consensus config,
                nr_app_api = apc_domain (uc_application config),
                nr_registration = (if nc_tracker network \<noteq> [] then Some (nc_tracker network, registration) else None)\<rparr>))))),
        fs))))"

definition node_abort :: "node_task list" where
  "node_abort = [RpcTask, ServiceTask, ProviderTask, ApplicationTask, ConsensusTask]"

text \<open>\<open>main\<close> without a subcommand: an error of the configuration ends the process with code 1.\<close>

datatype ('k, 's, 'n) main_result = Runs "('k, 's, 'n) node_run" | Exits nat | MainErr string | MainPanic

definition node_main ::
  "'n toml_lib \<Rightarrow> path option \<Rightarrow> 'k key_lib \<Rightarrow> ('k, 's) node_ops \<Rightarrow> 'k \<Rightarrow> cli_opts \<Rightarrow> fsys \<Rightarrow>
   ('k, 's, 'n) main_result \<times> fsys" where
  "node_main lib home kl na gen opts fs =
     (case to_config lib (na_resolve na) home opts fs of
        (Err e, fs) \<Rightarrow> (Exits 1, fs)
      | (Panic, fs) \<Rightarrow> (MainPanic, fs)
      | (Ok config, fs) \<Rightarrow>
          (case node_start kl na gen config fs of
             (Ok run, fs) \<Rightarrow> (Runs run, fs)
           | (Err e, fs) \<Rightarrow> (MainErr e, fs)
           | (Panic, fs) \<Rightarrow> (MainPanic, fs)))"

lemma node_start_Ok:
  assumes "node_start kl na gen config fs = (Ok run, fs')"
  shows "node_registration na (nr_keypair run) (uc_network config) (uc_server config) = Ok reg \<Longrightarrow>
      nr_registration run = (if nc_tracker (uc_network config) \<noteq> [] then Some (nc_tracker (uc_network config), reg) else None)"
    and "is_ok (node_registration na (nr_keypair run) (uc_network config) (uc_server config))"
    and "\<exists>im. choose_identity kl na gen (uc_network config) fs = (Ok im, fs') \<and> nr_keypair run = im_current im"
    and "na_service na (nr_keypair run) (uc_network config) = Ok (nr_service run)"
    and "nr_app_api run = apc_domain (nr_application run)" and "nr_server_port run = sc_port (uc_server config)"
    and "nr_consensus run = uc_consensus config"
  using assms
  by (auto simp: node_start_def bind_fs_Ok_iff bind_res_Ok_iff is_ok_iff Let_def split: option.splits)

text \<open>
  C27. A node that was started under a name keeps its peer id over a restart with the same or another
  RPC port on the command line, and what it sends to the tracker carries that peer id, the port of its
  HTTP server and the port of the first address it listens on.\<close>

theorem node_restart_same_identity:
  assumes "toml_laws lib" and "key_laws kl" and "\<forall>p. stable_at p fs"
    and "node_main lib home kl na gen opts fs = (Runs run, fs1)"
    and "node_main lib home kl na gen' (opts\<lparr>co_rpc_port := port\<rparr>) fs1 = (Runs run', fs2)"
    and "nc_identity (uc_network c) \<noteq> ''random''" and "to_config lib (na_resolve na) home opts fs = (Ok c, fs0)"
    and "key_path (nc_identity (uc_network c)) (na_resolve na (nc_keystore_path (uc_network c))) \<noteq>
      config_path (na_resolve na) home opts"
  shows "nr_keypair run' = nr_keypair run \<and> fs2 = fs1 \<and>
    (\<forall>url reg. nr_registration run' = Some (url, reg) \<longrightarrow> tg_id reg = na_peer_id na (nr_keypair run) \<and>
       tg_http_port reg = Some (nr_server_port run') \<and> (port \<noteq> None \<longrightarrow> tg_http_port reg = port) \<and>
       tg_p2p_port reg = proto_port (hd (nc_swarm_addrs (uc_network c))))"
proof -
  let ?p = "config_path (na_resolve na) home opts"
  obtain c0 where l: "load_or_default lib ?p fs = (Ok c0, fs0)"
    and c: "c = c0\<lparr>uc_server := (uc_server c0)\<lparr>sc_port := unwrap_or (sc_port (uc_server c0)) (co_rpc_port opts)\<rparr>\<rparr>"
    using to_config_Ok [OF assms(7)] by blast
  have start: "node_start kl na gen c fs0 = (Ok run, fs1)"
    using assms(4,7) by (simp add: node_main_def split: prod.splits result.splits)
  have f0: "fs_fault fs0 = fs_fault fs" by (rule load_keeps_faults [OF l])
  from node_start_Ok(3) [OF start] assms(6) obtain im where
    im: "load_or_new kl gen (nc_identity (uc_network c)) (na_resolve na (nc_keystore_path (uc_network c))) fs0 = (Ok im, fs1)"
    and k: "nr_keypair run = im_current im"
    by (auto simp: choose_identity_def)
  note files = load_or_new_files [OF im assms(8) [symmetric]]
  have again: "load_or_default lib ?p fs1 = (Ok c0, fs1)"
    using load_settles [OF assms(1) l] assms(3) f0 files by (intro settled_load) (auto simp: settled_def stable_at_def)
  let ?c = "c0\<lparr>uc_server := (uc_server c0)\<lparr>sc_port := unwrap_or (sc_port (uc_server c0)) port\<rparr>\<rparr>"
  have cp: "config_path (na_resolve na) home (opts\<lparr>co_rpc_port := port\<rparr>) = ?p" by (simp add: config_path_def)
  have "to_config lib (na_resolve na) home (opts\<lparr>co_rpc_port := port\<rparr>) fs1 = (Ok ?c, fs1)"
    using to_config_load [of lib "na_resolve na" home "opts\<lparr>co_rpc_port := port\<rparr>" fs1 c0 fs1] again by (simp add: cp)
  then have start': "node_start kl na gen' ?c fs1 = (Ok run', fs2)"
    using assms(5) by (simp add: node_main_def split: prod.splits result.splits)
  have "readable_at q fs0" for q using assms(3) f0 by (simp add: readable_at_def stable_at_def)
  then have "choose_identity kl na gen' (uc_network ?c) fs1 =
      (Ok \<lparr>im_name = nc_identity (uc_network c), im_identity = im_current im,
           im_dir = na_resolve na (nc_keystore_path (uc_network c))\<rparr>, fs1)"
    using load_or_new_loads [OF load_or_new_settles [OF assms(2) _ im]] assms(6) c by (simp add: choose_identity_def)
  then have "nr_keypair run' = im_current im" "fs2 = fs1"
    using node_start_Ok(3) [OF start'] by (auto simp: im_current_def)
  with k c node_start_Ok(1,2,6) [OF start'] show ?thesis
    by (auto simp: node_registration_def is_ok_iff split: list.splits if_splits)
qed

section \<open>Witnesses\<close>

definition params0 :: "unit narwhal_params" where
  "params0 = \<lparr>np_max_header_delay = 100, np_max_batch_delay = 100, np_rest = ()\<rparr>"

definition empty_file :: "unit ursa_file" where
  "empty_file = \<lparr>uf_network = None, uf_provider = None, uf_server = None, uf_application = None, uf_consensus = None\<rparr>"

definition toml0 :: "unit toml_lib" where
  "toml0 = \<lparr>tm_params = params0, tm_parse = (\<lambda>_. Ok empty_file),
     tm_print = (\<lambda>c. if c = ursa_config_default params0 then Ok [65] else Err []),
     tm_diff = (\<lambda>a b. if a = b then 0 else 1), tm_multiaddr = (\<lambda>_. None)\<rparr>"

lemma empty_file_config: "ursa_config_of lib empty_file = ursa_config_default lib"
  by (simp add: ursa_config_of_def empty_file_def ursa_config_default_def Let_def)

lemma toml0_laws: "toml_laws toml0"
  by (simp add: toml_laws_def toml0_def empty_file_config)

definition opts0 :: cli_opts where
  "opts0 = \<lparr>co_config = None, co_rpc = False, co_rpc_port = None, co_log = None\<rparr>"

lemma config_path0: "config_path resolve (Some ''/h'') (opts0\<lparr>co_rpc_port := q\<rparr>) = ''/h/.ursa/config.toml''"
  by (simp add: config_path_def opts0_def path_join_def)

lemma config_write0:
  "config_write t ''/h/.ursa/config.toml'' (calm_fs Map.empty) =
     (Ok (), calm_fs (Map.empty(''/h/.ursa/config.toml'' \<mapsto> (t, 420))))"
  by (simp add: config_write_def path_parent_def segments_def calm_fs_def fs_check_def fs_create_def fs_write_all_def fs_set_contents_def)

lemma load0:
  "load_or_default toml0 ''/h/.ursa/config.toml'' (calm_fs Map.empty) =
     (Ok (ursa_config_default params0), calm_fs (Map.empty(''/h/.ursa/config.toml'' \<mapsto> ([65], 420))))"
  using config_write0 [of "[65]"] by (simp add: load_or_default_def fs_exists_def toml0_def calm_fs_def)

lemma to_config0:
  "to_config toml0 resolve (Some ''/h'') opts0 (calm_fs Map.empty) =
     (Ok (ursa_config_default params0), calm_fs (Map.empty(''/h/.ursa/config.toml'' \<mapsto> ([65], 420))))"
  using config_path0 [of resolve None] load0 by (simp add: to_config_def opts0_def)

lemma stable0 [simp]: "stable_at p (calm_fs files)" "readable_at p (calm_fs files)"
  by (simp_all add: stable_at_def readable_at_def calm_fs_def)

theorem config_load_settles_witness:
  "load_or_default toml0 ''/h/.ursa/config.toml'' (calm_fs (Map.empty(''/h/.ursa/config.toml'' \<mapsto> ([65], 420)))) =
     (Ok (ursa_config_default params0), calm_fs (Map.empty(''/h/.ursa/config.toml'' \<mapsto> ([65], 420))))"
proof -
  have "''/h/.ursa/config.toml'' = config_path (\<lambda>p. p) (Some ''/h'') opts0"
    using config_path0 [of "\<lambda>p. p" None] by (simp add: opts0_def)
  from config_load_settles [OF toml0_laws this _ to_config0, of "[()]"] load0 show ?thesis by (auto split: prod.splits)
qed

theorem empty_sections_default_witness:
  "cc_committee_path (uc_consensus (ursa_config_of params0 (empty_file\<lparr>uf_consensus :=
     Some \<lparr>cs_rpc_domain = None, cs_committee_path = None, cs_database_path = None, cs_narwhal_params = None\<rparr>\<rparr>))) = [] \<and>
   cc_committee_path (consensus_config_default params0) = ''./committee.json''"
  using empty_sections_default [of "empty_file\<lparr>uf_consensus :=
     Some \<lparr>cs_rpc_domain = None, cs_committee_path = None, cs_database_path = None, cs_narwhal_params = None\<rparr>\<rparr>" params0]
  by (simp add: empty_file_def consensus_config_default_def)

definition node_ops0 :: "(bool, unit) node_ops" where
  "node_ops0 = \<lparr>na_version = ''0.1.0'', na_resolve = (\<lambda>p. p), na_peer_id = (\<lambda>k. if k then ''P1'' else ''P2''),
     na_open = (\<lambda>_. Ok ()), na_service = (\<lambda>_ _. Ok ()), na_multiaddr = (\<lambda>_. Some []),
     na_read_head = (\<lambda>_. Ok None), na_is_cid = (\<lambda>_. False)\<rparr>"

lemma key_path_default: "key_path ''default'' ''~/.ursa/keystore'' = ''~/.ursa/keystore/default.pem''"
  by (simp add: key_path_def path_join_def set_extension_def segments_def file_stem_def)

lemma key_save_default:
  "key_save lib k ''~/.ursa/keystore/default.pem'' (calm_fs files) =
     (Ok (), calm_fs (files(''~/.ursa/keystore/default.pem'' \<mapsto> (encode_pem lib k, owner_only))))"
  by (simp add: key_save_def path_parent_def segments_def calm_fs_def fs_check_def fs_create_def fs_write_all_def
      fs_set_contents_def fs_set_mode_def)

definition fs_started :: fsys where
  "fs_started = calm_fs (Map.empty(''/h/.ursa/config.toml'' \<mapsto> ([65], 420),
     ''~/.ursa/keystore/default.pem'' \<mapsto> (encode_pem key_lib0 True, owner_only)))"

definition run0 :: "bool \<Rightarrow> u16 \<Rightarrow> (bool, unit, unit) node_run" where
  "run0 k port = \<lparr>nr_keypair = k, nr_service = (), nr_tasks = [ServiceTask, RpcTask, ProviderTask, ApplicationTask, ConsensusTask],
     nr_server_address = [], nr_server_domain = sc_domain server_config_default, nr_server_port = port,
     nr_application = application_config_default, nr_consensus = consensus_config_default params0,
     nr_app_api = ''0.0.0.0:3004'',
     nr_registration = Some (''https://tracker.ursa.earth/register'', \<lparr>tg_id = na_peer_id node_ops0 k, tg_agent = ''ursa/0.1.0'',
       tg_addr = None, tg_p2p_port = Some 6009, tg_http_port = Some port, tg_telemetry = Some True\<rparr>)\<rparr>"

lemma node_start0:
  assumes "choose_identity key_lib0 node_ops0 gen net_config_default fs = (Ok im, fs')"
  shows "node_start key_lib0 node_ops0 gen ((ursa_config_default params0)\<lparr>uc_server := server_config_default\<lparr>sc_port := port\<rparr>\<rparr>) fs =
    (Ok (run0 (im_current im) port), fs')"
  using assms
  by (simp add: node_start_def provider_head_def ursa_config_default_def node_registration_def Let_def node_ops0_def run0_def
      net_config_default_def server_config_default_def application_config_default_def)

lemma server_default_port [simp]: "server_config_default\<lparr>sc_port := 4069\<rparr> = server_config_default"
  by (simp add: server_config_default_def)

lemma node_main0: "node_main toml0 (Some ''/h'') key_lib0 node_ops0 True opts0 (calm_fs Map.empty) = (Runs (run0 True 4069), fs_started)"
proof -
  let ?fs = "calm_fs (Map.empty(''/h/.ursa/config.toml'' \<mapsto> ([65], 420)))"
  have "load_or_new key_lib0 True ''default'' ''~/.ursa/keystore'' ?fs =
      (Ok \<lparr>im_name = ''default'', im_identity = True, im_dir = ''~/.ursa/keystore''\<rparr>, fs_started)"
    unfolding load_or_new_def im_load_def im_new_def key_path_default key_save_default
    by (simp add: key_load_def fs_read_string_def fs_read_def fs_check_def calm_fs_def fs_started_def)
  then have "choose_identity key_lib0 node_ops0 True net_config_default ?fs =
      (Ok \<lparr>im_name = ''default'', im_identity = True, im_dir = ''~/.ursa/keystore''\<rparr>, fs_started)"
    by (simp add: choose_identity_def net_config_default_def node_ops0_def)
  from node_start0 [OF this, of 4069] show ?thesis
    by (simp add: node_main_def to_config0 im_current_def ursa_config_default_def)
qed

lemma started_identity:
  "choose_identity key_lib0 node_ops0 False net_config_default fs_started =
     (Ok \<lparr>im_name = ''default'', im_identity = True, im_dir = ''~/.ursa/keystore''\<rparr>, fs_started)"
proof -
  have "key_load key_lib0 (key_path ''default'' ''~/.ursa/keystore'') fs_started = Ok True"
    unfolding key_path_default by (rule key_load_encoded [OF key_laws0]) (simp_all add: fs_started_def calm_fs_def readable_at_def)
  then show ?thesis
    using load_or_new_loads [of key_lib0 "''default''" "''~/.ursa/keystore''" fs_started True False]
    by (simp add: choose_identity_def net_config_default_def node_ops0_def)
qed

lemma node_main1:
  "node_main toml0 (Some ''/h'') key_lib0 node_ops0 False (opts0\<lparr>co_rpc_port := Some 80\<rparr>) fs_started =
     (Runs (run0 True 80), fs_started)"
proof -
  have "settled toml0 ''/h/.ursa/config.toml'' (ursa_config_default params0) fs_started"
    by (auto simp: settled_def fs_started_def calm_fs_def toml0_def empty_file_config migrate_def
        ursa_config_default_def provider_config_default_def)
  then have "load_or_default toml0 ''/h/.ursa/config.toml'' fs_started = (Ok (ursa_config_default params0), fs_started)"
    by (rule settled_load) (simp add: fs_started_def)
  from to_config_load [of toml0 "na_resolve node_ops0" "Some ''/h''" "opts0\<lparr>co_rpc_port := Some 80\<rparr>" fs_started,
      unfolded config_path0, OF this]
  have c: "to_config toml0 (na_resolve node_ops0) (Some ''/h'') (opts0\<lparr>co_rpc_port := Some 80\<rparr>) fs_started =
      (Ok ((ursa_config_default params0)\<lparr>uc_server := server_config_default\<lparr>sc_port := 80\<rparr>\<rparr>), fs_started)"
    by (simp add: ursa_config_default_def)
  from node_start0 [OF started_identity, of 80] show ?thesis by (simp add: node_main_def c im_current_def)
qed

theorem node_restart_same_identity_witness:
  "nr_keypair (run0 True 80) = nr_keypair (run0 True 4069) \<and>
   (\<exists>url reg. nr_registration (run0 True 80) = Some (url, reg) \<and> tg_id reg = ''P1'' \<and> tg_http_port reg = Some 80)"
proof -
  have "nc_identity (uc_network (ursa_config_default params0)) \<noteq> ''random''"
    and "key_path (nc_identity (uc_network (ursa_config_default params0)))
        (na_resolve node_ops0 (nc_keystore_path (uc_network (ursa_config_default params0)))) \<noteq>
      config_path (na_resolve node_ops0) (Some ''/h'') opts0"
    using config_path0 [of "na_resolve node_ops0" None] key_path_default
    by (simp_all add: ursa_config_default_def net_config_default_def node_ops0_def opts0_def)
  from node_restart_same_identity [OF toml0_laws key_laws0 _ node_main0 node_main1 this(1) to_config0 this(2)]
  show ?thesis by (simp add: run0_def node_ops0_def)
qed

end
