(* ===== verification/Rpc_Server.thy ===== *)
theory Rpc_Server
  imports Rpc_Service Text "HOL-Library.Countable"
begin

text \<open>
  The server that answers JSON-RPC and HTTP on one port and the client that calls it:
  \<open>rpc/mod.rs\<close>, \<open>server.rs\<close>, \<open>service.rs\<close> and \<open>client/\<close> of \<open>ursa-rpc-service\<close>, and
  \<open>ursa/src/ursa/rpc_commands.rs\<close>. The JSON-RPC dispatcher, the HTTP router and the text form of
  JSON are fields of \<open>rpc_libs\<close>. A handler runs on the block store and returns the commands it
  sent to the other services; \<open>None\<close> is a traversal that does not end.
\<close>

section \<open>Values\<close>

datatype jvalue = JNull | JNum nat | JStr string | JArr "jvalue list" | JObj "(string \<times> jvalue) list"

fun field_str :: "string \<Rightarrow> jvalue \<Rightarrow> string option" where
  "field_str k (JObj fs) = (case map_of fs k of Some (JStr s) \<Rightarrow> Some s | _ \<Rightarrow> None)"
| "field_str k _ = None"

text \<open>The parameters of the methods as \<open>serde\<close> writes and reads the structs, by name or by position.\<close>

definition network_get_params :: "string \<Rightarrow> jvalue" where
  "network_get_params c = JObj [(''cid'', JStr c)]"

definition network_get_file_params :: "string \<Rightarrow> string \<Rightarrow> jvalue" where
  "network_get_file_params path c = JObj [(''path'', JStr path), (''cid'', JStr c)]"

definition network_put_file_params :: "string \<Rightarrow> jvalue" where
  "network_put_file_params path = JObj [(''path'', JStr path)]"

fun de_get_params :: "jvalue \<Rightarrow> string option" where
  "de_get_params (JArr [JStr c]) = Some c"
| "de_get_params v = field_str ''cid'' v"

fun de_get_file_params :: "jvalue \<Rightarrow> (string \<times> string) option" where
  "de_get_file_params (JArr [JStr path, JStr c]) = Some (path, c)"
| "de_get_file_params v =
     (case (field_str ''path'' v, field_str ''cid'' v) of (Some p, Some c) \<Rightarrow> Some (p, c) | _ \<Rightarrow> None)"

fun de_put_file_params :: "jvalue \<Rightarrow> string option" where
  "de_put_file_params (JArr [JStr path]) = Some path"
| "de_put_file_params v = field_str ''path'' v"

text \<open>The results: the bytes of a block, the content ids, nothing.\<close>

definition ser_bytes :: "bytes \<Rightarrow> jvalue" where
  "ser_bytes bs = JArr (map (\<lambda>b. JNum (unat b)) bs)"

fun de_byte :: "jvalue \<Rightarrow> byte option" where
  "de_byte (JNum n) = (if n < 256 then Some (of_nat n) else None)"
| "de_byte _ = None"

fun de_all :: "('a \<Rightarrow> 'b option) \<Rightarrow> 'a list \<Rightarrow> 'b list option" where
  "de_all f [] = Some []"
| "de_all f (x # xs) = (case f x of None \<Rightarrow> None | Some y \<Rightarrow> map_option (Cons y) (de_all f xs))"

fun de_bytes :: "jvalue \<Rightarrow> bytes option" where
  "de_bytes (JArr vs) = de_all de_byte vs"
| "de_bytes _ = None"

fun de_string :: "jvalue \<Rightarrow> string option" where
  "de_string (JStr s) = Some s"
| "de_string _ = None"

fun de_unit :: "jvalue \<Rightarrow> unit option" where
  "de_unit JNull = Some ()"
| "de_unit _ = None"

section \<open>Server\<close>

type_synonym 'd handler = "jvalue \<Rightarrow> 'd \<Rightarrow> ((jvalue, rpc_error) result \<times> 'd \<times> rpc_command list) option"

record request_object =
  ro_method :: string
  ro_params :: jvalue
  ro_id :: "nat option"

datatype response_object = RpcResult jvalue nat | RpcError rpc_error nat

datatype response_objects = One response_object | Many "response_object list" | Empty

datatype http_method = GET | POST | PUT

record http_request =
  hr_method :: http_method
  hr_path :: string
  hr_body :: string

record 'd rpc_libs =
  rl_handle :: "(string \<times> 'd handler) list \<Rightarrow> request_object \<Rightarrow> 'd \<Rightarrow>
    ((response_objects, string) result \<times> 'd \<times> rpc_command list) option"
  rl_dispatch :: "(string \<times> http_method) list \<Rightarrow>
    (http_request \<Rightarrow> 'd \<Rightarrow> ((nat \<times> string, string) result \<times> 'd \<times> rpc_command list) option) \<Rightarrow>
    http_request \<Rightarrow> 'd \<Rightarrow> ((nat \<times> string, string) result \<times> 'd \<times> rpc_command list) option"
  rl_parse_request :: "string \<Rightarrow> (request_object, nat \<times> string) result"
  rl_print_request :: "request_object \<Rightarrow> string option"
  rl_print_response :: "response_objects \<Rightarrow> string"
  rl_print_error :: "rpc_error \<Rightarrow> string"
  rl_parse_response :: "string \<Rightarrow> (response_object, string) result"
  rl_error_code :: "rpc_error \<Rightarrow> int"
  rl_error_message :: "rpc_error \<Rightarrow> string"

text \<open>\<open>Params<T>\<close>: parameters that do not have the form of \<open>T\<close> are answered with an error.\<close>

definition with_params ::
  "(jvalue \<Rightarrow> 'p option) \<Rightarrow> ('p \<Rightarrow> 'd \<Rightarrow> (('a, rpc_error) result \<times> 'd \<times> rpc_command list) option) \<Rightarrow> ('a \<Rightarrow> jvalue) \<Rightarrow>
   'd handler" where
  "with_params de f ser v d =
     (case de v of
        None \<Rightarrow> Some (Err InvalidParams, d, [])
      | Some p \<Rightarrow> map_option (\<lambda>(r, d1, cmds). (bind_res r (\<lambda>x. Ok (ser x)), d1, cmds)) (f p d))"

text \<open>What the node answers with: the interface's environment, the files it reads and writes, the network's answers.\<close>

record 'd interface =
  if_env :: "'d rpc_env"
  if_origin :: origin_config
  if_write_file :: "string \<Rightarrow> bytes \<Rightarrow> (unit, string) result"
  if_read_file :: "string \<Rightarrow> (bytes, string) result"
  if_peers :: "(string list, string) result"
  if_addresses :: "(string list, string) result"

definition get_peers :: "'d interface \<Rightarrow> (string list, rpc_error) result" where
  "get_peers i = map_err RpcInternal (if_peers i)"

definition get_listener_addresses :: "'d interface \<Rightarrow> (string list, rpc_error) result" where
  "get_listener_addresses i = map_err RpcInternal (if_addresses i)"

definition rpc_methods :: "'d interface \<Rightarrow> (string \<times> 'd handler) list" where
  "rpc_methods i =
     [(''ursa_get_cid'', with_params de_get_params (get_cid_handler (if_env i) (if_origin i)) ser_bytes),
      (''ursa_get_file'', with_params de_get_file_params
         (\<lambda>(path, c). get_file_handler (if_env i) (if_origin i) (if_write_file i) path c) (\<lambda>_. JNull)),
      (''ursa_put_file'', with_params de_put_file_params
         (\<lambda>path d. Some (put_file_handler (if_env i) (if_read_file i) path d)) JStr),
      (''ursa_get_peers'', \<lambda>_ d. Some (bind_res (get_peers i) (\<lambda>ps. Ok (JArr (map JStr ps))), d, [])),
      (''ursa_listener_addresses'', \<lambda>_ d. Some (bind_res (get_listener_addresses i) (\<lambda>as. Ok (JArr (map JStr as))), d, []))]"

text \<open>
  \<open>rpc_handler\<close>: a batch and a notification are not implemented and panic; an error answers
  with the status 500 and the error as the body, without the JSON-RPC frame.
\<close>

fun rpc_answer :: "'d rpc_libs \<Rightarrow> response_objects \<Rightarrow> (nat \<times> string, string) result" where
  "rpc_answer libs (One (RpcResult v i)) = Ok (200, rl_print_response libs (One (RpcResult v i)))"
| "rpc_answer libs (One (RpcError e i)) = Ok (500, rl_print_error libs e)"
| "rpc_answer libs (Many rs) = Panic"
| "rpc_answer libs Empty = Panic"

definition rpc_handler ::
  "'d rpc_libs \<Rightarrow> 'd interface \<Rightarrow> http_request \<Rightarrow> 'd \<Rightarrow> ((nat \<times> string, string) result \<times> 'd \<times> rpc_command list) option" where
  "rpc_handler libs i req d =
     (case rl_parse_request libs (hr_body req) of
        Err e \<Rightarrow> Some (Ok e, d, [])
      | Panic \<Rightarrow> Some (Panic, d, [])
      | Ok r \<Rightarrow> map_option (\<lambda>(rs, d1, cmds). (bind_res rs (rpc_answer libs), d1, cmds))
          (rl_handle libs (rpc_methods i) r d))"

definition rpc_app ::
  "'d rpc_libs \<Rightarrow> 'd interface \<Rightarrow> http_request \<Rightarrow> 'd \<Rightarrow> ((nat \<times> string, string) result \<times> 'd \<times> rpc_command list) option" where
  "rpc_app libs i = rl_dispatch libs [(''/rpc/v0'', PUT), (''/rpc/v0'', POST)] (rpc_handler libs i)"

definition is_rpc_request :: "http_request \<Rightarrow> bool" where
  "is_rpc_request req = (take 4 (hr_path req) = ''/rpc'')"

datatype 'e poll = Ready "(unit, 'e) result" | Pending

fun poll_ready :: "'e poll \<Rightarrow> 'e poll \<Rightarrow> 'e poll" where
  "poll_ready (Ready (Ok ())) (Ready (Ok ())) = Ready (Ok ())"
| "poll_ready (Ready (Ok ())) (Ready (Err e)) = Ready (Err e)"
| "poll_ready (Ready (Ok ())) Pending = Pending"
| "poll_ready (Ready (Ok ())) (Ready Panic) = Ready Panic"
| "poll_ready (Ready (Err e)) _ = Ready (Err e)"
| "poll_ready (Ready Panic) _ = Ready Panic"
| "poll_ready Pending _ = Pending"

definition multiplex_call :: "(http_request \<Rightarrow> 'x) \<Rightarrow> (http_request \<Rightarrow> 'x) \<Rightarrow> http_request \<Rightarrow> 'x" where
  "multiplex_call http rpc req = (if is_rpc_request req then rpc req else http req)"

text \<open>
  \<open>Server::start\<close> binds the port of the configuration on all addresses; \<open>connect\<close> is what a
  client on the same host reaches at a port. A handler that panics closes the connection.
\<close>

definition connect ::
  "(http_request \<Rightarrow> 'd \<Rightarrow> ((nat \<times> string, string) result \<times> 'd \<times> rpc_command list) option) \<Rightarrow> 'd rpc_libs \<Rightarrow> 'd interface \<Rightarrow>
   u16 \<Rightarrow> u16 \<Rightarrow> http_request \<Rightarrow> 'd \<Rightarrow> ((nat \<times> string, string) result \<times> 'd \<times> rpc_command list) option" where
  "connect http_app libs i bound port req d =
     (if port = bound then
        map_option (\<lambda>(r, d1, cmds). (case r of Panic \<Rightarrow> Err ''connection closed'' | _ \<Rightarrow> r, d1, cmds))
          (multiplex_call http_app (rpc_app libs i) req d)
      else Some (Err ''connection refused'', d, []))"

section \<open>Client\<close>

datatype client_error = Full int string

datatype rpc_method = Put | Post

fun verb :: "rpc_method \<Rightarrow> http_method" where
  "verb Post = POST"
| "verb Put = PUT"

definition client_port :: u16 where
  "client_port = 4069"

definition parse_error :: "string \<Rightarrow> string \<Rightarrow> string" where
  "parse_error e res = ''Parse Error: '' @ e @ [CHR 0x0A] @ ''Data: '' @ res"

text \<open>\<open>send\<close> is the HTTP client at \<open>0.0.0.0\<close>; its errors are unwrapped.\<close>

definition client_call ::
  "'d rpc_libs \<Rightarrow> (u16 \<Rightarrow> http_request \<Rightarrow> 'd \<Rightarrow> ((nat \<times> string, string) result \<times> 'd \<times> rpc_command list) option) \<Rightarrow>
   (jvalue \<Rightarrow> 'r option) \<Rightarrow> string \<Rightarrow> jvalue option \<Rightarrow> rpc_method \<Rightarrow> 'd \<Rightarrow> (('r, client_error) result \<times> 'd \<times> rpc_command list) option" where
  "client_call libs send de method_name params m d =
     (case params of
        None \<Rightarrow> Some (Err (Full 200 ''There was an error while converting the params to serializable value''), d, [])
      | Some value \<Rightarrow>
      case rl_print_request libs \<lparr>ro_method = method_name, ro_params = value, ro_id = Some 1\<rparr> of
        None \<Rightarrow> Some (Err (Full 200 ''There was an error while serializing the rpc request''), d, [])
      | Some body \<Rightarrow>
          map_option (\<lambda>(r, d1, cmds).
            (bind_res (unwrap r) (\<lambda>(code, res).
               if code \<noteq> 200 then Err (Full (int code) (''Error code from HTTP Response: '' @ dec code))
               else (case rl_parse_response libs res of
                  Ok (RpcResult v i) \<Rightarrow>
                    (case de v of
                       Some x \<Rightarrow> Ok x
                     | None \<Rightarrow> Err (Full 200 (parse_error ''data did not match any variant of untagged enum JsonRpcResponse'' res)))
                | Ok (RpcError e i) \<Rightarrow> Err (Full (rl_error_code libs e) (rl_error_message libs e))
                | Err e \<Rightarrow> Err (Full 200 (parse_error e res))
                | Panic \<Rightarrow> Panic)), d1, cmds))
            (send client_port \<lparr>hr_method = verb m, hr_path = ''/rpc/v0'', hr_body = body\<rparr> d))"

definition client_get_block where
  "client_get_block libs send c = client_call libs send de_bytes ''ursa_get_cid'' (Some (network_get_params c)) Post"

definition client_get_file where
  "client_get_file libs send path c = client_call libs send de_unit ''ursa_get_file'' (Some (network_get_file_params path c)) Put"

definition client_put_file where
  "client_put_file libs send path = client_call libs send de_string ''ursa_put_file'' (Some (network_put_file_params path)) Put"

text \<open>The commands of the command line only log what came back.\<close>

datatype rpc_commands = PutCmd string | GetCmd string string

definition run_command where
  "run_command libs send cmd d =
     (case cmd of
        PutCmd path \<Rightarrow> map_option (\<lambda>(r, s). (r \<noteq> Panic, is_ok r, s)) (client_put_file libs send path d)
      | GetCmd c path \<Rightarrow> map_option (\<lambda>(r, s). (r \<noteq> Panic, is_ok r, s)) (client_get_file libs send path c d))"

section \<open>A call from the client to the handler\<close>

text \<open>
  What the libraries document: a registered method is called with the parameters and its
  outcome becomes the response, none for a request without an id; a request to a registered
  route reaches the handler; requests and responses are read back as they were written.
\<close>

fun respond :: "nat option \<Rightarrow> (jvalue, rpc_error) result \<Rightarrow> (response_objects, string) result" where
  "respond _ Panic = Panic"
| "respond None _ = Ok Empty"
| "respond (Some i) (Ok v) = Ok (One (RpcResult v i))"
| "respond (Some i) (Err e) = Ok (One (RpcError e i))"

definition rpc_laws :: "'d rpc_libs \<Rightarrow> bool" where
  "rpc_laws libs \<longleftrightarrow>
     (\<forall>ms r h d. map_of ms (ro_method r) = Some h \<longrightarrow>
        rl_handle libs ms r d = map_option (\<lambda>(x, d1, cmds). (respond (ro_id r) x, d1, cmds)) (h (ro_params r) d)) \<and>
     (\<forall>routes h req. (hr_path req, hr_method req) \<in> set routes \<longrightarrow> rl_dispatch libs routes h req = h req) \<and>
     (\<forall>r. \<exists>t. rl_print_request libs r = Some t \<and> rl_parse_request libs t = Ok r) \<and>
     (\<forall>r. rl_parse_response libs (rl_print_response libs (One r)) = Ok r)"

text \<open>What a caller on the other side of the connection sees of an outcome.\<close>

fun over_rpc :: "('a, rpc_error) result \<Rightarrow> ('a, client_error) result" where
  "over_rpc (Ok x) = Ok x"
| "over_rpc (Err e) = Err (Full 500 ''Error code from HTTP Response: 500'')"
| "over_rpc Panic = Panic"

lemma dec_500: "dec 500 = ''500''"
  by (simp add: dec_def digits.simps)

lemma rpc_handler_call:
  assumes "rpc_laws libs" and "rl_parse_request libs (hr_body req) = Ok r" and "map_of (rpc_methods i) (ro_method r) = Some h"
  shows "rpc_handler libs i req d =
    map_option (\<lambda>(x, d1, cmds). (bind_res (respond (ro_id r) x) (rpc_answer libs), d1, cmds)) (h (ro_params r) d)"
  using assms by (cases "h (ro_params r) d") (auto simp: rpc_handler_def rpc_laws_def)

lemma connect_rpc:
  assumes "rpc_laws libs" and "hr_path req = ''/rpc/v0''" and "hr_method req \<in> {PUT, POST}"
  shows "connect http_app libs i port port req d =
    map_option (\<lambda>(r, d1, cmds). (case r of Panic \<Rightarrow> Err ''connection closed'' | _ \<Rightarrow> r, d1, cmds)) (rpc_handler libs i req d)"
proof -
  have "(hr_path req, hr_method req) \<in> set [(''/rpc/v0'', PUT), (''/rpc/v0'', POST)]" using assms(2,3) by auto
  then have "rpc_app libs i req = rpc_handler libs i req" using assms(1) unfolding rpc_laws_def rpc_app_def by blast
  then show ?thesis using assms(2) by (simp add: connect_def multiplex_call_def is_rpc_request_def)
qed

lemma client_call_method:
  assumes "rpc_laws libs" and "map_of (rpc_methods i) m = Some (with_params de f ser)"
    and "de p = Some q" and "\<And>x. dec_r (ser x) = Some x"
  shows "client_call libs (connect http_app libs i client_port) dec_r m (Some p) v d =
    map_option (\<lambda>(x, d1, cmds). (over_rpc x, d1, cmds)) (f q d)"
proof -
  let ?r = "\<lparr>ro_method = m, ro_params = p, ro_id = Some 1\<rparr>"
  obtain t where t: "rl_print_request libs ?r = Some t" "rl_parse_request libs t = Ok ?r"
    using assms(1) unfolding rpc_laws_def by blast
  let ?req = "\<lparr>hr_method = verb v, hr_path = ''/rpc/v0'', hr_body = t\<rparr>"
  have rt: "rl_parse_response libs (rl_print_response libs (One ro)) = Ok ro" for ro
    using assms(1) by (simp add: rpc_laws_def)
  have "verb v \<in> {PUT, POST}" by (cases v) simp_all
  then have "connect http_app libs i client_port client_port ?req d =
      map_option (\<lambda>(r, d1, cmds). (case r of Panic \<Rightarrow> Err ''connection closed'' | _ \<Rightarrow> r, d1, cmds)) (rpc_handler libs i ?req d)"
    using connect_rpc [OF assms(1), of ?req] by simp
  also have "rpc_handler libs i ?req d =
      map_option (\<lambda>(x, d1, cmds). (bind_res (respond (Some 1) x) (rpc_answer libs), d1, cmds)) (with_params de f ser p d)"
    using rpc_handler_call [OF assms(1), of ?req ?r] t(2) assms(2) by simp
  finally have c: "connect http_app libs i client_port client_port ?req d = map_option
      (\<lambda>(r, d1, cmds). (case r of Panic \<Rightarrow> Err ''connection closed'' | _ \<Rightarrow> r, d1, cmds))
      (map_option (\<lambda>(x, d1, cmds). (bind_res (respond (Some 1) x) (rpc_answer libs), d1, cmds)) (with_params de f ser p d))" .
  show ?thesis
  proof (cases "f q d")
    case None
    with c t(1) assms(3) show ?thesis by (simp add: client_call_def with_params_def)
  next
    case (Some y)
    then obtain x d1 cmds where y: "f q d = Some (x, d1, cmds)" by (cases y) auto
    then show ?thesis
      using c t(1) assms(3,4) rt by (cases x) (simp_all add: client_call_def with_params_def dec_500)
  qed
qed

lemma de_all_bytes: "de_all de_byte (map (\<lambda>b. JNum (unat b)) bs) = Some bs"
proof (induction bs)
  case (Cons b bs)
  have "unat b < 256" using unsigned_less [of b, where 'a=nat] by simp
  with Cons show ?case by simp
qed simp

lemma de_ser_bytes: "de_bytes (ser_bytes bs) = Some bs"
  by (simp add: ser_bytes_def de_all_bytes)

lemma params_roundtrip [simp]:
  "de_get_params (network_get_params c) = Some c"
  "de_get_file_params (network_get_file_params path c) = Some (path, c)"
  "de_put_file_params (network_put_file_params path) = Some path"
  by (simp_all add: network_get_params_def network_get_file_params_def network_put_file_params_def)

text \<open>
  C32. Calling a method through the client, the connection, the router and the dispatcher is
  calling its handler: results arrive unchanged, the effects on the store and the commands to
  the other services are the same. Only errors lose their content: whatever went wrong, the
  caller sees that the response had the status 500.\<close>

theorem rpc_client_equals_handler:
  assumes "rpc_laws libs"
  shows "client_get_block libs (connect http_app libs i client_port) c d =
      map_option (\<lambda>(r, s). (over_rpc r, s)) (get_cid_handler (if_env i) (if_origin i) c d) \<and>
    client_get_file libs (connect http_app libs i client_port) path c d =
      map_option (\<lambda>(r, s). (over_rpc r, s)) (get_file_handler (if_env i) (if_origin i) (if_write_file i) path c d) \<and>
    client_put_file libs (connect http_app libs i client_port) path d =
      Some (apfst over_rpc (put_file_handler (if_env i) (if_read_file i) path d))"
proof -
  note call = client_call_method [OF assms, where http_app = http_app and i = i and d = d]
  have "client_get_block libs (connect http_app libs i client_port) c d =
      map_option (\<lambda>(r, d1, cmds). (over_rpc r, d1, cmds)) (get_cid_handler (if_env i) (if_origin i) c d)"
    unfolding client_get_block_def
    by (rule call [of "''ursa_get_cid''" de_get_params _ ser_bytes]) (simp_all add: rpc_methods_def de_ser_bytes)
  moreover have "client_get_file libs (connect http_app libs i client_port) path c d =
      map_option (\<lambda>(r, d1, cmds). (over_rpc r, d1, cmds))
        ((\<lambda>(path, c). get_file_handler (if_env i) (if_origin i) (if_write_file i) path c) (path, c) d)"
    unfolding client_get_file_def
    by (rule call [of "''ursa_get_file''" de_get_file_params _ "\<lambda>_. JNull"]) (simp_all add: rpc_methods_def)
  moreover have "client_put_file libs (connect http_app libs i client_port) path d =
      map_option (\<lambda>(r, d1, cmds). (over_rpc r, d1, cmds)) (Some (put_file_handler (if_env i) (if_read_file i) path d))"
    unfolding client_put_file_def
    by (rule call [of "''ursa_put_file''" de_put_file_params _ JStr]) (simp_all add: rpc_methods_def)
  ultimately show ?thesis by (simp add: case_prod_unfold apfst_def map_prod_def)
qed

text \<open>
  A request without an id, a notification of JSON-RPC, is carried out and then takes the
  connection down: the handler has changed the store and sent its commands when it reaches the
  part that is not implemented.\<close>

theorem notification_closes_connection:
  assumes "rpc_laws libs" and "rl_parse_request libs t = Ok \<lparr>ro_method = m, ro_params = p, ro_id = None\<rparr>"
    and "map_of (rpc_methods i) m = Some h" and "h p d = Some (x, d1, cmds)" and "v \<in> {PUT, POST}"
  shows "connect http_app libs i port port \<lparr>hr_method = v, hr_path = ''/rpc/v0'', hr_body = t\<rparr> d =
    Some (Err ''connection closed'', d1, cmds)"
proof -
  let ?req = "\<lparr>hr_method = v, hr_path = ''/rpc/v0'', hr_body = t\<rparr>"
  have "rpc_handler libs i ?req d = Some (Panic, d1, cmds)"
    using rpc_handler_call [OF assms(1), of ?req _ i h d] assms(2-4) by (cases x) simp_all
  then show ?thesis using connect_rpc [OF assms(1), of ?req http_app i port d] assms(5) by simp
qed

text \<open>A node on another port than the default cannot be reached: the client panics on the refused connection.\<close>

lemma client_only_default_port:
  assumes "rpc_laws libs" and "bound \<noteq> client_port"
  shows "client_call libs (connect http_app libs i bound) dec_r m (Some p) v d = Some (Panic, d, [])"
proof -
  obtain t where "rl_print_request libs \<lparr>ro_method = m, ro_params = p, ro_id = Some 1\<rparr> = Some t"
    using assms(1) unfolding rpc_laws_def by blast
  then show ?thesis using assms(2) by (simp add: client_call_def connect_def)
qed

section \<open>Witnesses\<close>

text \<open>Libraries that keep the laws: the text of a value is as long as its number.\<close>

instance jvalue :: countable
  by countable_datatype

instance rpc_error :: countable
  by countable_datatype

instance response_object :: countable
  by countable_datatype

definition libs0 :: "'d rpc_libs" where
  "libs0 = \<lparr>
     rl_handle = (\<lambda>ms r d. case map_of ms (ro_method r) of
         Some h \<Rightarrow> map_option (\<lambda>(x, d1, cmds). (respond (ro_id r) x, d1, cmds)) (h (ro_params r) d)
       | None \<Rightarrow> Some (Ok (One (RpcError InvalidParams 0)), d, [])),
     rl_dispatch = (\<lambda>routes h req d. if (hr_path req, hr_method req) \<in> set routes then h req d else Some (Ok (404, []), d, [])),
     rl_parse_request = (\<lambda>t. Ok (case from_nat (length t) of (m, p, i) \<Rightarrow> \<lparr>ro_method = m, ro_params = p, ro_id = i\<rparr>)),
     rl_print_request = (\<lambda>r. Some (replicate (to_nat (ro_method r, ro_params r, ro_id r)) CHR ''x'')),
     rl_print_response = (\<lambda>rs. case rs of One r \<Rightarrow> replicate (to_nat r) CHR ''x'' | _ \<Rightarrow> []),
     rl_print_error = (\<lambda>e. []),
     rl_parse_response = (\<lambda>t. Ok (from_nat (length t))),
     rl_error_code = (\<lambda>e. 0), rl_error_message = (\<lambda>e. [])\<rparr>"

lemma libs0_laws: "rpc_laws libs0"
  by (simp add: rpc_laws_def libs0_def fun_eq_iff)

definition interface0 :: "(cid \<times> bytes) list interface" where
  "interface0 = \<lparr>if_env = demo_rpc, if_origin = origin_config_default, if_write_file = (\<lambda>_ _. Ok ()),
     if_read_file = (\<lambda>p. Ok [3]), if_peers = Ok [], if_addresses = Ok []\<rparr>"

theorem rpc_client_equals_handler_witness:
  "client_put_file libs0 (connect (\<lambda>_ _. None) libs0 interface0 client_port) ''a.car'' [] =
     Some (Ok ''cid'', [([3], [])], [NetPut [3], ProviderPut [3] 1])"
  using rpc_client_equals_handler [OF libs0_laws, of "\<lambda>_ _. None" interface0 "[]" "[]" "''a.car''"]
  by (simp add: interface0_def put_file_handler_def put_file_def put_car_def provide_cid_def demo_rpc_def Let_def)

theorem notification_closes_connection_witness:
  "\<exists>t. connect (\<lambda>_ _. None) libs0 interface0 80 80 \<lparr>hr_method = PUT, hr_path = ''/rpc/v0'', hr_body = t\<rparr> [] =
     Some (Err ''connection closed'', [([3], [])], [NetPut [3], ProviderPut [3] 1])"
proof -
  let ?h = "with_params de_put_file_params (\<lambda>path d. Some (put_file_handler (if_env interface0) (if_read_file interface0) path d)) JStr"
  let ?r = "\<lparr>ro_method = ''ursa_put_file'', ro_params = network_put_file_params ''a.car'', ro_id = None\<rparr>"
  have "?h (network_put_file_params ''a.car'') [] = Some (Ok (JStr ''cid''), [([3], [])], [NetPut [3], ProviderPut [3] 1])"
    by (simp add: with_params_def interface0_def put_file_handler_def put_file_def put_car_def provide_cid_def demo_rpc_def Let_def)
  moreover have "rl_parse_request libs0 (the (rl_print_request libs0 ?r)) = Ok ?r"
    by (simp add: libs0_def)
  moreover have "map_of (rpc_methods interface0) ''ursa_put_file'' = Some ?h" by (simp add: rpc_methods_def)
  ultimately show ?thesis
    using notification_closes_connection [OF libs0_laws, of _ "''ursa_put_file''" "network_put_file_params ''a.car''" interface0
        ?h "[]" _ _ _ PUT "\<lambda>_ _. None" 80] by blast
qed

end
