(* ===== verification/Node_Process.thy ===== *)
theory Node_Process
  imports Telemetry Node Rpc_Server
begin

text \<open>
  The process of a node, \<open>main\<close> of \<open>ursa/src/main.rs\<close> with the waiting functions of \<open>ursa/src/ursa/mod.rs\<close>:
  telemetry, configuration, then either a command to a running node or a node, which runs until ctrl-c; and the genesis file that its application loads.
\<close>

section \<open>Main\<close>

datatype ('k, 's, 'n, 'st) ursa_process =
    NodeProcess "('k, 's, 'n) main_result"
  | CommandDone bool 'st
  | CommandHangs

text \<open>
  The filter that the command line asks for, as \<open>main\<close> passes it on. \<open>to_env\<close> is the variable \<open>RUST_LOG\<close> after the
  file \<open>.env\<close> was read.
\<close>

definition cli_telemetry :: "'f tele_ops \<Rightarrow> cli_opts \<Rightarrow> telemetry_config" where
  "cli_telemetry tops opts =
     with_log_level (unwrap_or (unwrap_or ''INFO'' (to_env tops)) (co_log opts)) (with_pretty_log (telemetry_new ''ursa-cli''))"

text \<open>The error code of \<open>cli_error_and_die\<close>; the process ends there, without \<open>teardown\<close>.\<close>

definition cli_error_and_die :: "string \<Rightarrow> nat \<Rightarrow> ('k, 's, 'n, 'st) ursa_process" where
  "cli_error_and_die msg code = NodeProcess (Exits code)"

definition ursa_main where
  "ursa_main tops lib home kl na gen libs send opts cmd fs d =
     (case telemetry_init tops (cli_telemetry tops opts) None of
        (Err e, g) \<Rightarrow> (NodeProcess (MainErr e), g, fs)
      | (Panic, g) \<Rightarrow> (NodeProcess MainPanic, g, fs)
      | (Ok _, g) \<Rightarrow>
          (case cmd of
             None \<Rightarrow> (case node_main lib home kl na gen opts fs of (m, fs1) \<Rightarrow> (NodeProcess m, g, fs1))
           | Some c \<Rightarrow>
               (case to_config lib (na_resolve na) home opts fs of
                  (Ok _, fs1) \<Rightarrow>
                    (case run_command libs send c d of
                       Some (no_panic, done', st) \<Rightarrow> (if no_panic then CommandDone done' st else NodeProcess MainPanic, g, fs1)
                     | None \<Rightarrow> (CommandHangs, g, fs1))
                | (Err e, fs1) \<Rightarrow> (cli_error_and_die (''Config error: '' @ e) 1, g, fs1)
                | (Panic, fs1) \<Rightarrow> (NodeProcess MainPanic, g, fs1))))"

lemma cli_telemetry_init:
  "\<exists>s. telemetry_init tops (cli_telemetry tops opts) None = (Ok (), Some s) \<and> sb_filter s = env_filter tops (cli_telemetry tops opts)"
  by (simp add: telemetry_init_def cli_telemetry_def telemetry_builders)

text \<open>
  What is logged: the variable \<open>RUST_LOG\<close> decides when it can be read; only then the option \<open>--log\<close>,
  then what can be read of the variable, then the level \<open>INFO\<close>.\<close>

theorem ursa_log_filter:
  "\<exists>s. fst (snd (ursa_main tops lib home kl na gen libs send opts cmd fs d)) = Some s \<and>
     sb_filter s = (case Option.bind (to_env tops) (to_parse tops) of
        Some f \<Rightarrow> f
      | None \<Rightarrow> to_filter tops (case (co_log opts, to_env tops) of
          (Some l, _) \<Rightarrow> l | (None, Some v) \<Rightarrow> v | (None, None) \<Rightarrow> ''INFO''))"
proof -
  obtain s where s: "telemetry_init tops (cli_telemetry tops opts) None = (Ok (), Some s)"
    "sb_filter s = env_filter tops (cli_telemetry tops opts)" using cli_telemetry_init by blast
  have "fst (snd (ursa_main tops lib home kl na gen libs send opts cmd fs d)) = Some s"
    by (simp add: ursa_main_def s(1) split: option.splits result.splits prod.splits)
  then show ?thesis
    using s(2) by (auto simp: env_filter_def cli_telemetry_def telemetry_builders split: option.splits)
qed

text \<open>
  A command to a running node needs a configuration that can be loaded, but nothing in it: the
  outcome is the same under any other configuration and command line, so neither the port of the file nor the
  one of the command line is used.\<close>

theorem rpc_command_ignores_configuration:
  assumes "to_config lib (na_resolve na) home opts fs = (Ok config, fs1)"
    and "to_config lib (na_resolve na) home opts' fs' = (Ok config', fs1')"
  shows "fst (ursa_main tops lib home kl na gen libs send opts (Some cmd) fs d) =
    fst (ursa_main tops lib home kl na gen libs send opts' (Some cmd) fs' d)"
proof -
  obtain s s' where "telemetry_init tops (cli_telemetry tops opts) None = (Ok (), Some s)"
    "telemetry_init tops (cli_telemetry tops opts') None = (Ok (), Some s')" using cli_telemetry_init by metis
  with assms show ?thesis by (simp add: ursa_main_def split: option.splits)
qed

section \<open>Waiting for ctrl-c\<close>

text \<open>
  \<open>interrupt\<close> is the time in milliseconds at which the handler stores its flag, if ever; \<open>t\<close> the time at which
  the loop reads it. The flag is read twice a second. \<open>set_handler\<close> is the outcome of installing the handler.
\<close>

partial_function (option) ctrlc_loop :: "nat option \<Rightarrow> nat \<Rightarrow> nat option" where
  "ctrlc_loop interrupt t =
     (if (case interrupt of None \<Rightarrow> True | Some a \<Rightarrow> t < a) then ctrlc_loop interrupt (t + 500) else Some t)"

definition wait_until_ctrlc :: "(unit, string) result \<Rightarrow> nat option \<Rightarrow> nat \<Rightarrow> (nat, string) result option" where
  "wait_until_ctrlc set_handler interrupt t = (if is_ok set_handler then map_option Ok (ctrlc_loop interrupt t) else Some Panic)"

lemma wait_returns_only: "ctrlc_loop interrupt t = Some t' \<Longrightarrow> \<exists>a. interrupt = Some a \<and> a \<le> t'"
  by (rule ctrlc_loop.raw_induct [where P = "\<lambda>interrupt t t'. \<exists>a. interrupt = Some a \<and> a \<le> t'"])
    (auto split: if_splits option.splits)

lemma wait_bounded: "\<exists>t'. ctrlc_loop (Some a) t = Some t' \<and> t' < max (Suc t) (a + 500)"
proof (induction "a - t" arbitrary: t rule: less_induct)
  case less
  show ?case
  proof (cases "t < a")
    case True
    then have "a - (t + 500) < a - t" by simp
    from less [OF this] obtain t' where "ctrlc_loop (Some a) (t + 500) = Some t'" "t' < max (Suc (t + 500)) (a + 500)"
      by blast
    with True show ?thesis by (subst ctrlc_loop.simps) auto
  qed (subst ctrlc_loop.simps, simp)
qed

text \<open>
  With a handler, the wait ends exactly when there is an interrupt, after it and less than half a second
  later.\<close>

theorem wait_until_ctrlc_ends:
  assumes "is_ok set_handler" and "\<forall>a. interrupt = Some a \<longrightarrow> t \<le> a"
  shows "(case wait_until_ctrlc set_handler interrupt t of
      None \<Rightarrow> interrupt = None
    | Some r \<Rightarrow> \<exists>a t'. interrupt = Some a \<and> r = Ok t' \<and> a \<le> t' \<and> t' < a + 500)"
proof (cases interrupt)
  case None
  with wait_returns_only [of None t] have "ctrlc_loop None t = None" by (cases "ctrlc_loop None t") auto
  with None assms(1) show ?thesis by (simp add: wait_until_ctrlc_def)
next
  case (Some a)
  with wait_bounded [of a t] obtain t' where "ctrlc_loop (Some a) t = Some t'" "t' < max (Suc t) (a + 500)" by blast
  with wait_returns_only [of "Some a" t t'] Some assms show ?thesis by (auto simp: wait_until_ctrlc_def)
qed

text \<open>
  \<open>_block_until_sigint\<close>: the state of the handler is the number of interrupts and whether the sender is still
  there. The first interrupt wakes the waiting task, the next one ends the process.
\<close>

datatype sigint_effect = Wake | NoEffect | ExitZero

definition sigint_handler :: "nat \<times> bool \<Rightarrow> sigint_effect \<times> nat \<times> bool" where
  "sigint_handler s =
     (case s of (prev, sender) \<Rightarrow>
        if prev = 0 then (if sender then Wake else NoEffect, Suc prev, False) else (ExitZero, Suc prev, sender))"

fun interrupts :: "nat \<times> bool \<Rightarrow> nat \<Rightarrow> sigint_effect list" where
  "interrupts s 0 = []"
| "interrupts s (Suc n) =
     (case sigint_handler s of
        (ExitZero, s1) \<Rightarrow> [ExitZero]
      | (e, s1) \<Rightarrow> e # interrupts s1 n)"

definition block_until_sigint :: "(unit, string) result \<Rightarrow> nat \<Rightarrow> (sigint_effect list, string) result" where
  "block_until_sigint set_handler n = (if is_ok set_handler then Ok (interrupts (0, True) n) else Panic)"

lemma block_until_sigint_effects:
  "is_ok set_handler \<Longrightarrow> block_until_sigint set_handler n = Ok (take n [Wake, ExitZero])"
  by (cases n; cases "n - 1") (auto simp: block_until_sigint_def sigint_handler_def)

section \<open>Stopping\<close>

text \<open>Every task that was started is aborted.\<close>

lemma node_stops_all:
  assumes "node_start kl na gen config fs = (Ok run, fs')"
  shows "set node_abort = set (nr_tasks run)" and "distinct node_abort"
  using assms
  by (auto simp: node_abort_def node_start_def bind_fs_Ok_iff bind_res_Ok_iff Let_def split: option.splits)

section \<open>The genesis file\<close>

text \<open>\<open>Genesis::load\<close> of \<open>ursa-application/src/genesis.rs\<close>; \<open>parse\<close> reads TOML, with defaults for what is missing.\<close>

definition DEFAULT_GENESIS_PATH :: path where
  "DEFAULT_GENESIS_PATH = ''~/.ursa/genesis.toml''"

definition load_genesis :: "(path \<Rightarrow> path) \<Rightarrow> (bytes \<Rightarrow> (genesis, string) result) \<Rightarrow> fsys \<Rightarrow> (genesis, string) result" where
  "load_genesis resolve parse fs =
     bind_res (fs_read_string (resolve DEFAULT_GENESIS_PATH) fs) (\<lambda>raw.
       map_err (\<lambda>_. ''Failed to parse genesis file'') (parse raw))"

text \<open>
  A node without a readable genesis file cannot begin its chain: the first call of the engine panics, and the state
  of the application is as it was.\<close>

theorem missing_genesis_panics:
  assumes "\<not> is_ok (load_genesis resolve parse fs)"
  shows "init_chain ops (gen\<lparr>genesis_load := load_genesis resolve parse fs\<rparr>) a = (Panic, a)"
  using assms by (cases "load_genesis resolve parse fs") (simp_all add: init_chain_def)

lemma load_genesis_missing: "fs_files fs (resolve DEFAULT_GENESIS_PATH) = None \<Longrightarrow> \<not> is_ok (load_genesis resolve parse fs)"
  by (simp add: load_genesis_def fs_read_string_def fs_read_def fs_check_def split: option.split)

end
