(* ===== verification/App_Client.thy ===== *)
theory App_Client
  imports Engine Text
begin

text \<open>
  The command-line client of the application, \<open>ursa-application/src/bin/client.rs\<close>, and the way of
  its requests through the HTTP endpoint and the engine of a node to the application. The ABI
  encoder, the JSON codec and the HTTP library are the fields of \<open>client_lib\<close> and the argument
  \<open>http_get\<close>; what the client prints is returned with its result.
\<close>

section \<open>Results of the EVM\<close>

datatype tx_output = CallOutput bytes | CreateOutput

datatype exec_result = ExecSuccess tx_output | ExecFailed

record client_lib =
  cl_parse_address :: "string \<Rightarrow> address option"
  cl_parse_abi :: "string list \<Rightarrow> (unit, string) result"
  cl_encode :: "string list \<Rightarrow> string \<Rightarrow> (bytes, string) result"
  cl_decode_u64 :: "string list \<Rightarrow> string \<Rightarrow> bytes \<Rightarrow> (nat, string) result"
  cl_decode_string :: "string list \<Rightarrow> string \<Rightarrow> bytes \<Rightarrow> (string, string) result"
  cl_rehex :: "bytes \<Rightarrow> (bytes, string) result"
  cl_query_json :: "query \<Rightarrow> (string, string) result"
  cl_tx_json :: "tx_request \<Rightarrow> (string, string) result"
  cl_response :: "bytes \<Rightarrow> (exec_result query_response, string) result"
  cl_debug_response :: "exec_result query_response \<Rightarrow> string"
  cl_debug_result :: "exec_result \<Rightarrow> string"
  cl_debug_string :: "string \<Rightarrow> string"

section \<open>The client\<close>

definition hello_abi :: "string list" where
  "hello_abi =
     [''function helloWorld() public pure returns (string)'',
      ''function get() public view returns (uint256)'',
      ''function add() external returns (uint256)'']"

definition token_abi :: "string list" where
  "token_abi =
     [''function totalSupply() external view returns (uint256)'',
      ''function decimals() public returns (uint8)'',
      ''function name() external view returns (string)'',
      ''function symbol() external view returns (string)'',
      ''function controller() external view returns (address)'']"

definition host :: string where
  "host = ''http://192.168.1.237:3005''"

text \<open>The gas of a request is not read by the application and is left out.\<close>

definition call_request :: "address \<Rightarrow> bytes \<Rightarrow> tx_request" where
  "call_request contract data = \<lparr>tr_from = None, tr_to = Some (Address contract), tr_data = Some data,
     tr_nonce = None, tr_value = None, tr_gas_price = None\<rparr>"

definition add_request :: "address \<Rightarrow> address \<Rightarrow> bytes \<Rightarrow> tx_request" where
  "add_request from contract data = (call_request contract data)\<lparr>tr_from := Some from\<rparr>"

type_synonym 'w http_get = "string \<Rightarrow> (string \<times> string) list \<Rightarrow> 'w \<Rightarrow> (bytes, string) result \<times> 'w"

type_synonym 'w client_run = "string list \<times> (unit, string) result \<times> 'w"

fun call_output :: "exec_result query_response \<Rightarrow> (bytes, string) result" where
  "call_output (TxResponse (ExecSuccess (CallOutput out))) = Ok out"
| "call_output _ = Panic"

definition ask ::
  "client_lib \<Rightarrow> 'w http_get \<Rightarrow> address \<Rightarrow> bytes \<Rightarrow> 'w \<Rightarrow> (exec_result query_response, string) result \<times> 'w" where
  "ask lib http_get contract encoded w =
     (case bind_res (cl_rehex lib encoded) (\<lambda>data. cl_query_json lib (EthCall (call_request contract data))) of
        Ok q \<Rightarrow>
          (case http_get (host @ ''/abci_query'') [(''data'', q), (''path'', [])] w of
             (r, w1) \<Rightarrow> (bind_res r (cl_response lib), w1))
      | Err e \<Rightarrow> (Err e, w)
      | Panic \<Rightarrow> (Panic, w))"

definition client_get :: "client_lib \<Rightarrow> 'w http_get \<Rightarrow> address \<Rightarrow> 'w \<Rightarrow> 'w client_run" where
  "client_get lib http_get contract w =
     (case cl_encode lib hello_abi ''get'' of
        Ok encoded \<Rightarrow>
          (case ask lib http_get contract encoded w of
             (r, w1) \<Rightarrow>
               (case bind_res r (\<lambda>val. bind_res (call_output val) (\<lambda>out. unwrap (cl_decode_u64 lib hello_abi ''get'' out))) of
                  Ok n \<Rightarrow> ([''Counter is currently at: '' @ dec n], Ok (), w1)
                | Err e \<Rightarrow> ([], Err e, w1)
                | Panic \<Rightarrow> ([], Panic, w1)))
      | Err e \<Rightarrow> ([], Err e, w)
      | Panic \<Rightarrow> ([], Panic, w))"

definition client_inc :: "client_lib \<Rightarrow> 'w http_get \<Rightarrow> address \<Rightarrow> 'w \<Rightarrow> 'w client_run" where
  "client_inc lib http_get contract w =
     (case bind_res (cl_encode lib hello_abi ''add'') (\<lambda>encoded. bind_res (cl_rehex lib encoded) (\<lambda>data.
           case cl_parse_address lib ''0xDAAAAAAAAAAAAAAAAAAAAAAAAAAAAAAAAAAAAAAA'' of
             None \<Rightarrow> Panic
           | Some from \<Rightarrow> cl_tx_json lib (add_request from contract data))) of
        Ok tx \<Rightarrow>
          (case http_get (host @ ''/broadcast_tx'') [(''tx'', tx)] w of
             (Ok _, w1) \<Rightarrow> ([''transaction sent to consensus''], Ok (), w1)
           | (Err e, w1) \<Rightarrow> ([], Err e, w1)
           | (Panic, w1) \<Rightarrow> ([], Panic, w1))
      | Err e \<Rightarrow> ([], Err e, w)
      | Panic \<Rightarrow> ([], Panic, w))"

fun debug_lines :: "client_lib \<Rightarrow> exec_result query_response \<Rightarrow> string list" where
  "debug_lines lib (TxResponse r) = [cl_debug_response lib (TxResponse r), cl_debug_result lib r]"
| "debug_lines lib (BalanceResponse b) = [cl_debug_response lib (BalanceResponse b)]"

definition client_other :: "client_lib \<Rightarrow> 'w http_get \<Rightarrow> address \<Rightarrow> string \<Rightarrow> 'w \<Rightarrow> 'w client_run" where
  "client_other lib http_get contract name w =
     (case cl_encode lib token_abi name of
        Ok encoded \<Rightarrow>
          (case ask lib http_get contract encoded w of
             (Ok val, w1) \<Rightarrow>
               (case bind_res (call_output val) (\<lambda>out. unwrap (cl_decode_string lib token_abi name out)) of
                  Ok s \<Rightarrow> (name # debug_lines lib val @ [''contract returned: '' @ cl_debug_string lib s, ''U256: Ok(1000000000)''], Ok (), w1)
                | _ \<Rightarrow> (name # debug_lines lib val, Panic, w1))
           | (Err e, w1) \<Rightarrow> ([name], Err e, w1)
           | (Panic, w1) \<Rightarrow> ([name], Panic, w1))
      | _ \<Rightarrow> ([name], Panic, w))"

definition client_main :: "client_lib \<Rightarrow> 'w http_get \<Rightarrow> string list \<Rightarrow> 'w \<Rightarrow> 'w client_run" where
  "client_main lib http_get args w =
     (case cl_parse_address lib ''0xAAAAAAAAAAAAAAAAAAAAAAAAAAAAAAAAAAAAAAAA'' of
        None \<Rightarrow> ([], Panic, w)
      | Some contract \<Rightarrow>
          (case bind_res (cl_parse_abi lib hello_abi) (\<lambda>_. cl_parse_abi lib token_abi) of
             Err e \<Rightarrow> ([], Err e, w)
           | Panic \<Rightarrow> ([], Panic, w)
           | Ok _ \<Rightarrow>
               (case args of
                  _ # cmd # _ \<Rightarrow>
                    if cmd = ''get'' then client_get lib http_get contract w
                    else if cmd = ''inc'' then client_inc lib http_get contract w
                    else client_other lib http_get contract cmd w
                | _ \<Rightarrow> ([], Panic, w))))"

section \<open>A node behind the HTTP library\<close>

text \<open>
  The application of the node, and the transactions that its worker has taken. \<open>tcp\<close> is the
  connection of the endpoint to the worker, \<open>sent\<close> the writing on it. A handler that panics
  closes the connection, which the client sees as an error.
\<close>

record 'd node_world =
  nd_app :: "'d app"
  nd_mempool :: "bytes list"

fun http_reply :: "(bytes, string) result \<Rightarrow> (bytes, string) result" where
  "http_reply Panic = Err ''connection closed''"
| "http_reply r = r"

definition serve_query :: "('d, 'c, 'r) evm_ops \<Rightarrow> genesis_ops \<Rightarrow> abci_query_query \<Rightarrow> 'd app \<Rightarrow> (bytes, string) result \<times> 'd app" where
  "serve_query ops gen req a =
     (case handle_abci_query (app_client ops gen) req True a of
        (r, a1) \<Rightarrow> (route_abci_query (\<lambda>_. case r of Ok resp \<Rightarrow> Some resp | _ \<Rightarrow> None) req, a1))"

definition node_get ::
  "('d, 'c, 'r) evm_ops \<Rightarrow> genesis_ops \<Rightarrow> (unit, string) result \<Rightarrow> (unit, string) result \<Rightarrow> 'd node_world http_get" where
  "node_get ops gen tcp sent url params w =
     (if url = host @ ''/abci_query'' then
        (case (map_of params ''path'', map_of params ''data'') of
           (Some path, Some data) \<Rightarrow>
             (case serve_query ops gen \<lparr>aq_path = path, aq_data = data, aq_height = None, aq_prove = None\<rparr> (nd_app w) of
                (r, a1) \<Rightarrow> (http_reply r, w\<lparr>nd_app := a1\<rparr>))
         | _ \<Rightarrow> (Ok (map of_char ''Invalid query string''), w))
      else if url = host @ ''/broadcast_tx'' then
        (case map_of params ''tx'' of
           Some tx \<Rightarrow>
             (http_reply (bind_res (route_broadcast_tx tcp (\<lambda>_ _. sent) tx) (\<lambda>text. Ok (map of_char text))),
              if is_ok tcp \<and> is_ok sent then w\<lparr>nd_mempool := nd_mempool w @ [map of_char tx]\<rparr> else w)
         | None \<Rightarrow> (Ok (map of_char ''Invalid query string''), w))
      else (Err ''not found'', w))"

section \<open>A request through all layers\<close>

text \<open>What the two sides agree on: JSON is read back as it was written.\<close>

definition client_laws :: "client_lib \<Rightarrow> ('d, 'c, exec_result) evm_ops \<Rightarrow> bool" where
  "client_laws lib ops \<longleftrightarrow>
     (\<forall>q s. cl_query_json lib q = Ok s \<longrightarrow> json_query ops (map of_char s) = Some q) \<and>
     (\<forall>t s. cl_tx_json lib t = Ok s \<longrightarrow> json_tx ops (map of_char s) = Some t) \<and>
     (\<forall>r. cl_response lib (json_response ops r) = Ok r) \<and> (\<forall>b. cl_rehex lib b = Ok b) \<and>
     cl_parse_abi lib hello_abi = Ok () \<and> cl_parse_abi lib token_abi = Ok ()"

text \<open>What a view function of the contract gives on a committed state, and the state that is left.\<close>

definition eth_call ::
  "('d, 'c, exec_result) evm_ops \<Rightarrow> address \<Rightarrow> bytes \<Rightarrow> 'd app_state \<Rightarrow> (bytes, string) result \<times> 'd app_state" where
  "eth_call ops contract data st =
     (case execute ops (call_request contract data) True st of
        (Ok (ExecSuccess (CallOutput out)), st1) \<Rightarrow> (Ok out, st1)
      | (Ok _, st1) \<Rightarrow> (Panic, st1)
      | (_, st1) \<Rightarrow> (Err ''connection closed'', st1))"

lemma urls: "host @ ''/broadcast_tx'' \<noteq> host @ ''/abci_query''"
  by simp

lemma ask_node:
  assumes "client_laws lib ops" and "cl_query_json lib (EthCall (call_request contract data)) = Ok s"
  shows "\<exists>r. ask lib (node_get ops gen tcp sent) contract data w =
      (r, w\<lparr>nd_app := (nd_app w)\<lparr>app_committed := snd (eth_call ops contract data (app_committed (nd_app w)))\<rparr>\<rparr>) \<and>
    bind_res r call_output = fst (eth_call ops contract data (app_committed (nd_app w)))"
proof -
  have q: "json_query ops (map of_char s) = Some (EthCall (call_request contract data))" "cl_rehex lib data = Ok data"
    "\<And>r. cl_response lib (json_response ops r) = Ok r"
    using assms by (auto simp: client_laws_def)
  obtain r st where run: "execute ops (call_request contract data) True (app_committed (nd_app w)) = (r, st)"
    by (cases "execute ops (call_request contract data) True (app_committed (nd_app w))")
  have to: "tr_to (call_request contract data) = Some (Address contract)" by (simp add: call_request_def)
  have "call_output (TxResponse x) = fst (case x of ExecSuccess (CallOutput out) \<Rightarrow> (Ok out, st) | _ \<Rightarrow> (Panic, st))" for x
    by (cases "TxResponse x" rule: call_output.cases) auto
  then show ?thesis
    using run
    by (cases r) (auto simp: ask_def assms(2) q to node_get_def serve_query_def handle_abci_query_def route_abci_query_def app_client_def
        query_app_def eth_call_def Let_def split: exec_result.splits tx_output.splits)
qed

text \<open>The run of the client that shows what \<open>get\<close> returns.\<close>

definition shows_counter ::
  "client_lib \<Rightarrow> ('d, 'c, exec_result) evm_ops \<Rightarrow> address \<Rightarrow> bytes \<Rightarrow> 'd node_world \<Rightarrow> 'd node_world client_run" where
  "shows_counter lib ops contract data w =
     (let (r, st) = eth_call ops contract data (app_committed (nd_app w));
          w1 = w\<lparr>nd_app := (nd_app w)\<lparr>app_committed := st\<rparr>\<rparr>
      in case bind_res r (\<lambda>out. unwrap (cl_decode_u64 lib hello_abi ''get'' out)) of
           Ok n \<Rightarrow> ([''Counter is currently at: '' @ dec n], Ok (), w1)
         | Err e \<Rightarrow> ([], Err e, w1)
         | Panic \<Rightarrow> ([], Panic, w1))"

lemma bind_res_assoc: "bind_res (bind_res r f) g = bind_res r (\<lambda>x. bind_res (f x) g)"
  by (cases r) auto

lemma client_get_node:
  assumes "client_laws lib ops" and "cl_encode lib hello_abi ''get'' = Ok data"
    and "cl_query_json lib (EthCall (call_request contract data)) = Ok s"
  shows "client_get lib (node_get ops gen tcp sent) contract w = shows_counter lib ops contract data w"
proof -
  obtain v st where ec: "eth_call ops contract data (app_committed (nd_app w)) = (v, st)"
    by (cases "eth_call ops contract data (app_committed (nd_app w))")
  obtain r where "ask lib (node_get ops gen tcp sent) contract data w = (r, w\<lparr>nd_app := (nd_app w)\<lparr>app_committed := st\<rparr>\<rparr>)"
    and "bind_res r call_output = v"
    using ask_node [OF assms(1,3), of gen tcp sent w] ec by auto
  then show ?thesis by (simp add: client_get_def assms(2) shows_counter_def ec Let_def flip: bind_res_assoc)
qed

lemma client_main_cmd:
  assumes "client_laws lib ops" and "cl_parse_address lib ''0xAAAAAAAAAAAAAAAAAAAAAAAAAAAAAAAAAAAAAAAA'' = Some contract"
  shows "client_main lib http (prog # ''get'' # rest) w = client_get lib http contract w"
    and "client_main lib http (prog # ''inc'' # rest) w = client_inc lib http contract w"
  using assms by (simp_all add: client_main_def client_laws_def)

text \<open>
  C19. The client's \<open>get\<close> through the HTTP endpoint, the engine and the application is a read-only
  call of the contract's \<open>get\<close> on the committed state: it prints the number that the call returns,
  fails with the connection when the call is refused, and panics when the call does not return a
  number; the pending state and the mempool are untouched.\<close>

theorem client_get_equals_call:
  assumes "client_laws lib ops" and "cl_parse_address lib ''0xAAAAAAAAAAAAAAAAAAAAAAAAAAAAAAAAAAAAAAAA'' = Some contract"
    and "cl_encode lib hello_abi ''get'' = Ok data" and "cl_query_json lib (EthCall (call_request contract data)) = Ok s"
  shows "client_main lib (node_get ops gen tcp sent) (prog # ''get'' # rest) w =
    (case eth_call ops contract data (app_committed (nd_app w)) of
       (r, st) \<Rightarrow>
         (case bind_res r (\<lambda>out. unwrap (cl_decode_u64 lib hello_abi ''get'' out)) of
            Ok n \<Rightarrow> ([''Counter is currently at: '' @ dec n], Ok (), w\<lparr>nd_app := (nd_app w)\<lparr>app_committed := st\<rparr>\<rparr>)
          | Err e \<Rightarrow> ([], Err e, w\<lparr>nd_app := (nd_app w)\<lparr>app_committed := st\<rparr>\<rparr>)
          | Panic \<Rightarrow> ([], Panic, w\<lparr>nd_app := (nd_app w)\<lparr>app_committed := st\<rparr>\<rparr>)))"
  unfolding client_main_cmd(1) [OF assms(1,2)] client_get_node [OF assms(1,3,4)] shows_counter_def Let_def ..

lemma client_inc_node:
  assumes "client_laws lib ops" and "cl_parse_address lib ''0xDAAAAAAAAAAAAAAAAAAAAAAAAAAAAAAAAAAAAAAA'' = Some from"
    and "cl_encode lib hello_abi ''add'' = Ok data" and "cl_tx_json lib (add_request from contract data) = Ok tx"
    and "sent \<noteq> Panic"
  shows "client_inc lib (node_get ops gen (Ok ()) sent) contract w =
    ([''transaction sent to consensus''] , Ok (), if is_ok sent then w\<lparr>nd_mempool := nd_mempool w @ [map of_char tx]\<rparr> else w)"
proof -
  have "cl_rehex lib data = Ok data" using assms(1) by (simp add: client_laws_def)
  then show ?thesis
    using assms(2-5) by (cases sent) (simp_all add: client_inc_def node_get_def route_broadcast_tx_def)
qed








text \<open>
  The client announces success even when nothing was sent: the endpoint answers a failed write
  with a page like any other.
\<close>

theorem lost_increment_is_announced:
  assumes "client_laws lib ops" and "cl_parse_address lib ''0xAAAAAAAAAAAAAAAAAAAAAAAAAAAAAAAAAAAAAAAA'' = Some contract"
    and "cl_parse_address lib ''0xDAAAAAAAAAAAAAAAAAAAAAAAAAAAAAAAAAAAAAAA'' = Some from"
    and "cl_encode lib hello_abi ''add'' = Ok add_data" and "cl_tx_json lib (add_request from contract add_data) = Ok tx"
  shows "client_main lib (node_get ops gen (Ok ()) (Err m)) [prog, ''inc''] w = ([''transaction sent to consensus''], Ok (), w)"
  unfolding client_main_cmd(2) [OF assms(1,2)] by (simp add: client_inc_node [OF assms(1,3,4,5)])

section \<open>An example\<close>

text \<open>
  A database that is a counter: a transaction with the data 1 reads it, one with the data 2
  increments it. The JSON texts are one letter long.
\<close>

definition count_call :: "tx_request" where
  "count_call = call_request [10] [1]"

definition count_add :: "tx_request" where
  "count_add = add_request [13] [10] [2]"

fun demo_response :: "exec_result query_response \<Rightarrow> bytes" where
  "demo_response (TxResponse (ExecSuccess (CallOutput b))) = 1 # b"
| "demo_response (TxResponse (ExecSuccess CreateOutput)) = [2]"
| "demo_response (TxResponse ExecFailed) = [3]"
| "demo_response (BalanceResponse n) = 4 # replicate n 0"

definition demo_unresponse :: "bytes \<Rightarrow> (exec_result query_response, string) result" where
  "demo_unresponse bs =
     (case bs of
        t # b \<Rightarrow> if t = 1 then Ok (TxResponse (ExecSuccess (CallOutput b))) else if t = 2 then Ok (TxResponse (ExecSuccess CreateOutput))
                 else if t = 3 then Ok (TxResponse ExecFailed) else Ok (BalanceResponse (length b))
      | [] \<Rightarrow> Err ''EOF'')"

definition counter_ops :: "(nat, nat, exec_result) evm_ops" where
  "counter_ops = \<lparr>evm_transact = (\<lambda>env tx d. (Some (ExecSuccess (CallOutput (replicate d 0)), if te_data tx = [2] then Suc d else d), d)),
     evm_commit = (\<lambda>c d. c), evm_basic = (\<lambda>_ d. (Ok None, d)), evm_insert_account = (\<lambda>_ _ d. d),
     json_tx = (\<lambda>b. if b = map of_char ''t'' then Some count_add else None),
     json_query = (\<lambda>b. if b = map of_char ''q'' then Some (EthCall count_call) else None),
     json_result = (\<lambda>_. []), json_response = demo_response\<rparr>"

definition count_lib :: client_lib where
  "count_lib = \<lparr>cl_parse_address = (\<lambda>s. if s = ''0xDAAAAAAAAAAAAAAAAAAAAAAAAAAAAAAAAAAAAAAA'' then Some [13] else Some [10]),
     cl_parse_abi = (\<lambda>_. Ok ()), cl_encode = (\<lambda>_ name. if name = ''get'' then Ok [1] else Ok [2]),
     cl_decode_u64 = (\<lambda>_ _ b. Ok (length b)), cl_decode_string = (\<lambda>_ _ _. Err ''type''), cl_rehex = Ok,
     cl_query_json = (\<lambda>q. if q = EthCall count_call then Ok ''q'' else Err ''json''),
     cl_tx_json = (\<lambda>t. if t = count_add then Ok ''t'' else Err ''json''),
     cl_response = demo_unresponse, cl_debug_response = (\<lambda>_. []), cl_debug_result = (\<lambda>_. []), cl_debug_string = id\<rparr>"

definition count_world :: "nat node_world" where
  "count_world = \<lparr>nd_app = consensus_new \<lparr>as_block_height = 0, as_app_hash = [], as_db = 6,
     as_env = \<lparr>ev_chain_id = 1, ev_disable_block_gas_limit = True\<rparr>\<rparr>, nd_mempool = []\<rparr>"


lemma count_laws: "client_laws count_lib counter_ops"
proof -
  have "demo_unresponse (demo_response r) = Ok r" for r
    by (cases r rule: demo_response.cases) (simp_all add: demo_unresponse_def)
  then show ?thesis by (auto simp: client_laws_def count_lib_def counter_ops_def split: if_splits)
qed

lemma count_lib_facts:
  "cl_parse_address count_lib ''0xAAAAAAAAAAAAAAAAAAAAAAAAAAAAAAAAAAAAAAAA'' = Some [10]"
  "cl_parse_address count_lib ''0xDAAAAAAAAAAAAAAAAAAAAAAAAAAAAAAAAAAAAAAA'' = Some [13]"
  "cl_encode count_lib hello_abi ''get'' = Ok [1]" "cl_encode count_lib hello_abi ''add'' = Ok [2]"
  "cl_query_json count_lib (EthCall (call_request [10] [1])) = Ok ''q''" "cl_tx_json count_lib (add_request [13] [10] [2]) = Ok ''t''"
  by (simp_all add: count_lib_def count_call_def count_add_def)

lemmas count_eval = counter_ops_def count_world_def consensus_new_def execute_def call_request_def add_request_def build_tx_env_def
  u64_max_def eth_call_def

theorem client_get_equals_call_witness:
  "\<exists>w. client_main count_lib (node_get counter_ops demo_genesis (Ok ()) (Ok ())) [''client'', ''get''] count_world =
     ([''Counter is currently at: '' @ dec 6], Ok (), w)"
proof -
  have "eth_call counter_ops [10] [1] (app_committed (nd_app count_world)) =
      (Ok (replicate 6 0), app_committed (nd_app count_world))"
    by (simp add: count_eval)
  with client_get_equals_call [OF count_laws count_lib_facts(1,3,5), of demo_genesis "Ok ()" "Ok ()" "''client''" "[]" count_world]
  show ?thesis by (simp add: count_lib_def)
qed




end
