(* ===== verification/Node_Interface.thy ===== *)
theory Node_Interface
  imports Rpc_Server Network_Props Files
begin

text \<open>
  Where the RPC service meets the network service: \<open>NodeNetworkInterface\<close> of \<open>ursa-rpc-service/src/api.rs\<close>
  sends commands with a one-shot channel for the answer, the loop of \<open>ursa-network/src/service.rs\<close> carries them
  out. What the interface relies on is the locale \<open>command_channel\<close>, and the service is its interpretation.
\<close>

section \<open>Commands of the interface\<close>

text \<open>
  \<open>deliver ch cmd s\<close> sends a command whose answer is expected on the channel \<open>ch\<close>: an error when the service is
  gone, otherwise what arrives, \<open>None\<close> when the sender was dropped.
\<close>

type_synonym ('f, 's) delivery = "nat \<Rightarrow> 'f network_command \<Rightarrow> 's \<Rightarrow> (reply option, string) result \<times> 's"

definition api_get_peers :: "('f, 's) delivery \<Rightarrow> nat \<Rightarrow> 's \<Rightarrow> (peer_id list, string) result \<times> 's" where
  "api_get_peers deliver ch s =
     (case deliver ch (GetPeers ch) s of
        (Ok (Some (RPeers ps)), s1) \<Rightarrow> (Ok ps, s1)
      | (Ok _, s1) \<Rightarrow> (Err ''GetPeers NetworkCommand failed'', s1)
      | (Err e, s1) \<Rightarrow> (Err e, s1)
      | (Panic, s1) \<Rightarrow> (Panic, s1))"

definition api_get_listener_addresses :: "('f, 's) delivery \<Rightarrow> nat \<Rightarrow> 's \<Rightarrow> (net_addr list, string) result \<times> 's" where
  "api_get_listener_addresses deliver ch s =
     (case deliver ch (GetListenerAddresses ch) s of
        (Ok (Some (RAddrs as)), s1) \<Rightarrow> (Ok as, s1)
      | (Ok _, s1) \<Rightarrow> (Err ''GetListenerAddresses NetworkCommand failed'', s1)
      | (Err e, s1) \<Rightarrow> (Err e, s1)
      | (Panic, s1) \<Rightarrow> (Panic, s1))"

text \<open>The answer to \<open>Put\<close> as \<open>provide_cid\<close> sees it.\<close>

fun put_reply :: "(reply option, string) result \<Rightarrow> chan_reply" where
  "put_reply (Ok (Some (RUnit r))) = Reply r"
| "put_reply (Ok _) = RecvFailed"
| "put_reply _ = SendFailed"

definition node_env :: "('f, 's) delivery \<Rightarrow> nat \<Rightarrow> 's \<Rightarrow> 'd rpc_env \<Rightarrow> 'd rpc_env" where
  "node_env deliver ch s env = env\<lparr>re_net_put := (\<lambda>c. put_reply (fst (deliver ch (network_command.Put c ch) s)))\<rparr>"

text \<open>\<open>NodeNetworkInterface::new\<close> on a running service, with the texts of peers and addresses.\<close>

definition node_interface ::
  "('f, 's) delivery \<Rightarrow> nat \<Rightarrow> (net_addr \<Rightarrow> string) \<Rightarrow> 's \<Rightarrow> 'd interface \<Rightarrow> 'd interface" where
  "node_interface deliver ch addr_str s i =
     i\<lparr>if_env := node_env deliver ch s (if_env i), if_peers := fst (api_get_peers deliver ch s),
       if_addresses := bind_res (fst (api_get_listener_addresses deliver ch s)) (\<lambda>as. Ok (map addr_str as))\<rparr>"

text \<open>What the commands of a request do to the service; those to the provider and to the origin are not for it.\<close>

fun carry_out :: "('f, 's) delivery \<Rightarrow> nat \<Rightarrow> rpc_command list \<Rightarrow> 's \<Rightarrow> 's" where
  "carry_out deliver ch [] s = s"
| "carry_out deliver ch (NetPut c # cmds) s = carry_out deliver ch cmds (snd (deliver ch (network_command.Put c ch) s))"
| "carry_out deliver ch (NetGet c # cmds) s = carry_out deliver ch cmds (snd (deliver ch (GetBitswap c ch) s))"
| "carry_out deliver ch (ProviderPut c n # cmds) s = carry_out deliver ch cmds s"
| "carry_out deliver ch (OriginGet url # cmds) s = carry_out deliver ch cmds s"

section \<open>Files\<close>

record car =
  car_size :: nat
  car_reader :: "(bytes, string) result"

definition car_new :: "nat \<Rightarrow> (bytes, string) result \<Rightarrow> car" where
  "car_new size' reader = \<lparr>car_size = size', car_reader = reader\<rparr>"

text \<open>The file is opened and its length is read from the metadata; its bytes are read later, through the reader.\<close>

definition car_from_file :: "(path \<Rightarrow> (unit, string) result) \<Rightarrow> path \<Rightarrow> fsys \<Rightarrow> (car, string) result" where
  "car_from_file metadata path fs =
     bind_res (fs_check OpOpen path fs) (\<lambda>_.
       case fs_files fs path of
         None \<Rightarrow> Err ''No such file or directory''
       | Some (bs, _) \<Rightarrow> bind_res (metadata path) (\<lambda>_. Ok (car_new (length bs) (fs_read path fs))))"

text \<open>\<open>put_file\<close> with the file system: it is \<open>put_car\<close> of what the file holds.\<close>

lemma put_file_from_file:
  assumes "metadata path = Ok u" and "fs_read path fs = Ok bs" and "car_from_file metadata path fs = Ok c"
  shows "put_file env (\<lambda>p. fs_read p fs) path d = put_car env bs (car_size c) d \<and> car_reader c = Ok bs"
  using assms by (auto simp: put_file_def car_from_file_def car_new_def fs_read_def bind_res_Ok_iff split: option.splits)

section \<open>The contract of the command channel\<close>

locale command_channel =
  fixes deliver :: "('f, 's) delivery"
    and ready :: "nat \<Rightarrow> 's \<Rightarrow> bool"
    and peers :: "'s \<Rightarrow> peer_id list"
    and listeners :: "'s \<Rightarrow> net_addr list"
    and announced :: "cid \<Rightarrow> 's \<Rightarrow> bool"
  assumes peers_answer: "ready ch s \<Longrightarrow> fst (deliver ch (GetPeers ch) s) = Ok (Some (RPeers (peers s)))"
    and listeners_answer: "ready ch s \<Longrightarrow> fst (deliver ch (GetListenerAddresses ch) s) = Ok (Some (RAddrs (listeners s)))"
    and put_answer: "ready ch s \<Longrightarrow> fst (deliver ch (network_command.Put c ch) s) = Ok (Some (RUnit (Ok ())))"
    and put_announces: "ready ch s \<Longrightarrow> announced c (snd (deliver ch (network_command.Put c ch) s))"
    and put_keeps: "ready ch s \<Longrightarrow> announced x s \<Longrightarrow> announced x (snd (deliver ch (network_command.Put c ch) s))"
    and put_ready: "ready ch s \<Longrightarrow> ready ch (snd (deliver ch (network_command.Put c ch) s))"
    and get_keeps: "ready ch s \<Longrightarrow> announced x s \<Longrightarrow> announced x (snd (deliver ch (GetBitswap c ch) s))"
    and get_ready: "ready ch s \<Longrightarrow> ready ch (snd (deliver ch (GetBitswap c ch) s))"
begin

lemma get_peers_answer: "ready ch s \<Longrightarrow> fst (api_get_peers deliver ch s) = Ok (peers s)"
  using peers_answer [of ch s] by (auto simp: api_get_peers_def split: prod.splits)

lemma get_listeners_answer: "ready ch s \<Longrightarrow> fst (api_get_listener_addresses deliver ch s) = Ok (listeners s)"
  using listeners_answer [of ch s] by (auto simp: api_get_listener_addresses_def split: prod.splits)

lemma net_put_reply: "ready ch s \<Longrightarrow> re_net_put (node_env deliver ch s env) c = Reply (Ok ())"
  by (simp add: node_env_def put_answer)

lemma carry_out_keeps: "ready ch s \<Longrightarrow> announced x s \<Longrightarrow> announced x (carry_out deliver ch cmds s)"
proof (induction cmds arbitrary: s)
  case (Cons cmd cmds)
  then show ?case by (cases cmd) (auto intro: put_keeps put_ready get_keeps get_ready)
qed simp

lemma provide_announces:
  assumes "ready ch s" and "provide_cid (node_env deliver ch s env) c n = (r, cmds)"
  shows "cmds = NetPut c # (if re_provider_put env c n = SendFailed then [] else [ProviderPut c n]) \<and>
    announced c (carry_out deliver ch cmds s)"
proof -
  have "cmds = NetPut c # snd (tell (ProviderPut c n) (re_provider_put (node_env deliver ch s env) c n))"
    using assms(2) unfolding provide_cid_def net_put_reply [OF assms(1)] by (auto split: prod.splits)
  then have "cmds = NetPut c # (if re_provider_put env c n = SendFailed then [] else [ProviderPut c n])"
    by (simp add: tell_commands node_env_def)
  with put_announces [OF assms(1)] show ?thesis by simp
qed

lemma put_announces_root:
  assumes "ready ch s" and "put_car (node_env deliver ch s env) bs n d = (Ok cids, d1, cmds)"
  shows "\<exists>root rest. cids = root # rest \<and>
    cmds = NetPut root # (if re_provider_put env root n = SendFailed then [] else [ProviderPut root n]) \<and> announced root (carry_out deliver ch cmds s)"
proof -
  obtain root rest r where put: "cids = root # rest" "provide_cid (node_env deliver ch s env) root n = (r, cmds)"
    using assms(2) by (auto simp: put_car_def Let_def bind_res_Ok_iff split: result.splits list.splits prod.splits)
  from provide_announces [OF assms(1) put(2)] put(1) show ?thesis by blast
qed

lemma peers_over_rpc:
  assumes "ready ch s" and "(''ursa_get_peers'', h) \<in> set (rpc_methods (node_interface deliver ch addr_str s i))"
  shows "h params d = Some (Ok (JArr (map JStr (peers s))), d, [])"
  using assms(2) get_peers_answer [OF assms(1)] by (simp add: rpc_methods_def node_interface_def get_peers_def)

end

section \<open>The network service\<close>

definition service_deliver ::
  "('w, 'f) swarm_ops \<Rightarrow> 'f filter_ops \<Rightarrow> (nat \<Rightarrow> bool) \<Rightarrow> bool \<Rightarrow> ('f, ('w, 'f) ursa_service) delivery" where
  "service_deliver ops fo alive running ch cmd s =
     (if running
      then (case service_step ops fo alive (InCommand cmd) s of
              (_, s1) \<Rightarrow> (Ok (map_of (drop (length (us_replies s)) (us_replies s1)) ch), s1))
      else (Err ''channel closed'', s))"

definition service_listeners :: "('w, 'f) swarm_ops \<Rightarrow> ('w, 'f) ursa_service \<Rightarrow> net_addr list" where
  "service_listeners ops s =
     sw_listeners ops (us_swarm s) @ (case public_address ops (us_swarm s) of Some a \<Rightarrow> [a] | None \<Rightarrow> [])"

lemma service_deliver_sends:
  assumes "alive ch" and "handle_command ops fo alive cmd s = send_or_fail alive ch v msg s'" and "us_replies s' = us_replies s"
  shows "service_deliver ops fo alive True ch cmd s = (Ok (Some v), s'\<lparr>us_replies := us_replies s @ [(ch, v)]\<rparr>)"
  using assms by (simp add: service_deliver_def send_or_fail_def send_oneshot_def)

lemma put_delivered:
  assumes "alive ch"
  shows "\<exists>w. service_deliver ops fo alive True ch (network_command.Put c ch) s =
    (Ok (Some (RUnit (Ok ()))), s\<lparr>us_swarm := w, us_cached_content := summary_insert fo c (us_cached_content s),
       us_replies := us_replies s @ [(ch, RUnit (Ok ()))]\<rparr>)"
  using assms by (simp add: service_deliver_def handle_command_def handle_put_def Let_def send_or_fail_def send_oneshot_def)
    blast

lemma get_delivered:
  "us_cached_content (snd (service_deliver ops fo alive True ch (GetBitswap c ch) s)) = us_cached_content s"
  by (auto simp: service_deliver_def handle_command_def handle_get_bitswap_def Let_def send_or_fail_def send_oneshot_def emit_event_def
      split: prod.splits result.splits option.splits)

interpretation service_channel: command_channel "service_deliver ops fo alive True" "\<lambda>ch s. alive ch \<and> lawful_filter fo" us_peers
  "service_listeners ops" "\<lambda>c s. summary_contains fo c (us_cached_content s)" for ops fo alive
proof unfold_locales
  fix ch s c x
  assume r: "alive ch \<and> lawful_filter fo"
  then show "fst (service_deliver ops fo alive True ch (GetPeers ch) s) = Ok (Some (RPeers (us_peers s)))"
    by (simp add: service_deliver_sends handle_command_def)
  from r show "fst (service_deliver ops fo alive True ch (GetListenerAddresses ch) s) = Ok (Some (RAddrs (service_listeners ops s)))"
    by (simp add: service_deliver_sends handle_command_def service_listeners_def)
  from r obtain w where put: "service_deliver ops fo alive True ch (network_command.Put c ch) s =
    (Ok (Some (RUnit (Ok ()))), s\<lparr>us_swarm := w, us_cached_content := summary_insert fo c (us_cached_content s),
       us_replies := us_replies s @ [(ch, RUnit (Ok ()))]\<rparr>)" using put_delivered [of alive ch ops fo c s] by blast
  then show "fst (service_deliver ops fo alive True ch (network_command.Put c ch) s) = Ok (Some (RUnit (Ok ())))" by simp
  from put r show "summary_contains fo c (us_cached_content (snd (service_deliver ops fo alive True ch (network_command.Put c ch) s)))"
    by (simp add: summary_contains_def summary_insert_def lawful_filter_def)
  assume "summary_contains fo x (us_cached_content s)"
  with put r show "summary_contains fo x (us_cached_content (snd (service_deliver ops fo alive True ch (network_command.Put c ch) s)))"
    by (simp add: summary_contains_def summary_insert_def lawful_filter_def)
  assume "summary_contains fo x (us_cached_content s)"
  then show "summary_contains fo x (us_cached_content (snd (service_deliver ops fo alive True ch (GetBitswap c ch) s)))"
    by (simp add: get_delivered)
qed

text \<open>
  The peers that the RPC method lists are those of the network service; a service that is gone is
  reported as an error.\<close>

theorem rpc_lists_service_peers:
  assumes "(''ursa_get_peers'', h) \<in> set (rpc_methods (node_interface (service_deliver ops fo alive running) ch addr_str s i))"
    and "alive ch" and "lawful_filter fo"
  shows "h params d = Some (if running then Ok (JArr (map JStr (us_peers s))) else Err (RpcInternal ''channel closed''), d, [])"
proof (cases running)
  case True
  then show ?thesis using service_channel.peers_over_rpc [of alive ch fo h ops addr_str s i params d] assms by simp
next
  case False
  with assms(1) show ?thesis
    by (simp add: rpc_methods_def node_interface_def get_peers_def api_get_peers_def service_deliver_def)
qed

text \<open>
  A network service that is gone does not keep content from being stored and put: the answer and the store are the same as with
  one that works, and so are the commands but for those to the network.\<close>

theorem put_succeeds_without_network:
  assumes "alive ch" and "lawful_filter fo"
    and "put_car (node_env (service_deliver ops fo alive True) ch s env) bs n d = (r, d1, cmds)"
  shows "put_car (node_env (service_deliver ops fo alive False) ch s env) bs n d =
    (r, d1, filter (\<lambda>cmd. \<forall>c. cmd \<noteq> NetPut c) cmds)"
proof -
  have "provide_cid (node_env (service_deliver ops fo alive False) ch s env) c n =
      (case provide_cid (node_env (service_deliver ops fo alive True) ch s env) c n of
         (r, cmds) \<Rightarrow> (r, filter (\<lambda>cmd. \<forall>c. cmd \<noteq> NetPut c) cmds))" for c
    using service_channel.net_put_reply [of alive ch fo ops s env c] assms(1,2)
    by (cases "re_provider_put env c n") (simp_all add: provide_cid_def, simp_all add: node_env_def service_deliver_def)
  moreover have "re_load_car (node_env (service_deliver ops fo alive b) ch s env) = re_load_car env" for b by (simp add: node_env_def)
  ultimately show ?thesis
    using assms(3) by (auto simp: put_car_def Let_def split: prod.splits result.splits list.splits)
qed

end
