(* ===== verification/Index_Provider.thy ===== *)
theory Index_Provider
  imports Store Resolver
begin

text \<open>
  The index provider, \<open>ursa-index-provider/src/{advertisement,provider,engine,signed_head}.rs\<close>:
  it keeps a chain of signed advertisements in its own store, one per published content
  id, each with the multihashes of the blocks under it, and announces the head of the
  chain. Codecs, hashes and keys are fields of \<open>ad_ops\<close> and \<open>head_ops\<close>; the two raw calls of
  the database are \<open>kv_ops\<close>.
\<close>

section \<open>Advertisements\<close>

datatype ipld = IpldBytes bytes | IpldLink cid | IpldOther

record advertisement =
  PreviousID :: "ipld option"
  Provider :: string
  Addresses :: "string list"
  Signature :: ipld
  Entries :: "ipld option"
  ContextID :: ipld
  Metadata :: ipld
  IsRm :: bool

record entry_chunk =
  ec_Entries :: "ipld list"
  ec_Next :: "ipld option"

datatype ad_sig_error =
    InvalidPreviousID
  | InvalidEntryChunkLink
  | InvalidMetadata
  | MissingSig
  | SigningError string
  | DecodingError string
  | ReadPayloadError string
  | PayloadDidNotMatch

record ad_ops =
  metadata_to_vec :: "nat \<Rightarrow> nat \<Rightarrow> bytes \<Rightarrow> bytes"
  sha2_256 :: "bytes \<Rightarrow> bytes"
  signed_envelope :: "string \<Rightarrow> string \<Rightarrow> bytes \<Rightarrow> (bytes, string) result"
  ad_to_vec :: "advertisement \<Rightarrow> (bytes, string) result"
  chunk_to_vec :: "entry_chunk \<Rightarrow> (bytes, string) result"
  entries_to_vec :: "ipld list \<Rightarrow> (bytes, string) result"
  entries_from_slice :: "bytes \<Rightarrow> (ipld list, string) result"
  blake2b_cid :: "bytes \<Rightarrow> cid"
  cid_hash :: "cid \<Rightarrow> bytes"
  cid_try_from :: "bytes \<Rightarrow> cid option"
  multiaddr_str :: "multiaddr \<Rightarrow> string"

record 'd kv_ops =
  kv_read :: "'d \<Rightarrow> string \<Rightarrow> (bytes option, string) result"
  kv_write :: "'d \<Rightarrow> string \<Rightarrow> bytes \<Rightarrow> (unit, string) result \<times> 'd"

definition MAX_ENTRIES :: nat where
  "MAX_ENTRIES = 6250000"

definition advertisement_new ::
  "ad_ops \<Rightarrow> bytes \<Rightarrow> string \<Rightarrow> string list \<Rightarrow> bool \<Rightarrow> nat \<Rightarrow> advertisement" where
  "advertisement_new ao context_id provider addresses is_rm content_size =
     \<lparr>PreviousID = None, Provider = provider, Addresses = addresses, Signature = IpldBytes [],
      Entries = None, ContextID = IpldBytes context_id,
      Metadata = IpldBytes (metadata_to_vec ao 0x0900 content_size (str_bytes ''FleekNetwork'')), IsRm = is_rm\<rparr>"

definition entry_chunk_new :: "ipld list \<Rightarrow> ipld option \<Rightarrow> entry_chunk" where
  "entry_chunk_new entries next' = \<lparr>ec_Entries = entries, ec_Next = next'\<rparr>"

fun link_bytes :: "'e \<Rightarrow> ipld option \<Rightarrow> (bytes, 'e) result" where
  "link_bytes e (Some (IpldLink c)) = Ok c"
| "link_bytes e None = Ok []"
| "link_bytes e _ = Err e"

fun ipld_bytes :: "'e \<Rightarrow> ipld \<Rightarrow> (bytes, 'e) result" where
  "ipld_bytes e (IpldBytes b) = Ok b"
| "ipld_bytes e _ = Err e"

definition sig_payload :: "ad_ops \<Rightarrow> advertisement \<Rightarrow> (bytes, ad_sig_error) result" where
  "sig_payload ao ad =
     bind_res (link_bytes InvalidPreviousID (PreviousID ad)) (\<lambda>previous_id_bytes.
     bind_res (link_bytes InvalidEntryChunkLink (Entries ad)) (\<lambda>entrychunk_link_bytes.
     bind_res (ipld_bytes InvalidMetadata (Metadata ad)) (\<lambda>metadata.
       Ok (sha2_256 ao (previous_id_bytes @ entrychunk_link_bytes @ str_bytes (Provider ad) @
             concat (map str_bytes (Addresses ad)) @ metadata @ [if IsRm ad then 1 else 0])))))"

definition sign :: "ad_ops \<Rightarrow> advertisement \<Rightarrow> (bytes, ad_sig_error) result" where
  "sign ao ad =
     bind_res (sig_payload ao ad) (\<lambda>payload.
       map_err SigningError (signed_envelope ao ''indexer'' ''/indexer/ingest/adSignature'' payload))"

section \<open>Provider\<close>

record 'd provider =
  pv_head :: "cid option"
  pv_store :: 'd
  pv_temp_ads :: "(nat, advertisement) hmap"

definition HEAD_KEY :: string where
  "HEAD_KEY = ''head''"

definition provider_new :: "ad_ops \<Rightarrow> 'd kv_ops \<Rightarrow> 'd \<Rightarrow> ('d provider, string) result" where
  "provider_new ao kv d =
     (case kv_read kv d HEAD_KEY of
        Ok None \<Rightarrow> Ok \<lparr>pv_head = None, pv_store = d, pv_temp_ads = []\<rparr>
      | Ok (Some h) \<Rightarrow>
          (case cid_try_from ao h of
             Some c \<Rightarrow> Ok \<lparr>pv_head = Some c, pv_store = d, pv_temp_ads = []\<rparr>
           | None \<Rightarrow> Panic)
      | _ \<Rightarrow> Panic)"

text \<open>\<open>create\<close>: the id is drawn at random.\<close>

definition create_ad :: "nat \<Rightarrow> advertisement \<Rightarrow> 'd provider \<Rightarrow> 'd provider" where
  "create_ad id' ad p = p\<lparr>pv_temp_ads := hm_insert id' (ad\<lparr>Entries := None\<rparr>) (pv_temp_ads p)\<rparr>"

definition add_chunk ::
  "('d, string) db_ops \<Rightarrow> ad_ops \<Rightarrow> bytes \<Rightarrow> nat \<Rightarrow> 'd provider \<Rightarrow> (unit, string) result \<times> 'd provider" where
  "add_chunk db ao bs id' p =
     (case entries_from_slice ao bs of
        Ok entries \<Rightarrow>
          (case hm_get (pv_temp_ads p) id' of
             Some ad \<Rightarrow>
               (case put_obj db (blake2b_cid ao) (chunk_to_vec ao) (pv_store p) (entry_chunk_new entries (Entries ad)) of
                  (Ok c, d) \<Rightarrow>
                    (Ok (), p\<lparr>pv_store := d, pv_temp_ads := hm_insert id' (ad\<lparr>Entries := Some (IpldLink c)\<rparr>) (pv_temp_ads p)\<rparr>)
                | (Err e, d) \<Rightarrow> (Err e, p\<lparr>pv_store := d\<rparr>)
                | (Panic, d) \<Rightarrow> (Panic, p\<lparr>pv_store := d\<rparr>))
           | None \<Rightarrow> (Err ''ad not found'', p))
      | _ \<Rightarrow> (Panic, p))"

fun sig_error_str :: "ad_sig_error \<Rightarrow> string" where
  "sig_error_str InvalidPreviousID = ''Invalid Previous ID''"
| "sig_error_str InvalidEntryChunkLink = ''Invalid Entry Chunk Link''"
| "sig_error_str InvalidMetadata = ''Invalid Metadata''"
| "sig_error_str MissingSig = ''Missing Signature''"
| "sig_error_str (SigningError e) = ''Failed to sign advertisement: '' @ e"
| "sig_error_str (DecodingError e) = ''Failed to decode sig: '' @ e"
| "sig_error_str (ReadPayloadError e) = ''Failed to read signed payload: '' @ e"
| "sig_error_str PayloadDidNotMatch = ''Payload did not match expected''"

text \<open>
  \<open>publish\<close>. The head is taken out of its cell at the start; it is put back only by the
  last step.
\<close>

definition publish ::
  "('d, string) db_ops \<Rightarrow> 'd kv_ops \<Rightarrow> ad_ops \<Rightarrow> nat \<Rightarrow> 'd provider \<Rightarrow> (advertisement, string) result \<times> 'd provider" where
  "publish db kv ao id' p =
     (let current_head = pv_head p; p0 = p\<lparr>pv_head := None\<rparr>
      in case hm_get (pv_temp_ads p0) id' of
           None \<Rightarrow> (Err ''ad not found'', p0)
         | Some ad0 \<Rightarrow>
             (let p1 = p0\<lparr>pv_temp_ads := hm_remove id' (pv_temp_ads p0)\<rparr>;
                  ad1 = ad0\<lparr>PreviousID := map_option IpldLink current_head\<rparr>
              in case sign ao ad1 of
                   Err e \<Rightarrow> (Err (sig_error_str e), p1)
                 | Panic \<Rightarrow> (Panic, p1)
                 | Ok sig \<Rightarrow>
                     (let ad2 = ad1\<lparr>Signature := IpldBytes sig\<rparr>
                      in case put_obj db (blake2b_cid ao) (ad_to_vec ao) (pv_store p1) ad2 of
                           (Err e, d) \<Rightarrow> (Err e, p1\<lparr>pv_store := d\<rparr>)
                         | (Panic, d) \<Rightarrow> (Panic, p1\<lparr>pv_store := d\<rparr>)
                         | (Ok c, d) \<Rightarrow>
                             (case kv_write kv d HEAD_KEY c of
                                (Err e, d1) \<Rightarrow> (Err e, p1\<lparr>pv_store := d1\<rparr>)
                              | (Panic, d1) \<Rightarrow> (Panic, p1\<lparr>pv_store := d1\<rparr>)
                              | (Ok _, d1) \<Rightarrow> (Ok ad2, p1\<lparr>pv_store := d1, pv_head := Some c\<rparr>)))))"

text \<open>The announcement: the head and the address of this node, in DAG-CBOR.\<close>

datatype domain_proto = DomainProto string | Http | P2pPeer string

record msg_ops =
  cid_dag_cbor :: "cid \<Rightarrow> bytes"
  addrs_to_vec :: "domain_proto list list \<Rightarrow> bytes"
  bytes_dag_cbor :: "bytes \<Rightarrow> bytes"

definition marshal_cbor :: "msg_ops \<Rightarrow> cid \<Rightarrow> domain_proto list list \<Rightarrow> bytes \<Rightarrow> bytes" where
  "marshal_cbor mo c addrs extra = [131] @ cid_dag_cbor mo c @ addrs_to_vec mo addrs @ bytes_dag_cbor mo extra"

definition create_announce_message ::
  "msg_ops \<Rightarrow> string \<Rightarrow> domain_proto list \<Rightarrow> 'd provider \<Rightarrow> (bytes, string) result" where
  "create_announce_message mo peer_id domain p =
     (case pv_head p of
        Some c \<Rightarrow> Ok (marshal_cbor mo c [domain @ [Http, P2pPeer peer_id]] [])
      | None \<Rightarrow> Err ''No head found for announcement!'')"

section \<open>Engine\<close>

fun keep_protocol :: "protocol \<Rightarrow> bool" where
  "keep_protocol (Ip6 ip) = True"
| "keep_protocol (Ip4 ip) = True"
| "keep_protocol (Tcp port) = True"
| "keep_protocol _ = False"

function chunks :: "nat \<Rightarrow> 'a list \<Rightarrow> 'a list list" where
  "chunks n xs = (if n = 0 \<or> xs = [] then [] else take n xs # chunks n (drop n xs))"
  by pat_completeness auto
termination by (relation "measure (length \<circ> snd)") auto

declare chunks.simps [simp del]

fun add_chunks ::
  "('d, string) db_ops \<Rightarrow> ad_ops \<Rightarrow> ipld list list \<Rightarrow> nat \<Rightarrow> 'd provider \<Rightarrow> (unit, string) result \<times> 'd provider" where
  "add_chunks db ao [] id' p = (Ok (), p)"
| "add_chunks db ao (ch # chs) id' p =
     (case entries_to_vec ao ch of
        Err e \<Rightarrow> (Err e, p)
      | Panic \<Rightarrow> (Panic, p)
      | Ok bs \<Rightarrow>
          (case add_chunk db ao bs id' p of
             (Ok _, p1) \<Rightarrow> add_chunks db ao chs id' p1
           | (_, p1) \<Rightarrow> (Panic, p1)))"

text \<open>
  \<open>publish_local\<close>. \<open>store\<close> is the node's block store, \<open>listeners\<close> the answer of the network
  service, an error when the channel is closed. \<open>None\<close> is a traversal that does not end.
\<close>

definition publish_local ::
  "('m, string) db_ops \<Rightarrow> string ipld_ops \<Rightarrow> 'm \<Rightarrow> ('d, string) db_ops \<Rightarrow> 'd kv_ops \<Rightarrow> ad_ops \<Rightarrow> string \<Rightarrow> string \<Rightarrow>
   (multiaddr list, string) result \<Rightarrow> nat \<Rightarrow> cid \<Rightarrow> nat \<Rightarrow> 'd provider \<Rightarrow> ((unit, string) result \<times> 'd provider) option" where
  "publish_local mdb ip store db kv ao peer_id server_address listeners rand root file_size p =
     (case listeners of
        Err e \<Rightarrow> Some (Err e, p)
      | Panic \<Rightarrow> Some (Panic, p)
      | Ok las \<Rightarrow>
          (let addresses = server_address # map (\<lambda>la. multiaddr_str ao (filter keep_protocol la)) las;
               p1 = create_ad rand (advertisement_new ao root peer_id addresses False file_size) p
           in case dag_traversal mdb ip store root of
                None \<Rightarrow> None
              | Some (Err e) \<Rightarrow> Some (Err ''dag traversal'', p1)
              | Some Panic \<Rightarrow> Some (Panic, p1)
              | Some (Ok dag) \<Rightarrow>
                  (let entries = map (\<lambda>b. IpldBytes (cid_hash ao (fst b))) dag
                   in case add_chunks db ao (chunks MAX_ENTRIES entries) rand p1 of
                        (Ok _, p2) \<Rightarrow>
                          (case publish db kv ao rand p2 of
                             (Ok _, p3) \<Rightarrow> Some (Ok (), p3)
                           | (_, p3) \<Rightarrow> Some (Panic, p3))
                      | (r, p2) \<Rightarrow> Some (r, p2))))"

datatype announced = NotPublished string | NoMessage string | Gossiped bytes | HttpAnnounced bytes

text \<open>
  One \<open>Put\<close> command of \<open>start\<close>: what it publishes and announces. The caller has been
  answered before.
\<close>

definition provider_put ::
  "('m, string) db_ops \<Rightarrow> string ipld_ops \<Rightarrow> 'm \<Rightarrow> ('d, string) db_ops \<Rightarrow> 'd kv_ops \<Rightarrow> ad_ops \<Rightarrow> msg_ops \<Rightarrow>
   (bytes \<Rightarrow> (unit, string) result) \<Rightarrow> string \<Rightarrow> string \<Rightarrow> domain_proto list \<Rightarrow>
   (multiaddr list, string) result \<Rightarrow> nat \<Rightarrow> bytes \<Rightarrow> nat \<Rightarrow> 'd provider \<Rightarrow> ((announced, string) result \<times> 'd provider) option" where
  "provider_put mdb ip store db kv ao mo gossip peer_id server_address domain listeners rand context_id size' p =
     (case cid_try_from ao context_id of
        None \<Rightarrow> Some (Panic, p)
      | Some c \<Rightarrow>
          map_option (\<lambda>(r, p1).
            case r of
              Panic \<Rightarrow> (Panic, p1)
            | Err e \<Rightarrow> (Ok (NotPublished e), p1)
            | Ok _ \<Rightarrow>
                (case create_announce_message mo peer_id domain p1 of
                   Ok msg \<Rightarrow>
                     (case gossip msg of
                        Ok _ \<Rightarrow> (Ok (Gossiped msg), p1)
                      | Err e \<Rightarrow> (Ok (HttpAnnounced msg), p1)
                      | Panic \<Rightarrow> (Panic, p1))
                 | Err e \<Rightarrow> (Ok (NoMessage e), p1)
                 | Panic \<Rightarrow> (Panic, p1)))
            (publish_local mdb ip store db kv ao peer_id server_address listeners rand c size' p))"

datatype provider_command = PutCommand bytes nat | RemoveCommand bytes

text \<open>One command of \<open>start\<close>; \<open>Remove\<close> is not implemented.\<close>

definition provider_step ::
  "('m, string) db_ops \<Rightarrow> string ipld_ops \<Rightarrow> 'm \<Rightarrow> ('d, string) db_ops \<Rightarrow> 'd kv_ops \<Rightarrow> ad_ops \<Rightarrow> msg_ops \<Rightarrow>
   (bytes \<Rightarrow> (unit, string) result) \<Rightarrow> string \<Rightarrow> string \<Rightarrow> domain_proto list \<Rightarrow>
   (multiaddr list, string) result \<Rightarrow> nat \<Rightarrow> provider_command \<Rightarrow> 'd provider \<Rightarrow> ((announced, string) result \<times> 'd provider) option" where
  "provider_step mdb ip store db kv ao mo gossip peer_id server_address domain listeners rand cmd p =
     (case cmd of
        PutCommand context_id size' \<Rightarrow>
          provider_put mdb ip store db kv ao mo gossip peer_id server_address domain listeners rand context_id size' p
      | RemoveCommand context_id \<Rightarrow> Some (Panic, p))"

section \<open>Signed head and HTTP handlers\<close>

record signed_head =
  sh_head :: cid
  sh_sig :: bytes
  sh_pubkey :: bytes

record 'k head_ops =
  key_sign :: "bytes \<Rightarrow> (bytes, string) result"
  key_public :: bytes
  pk_decode :: "bytes \<Rightarrow> 'k option"
  pk_verify :: "'k \<Rightarrow> bytes \<Rightarrow> bytes \<Rightarrow> bool"

datatype signed_head_error = InvalidSignature | InvalidPublicKey

definition signed_head_new :: "'k head_ops \<Rightarrow> cid \<Rightarrow> (signed_head, string) result" where
  "signed_head_new ho c =
     bind_res (key_sign ho c) (\<lambda>sig. Ok \<lparr>sh_head = c, sh_sig = sig, sh_pubkey = key_public ho\<rparr>)"

definition signed_head_open :: "'k head_ops \<Rightarrow> signed_head \<Rightarrow> ('k \<times> cid, signed_head_error) result" where
  "signed_head_open ho sh =
     (case pk_decode ho (sh_pubkey sh) of
        None \<Rightarrow> Err InvalidPublicKey
      | Some pk \<Rightarrow> if \<not> pk_verify ho pk (sh_head sh) (sh_sig sh) then Err InvalidSignature else Ok (pk, sh_head sh))"

text \<open>The JSON form of a signed head: a map with the key \<open>/\<close>.\<close>

datatype json = JString string | JObject "(string \<times> json) list" | JOther

fun json_get :: "string \<Rightarrow> json \<Rightarrow> json option" where
  "json_get k (JObject m) = map_of m k"
| "json_get k _ = None"

fun as_str :: "json \<Rightarrow> string option" where
  "as_str (JString x) = Some x"
| "as_str _ = None"

definition from_bytes_to_map :: "(bytes \<Rightarrow> string) \<Rightarrow> bytes \<Rightarrow> (string \<times> json) list" where
  "from_bytes_to_map b64_encode bs = [(''/'', JObject [(''bytes'', JString (b64_encode bs))])]"

definition from_map_to_bytes ::
  "(string \<Rightarrow> (bytes, string) result) \<Rightarrow> (string \<times> json) list \<Rightarrow> (bytes, string) result" where
  "from_map_to_bytes b64_decode value' =
     bind_res (ok_or ''Missing link key'' (map_of value' ''/'')) (\<lambda>v.
     bind_res (ok_or ''Missing bytes key'' (json_get ''bytes'' v)) (\<lambda>b.
     bind_res (ok_or ''missing bytes string'' (as_str b)) b64_decode))"

definition from_cid_to_map :: "(cid \<Rightarrow> string) \<Rightarrow> cid \<Rightarrow> (string \<times> json) list" where
  "from_cid_to_map cid_to_string c = [(''/'', JString (cid_to_string c))]"

definition from_map_to_cid ::
  "(string \<Rightarrow> (cid, string) result) \<Rightarrow> (string \<times> json) list \<Rightarrow> (cid, string) result" where
  "from_map_to_cid cid_from_str value' =
     bind_res (ok_or ''Cid entry is missing'' (map_of value' ''/'')) (\<lambda>v.
     bind_res (ok_or ''Cid str is missing'' (as_str v)) cid_from_str)"

datatype provider_error = NotFoundError string | InternalError string

fun provider_error_response :: "provider_error \<Rightarrow> nat \<times> string" where
  "provider_error_response (NotFoundError e) = (404, e)"
| "provider_error_response (InternalError e) = (500, e)"

definition head_handler :: "'k head_ops \<Rightarrow> 'd provider \<Rightarrow> (signed_head, provider_error) result" where
  "head_handler ho p =
     (case pv_head p of
        Some c \<Rightarrow> map_err InternalError (signed_head_new ho c)
      | None \<Rightarrow> Err (NotFoundError ''No head found''))"

definition get_block_handler ::
  "('d, string) db_ops \<Rightarrow> (string \<Rightarrow> (cid, string) result) \<Rightarrow> string \<Rightarrow> 'd provider \<Rightarrow> (bytes, provider_error) result" where
  "get_block_handler db cid_from_str c p =
     bind_res (map_err InternalError (cid_from_str c)) (\<lambda>c.
       case db_get db (pv_store p) c of
         Ok (Some b) \<Rightarrow> Ok b
       | Ok None \<Rightarrow> Err (NotFoundError ''Block not found'')
       | Err e \<Rightarrow> Err (InternalError e)
       | Panic \<Rightarrow> Panic)"

section \<open>Chunks\<close>

lemma concat_chunks: "0 < n \<Longrightarrow> concat (chunks n xs) = xs"
proof (induction n xs rule: chunks.induct)
  case (1 n xs)
  then show ?case by (subst chunks.simps) auto
qed

lemma chunks_bound: "ch \<in> set (chunks n xs) \<Longrightarrow> ch \<noteq> [] \<and> length ch \<le> n"
proof (induction n xs rule: chunks.induct)
  case (1 n xs)
  from "1.prems" have ne: "\<not> (n = 0 \<or> xs = [])" by (subst (asm) chunks.simps) (auto split: if_splits)
  then have "chunks n xs = take n xs # chunks n (drop n xs)" by (subst chunks.simps) simp
  with "1.prems" "1.IH" [OF ne] ne show ?case by auto
qed

section \<open>What the provider stores\<close>

text \<open>
  The laws of the provider's database and codecs: a put is visible and touches nothing else,
  the head is kept apart from the blocks, chunks of entries decode to what was encoded, and
  different blocks have different content ids.
\<close>

definition provider_laws :: "('d, string) db_ops \<Rightarrow> 'd kv_ops \<Rightarrow> ad_ops \<Rightarrow> bool" where
  "provider_laws db kv ao \<longleftrightarrow>
     lawful_db db \<and> inj (blake2b_cid ao) \<and> (\<forall>bs. cid_try_from ao (blake2b_cid ao bs) = Some (blake2b_cid ao bs)) \<and>
     (\<forall>es bs. entries_to_vec ao es = Ok bs \<longrightarrow> entries_from_slice ao bs = Ok es) \<and>
     (\<forall>d k v d'. kv_write kv d k v = (Ok (), d') \<longrightarrow>
        kv_read kv d' k = Ok (Some v) \<and> (\<forall>c. db_get db d' c = db_get db d c))"

text \<open>Every stored block lies under its own content id.\<close>

definition addressed :: "('d, string) db_ops \<Rightarrow> ad_ops \<Rightarrow> 'd \<Rightarrow> bool" where
  "addressed db ao d \<longleftrightarrow> (\<forall>c b. db_get db d c = Ok (Some b) \<longrightarrow> blake2b_cid ao b = c)"

definition extends :: "('d, string) db_ops \<Rightarrow> 'd \<Rightarrow> 'd \<Rightarrow> bool" where
  "extends db d d' \<longleftrightarrow> (\<forall>c b. db_get db d c = Ok (Some b) \<longrightarrow> db_get db d' c = Ok (Some b))"

lemma extends_refl [simp]: "extends db d d"
  by (simp add: extends_def)

lemma extends_trans: "extends db d d' \<Longrightarrow> extends db d' d'' \<Longrightarrow> extends db d d''"
  by (simp add: extends_def)

text \<open>A chain of entry chunks, newest first.\<close>

fun chunk_chain :: "('d, string) db_ops \<Rightarrow> ad_ops \<Rightarrow> 'd \<Rightarrow> ipld option \<Rightarrow> ipld list list \<Rightarrow> bool" where
  "chunk_chain db ao d e [] \<longleftrightarrow> e = None"
| "chunk_chain db ao d e (es # rest) \<longleftrightarrow>
     (\<exists>c bs next'. e = Some (IpldLink c) \<and> chunk_to_vec ao (entry_chunk_new es next') = Ok bs \<and>
        db_get db d c = Ok (Some bs) \<and> chunk_chain db ao d next' rest)"

lemma chunk_chain_extends: "chunk_chain db ao d e chs \<Longrightarrow> extends db d d' \<Longrightarrow> chunk_chain db ao d' e chs"
  by (induction chs arbitrary: e) (auto simp: extends_def, blast)

lemma put_obj_stores:
  assumes laws: "provider_laws db kv ao" and d: "addressed db ao d"
    and put: "put_obj db (blake2b_cid ao) enc d x = (Ok c, d')"
  shows "\<exists>bs. enc x = Ok bs \<and> c = blake2b_cid ao bs \<and> db_get db d' c = Ok (Some bs)"
    and "addressed db ao d'" and "extends db d d'"
proof -
  obtain bs where bs: "enc x = Ok bs" using put by (cases "enc x") (auto simp: put_obj_def)
  obtain r d1 where p: "db_put_keyed db d (blake2b_cid ao bs) bs = (r, d1)"
    by (cases "db_put_keyed db d (blake2b_cid ao bs) bs")
  then have r: "r = Ok ()" "c = blake2b_cid ao bs" "d1 = d'"
    using put bs by (auto simp: put_obj_def put_raw_def Let_def bind_res_Ok_iff)
  then have g: "db_get db d' y = (if y = c then Ok (Some bs) else db_get db d y)" for y
    using laws p unfolding provider_laws_def lawful_db_def by blast
  from bs r g show "\<exists>bs. enc x = Ok bs \<and> c = blake2b_cid ao bs \<and> db_get db d' c = Ok (Some bs)" by simp
  from d g r(2) show "addressed db ao d'" by (auto simp: addressed_def)
  have "b = bs" if "db_get db d c = Ok (Some b)" for b
    using d that r(2) laws by (auto simp: addressed_def provider_laws_def dest: injD)
  with g show "extends db d d'" by (auto simp: extends_def)
qed

lemma kv_write_keeps:
  assumes "provider_laws db kv ao" and "kv_write kv d k v = (Ok u, d')"
  shows "kv_read kv d' k = Ok (Some v)" "db_get db d' c = db_get db d c"
  using assms unfolding provider_laws_def by (cases u; blast)+

lemma add_chunk_ok:
  assumes laws: "provider_laws db kv ao" and d: "addressed db ao (pv_store p)"
    and bs: "entries_to_vec ao es = Ok bs" and add: "add_chunk db ao bs id' p = (Ok u, p')"
    and ad: "hm_get (pv_temp_ads p) id' = Some ad" and ch: "chunk_chain db ao (pv_store p) (Entries ad) chs"
  shows "\<exists>e. hm_get (pv_temp_ads p') id' = Some (ad\<lparr>Entries := e\<rparr>) \<and>
      chunk_chain db ao (pv_store p') e (es # chs)"
    and "addressed db ao (pv_store p')" and "pv_head p' = pv_head p" and "extends db (pv_store p) (pv_store p')"
proof -
  have es: "entries_from_slice ao bs = Ok es" using laws bs by (auto simp: provider_laws_def)
  let ?put = "put_obj db (blake2b_cid ao) (chunk_to_vec ao) (pv_store p) (entry_chunk_new es (Entries ad))"
  obtain c d' where put: "?put = (Ok c, d')"
    and p': "p' = p\<lparr>pv_store := d', pv_temp_ads := hm_insert id' (ad\<lparr>Entries := Some (IpldLink c)\<rparr>) (pv_temp_ads p)\<rparr>"
    using add ad es by (cases ?put) (auto simp: add_chunk_def split: result.splits)
  note st = put_obj_stores [OF laws d put]
  have "chunk_chain db ao d' (Some (IpldLink c)) (es # chs)"
    using st(1) chunk_chain_extends [OF ch st(3)] by auto
  with p' show "\<exists>e. hm_get (pv_temp_ads p') id' = Some (ad\<lparr>Entries := e\<rparr>) \<and>
      chunk_chain db ao (pv_store p') e (es # chs)" by auto
  from st(2,3) p' show "addressed db ao (pv_store p')" "pv_head p' = pv_head p" "extends db (pv_store p) (pv_store p')" by simp_all
qed

lemma add_chunks_ok:
  "provider_laws db kv ao \<Longrightarrow> addressed db ao (pv_store p) \<Longrightarrow> add_chunks db ao chs id' p = (Ok u, p') \<Longrightarrow>
   hm_get (pv_temp_ads p) id' = Some ad \<Longrightarrow> chunk_chain db ao (pv_store p) (Entries ad) done' \<Longrightarrow>
     (\<exists>e. hm_get (pv_temp_ads p') id' = Some (ad\<lparr>Entries := e\<rparr>) \<and>
        chunk_chain db ao (pv_store p') e (rev chs @ done')) \<and>
     addressed db ao (pv_store p') \<and> pv_head p' = pv_head p \<and> extends db (pv_store p) (pv_store p')"
proof (induction chs arbitrary: p ad done')
  case Nil
  have "ad = ad\<lparr>Entries := Entries ad\<rparr>" by simp
  with Nil show ?case by (auto intro!: exI [of _ "Entries ad"])
next
  case (Cons es chs)
  obtain bs where bs: "entries_to_vec ao es = Ok bs"
    using Cons.prems(3) by (cases "entries_to_vec ao es") auto
  obtain r p1 where call: "add_chunk db ao bs id' p = (r, p1)" by (cases "add_chunk db ao bs id' p")
  then obtain v where r: "r = Ok v" using Cons.prems(3) bs by (cases r) auto
  note st = add_chunk_ok [OF Cons.prems(1,2) bs call [unfolded r] Cons.prems(4,5)]
  then obtain e where e: "hm_get (pv_temp_ads p1) id' = Some (ad\<lparr>Entries := e\<rparr>)"
    "chunk_chain db ao (pv_store p1) e (es # done')" by blast
  have rest: "add_chunks db ao chs id' p1 = (Ok u, p')" using Cons.prems(3) bs call r by simp
  have "chunk_chain db ao (pv_store p1) (Entries (ad\<lparr>Entries := e\<rparr>)) (es # done')" using e(2) by simp
  from Cons.IH [OF Cons.prems(1) st(2) rest e(1) this] st(3) extends_trans [OF st(4)] show ?case by simp
qed

lemma publish_ok:
  assumes laws: "provider_laws db kv ao" and d: "addressed db ao (pv_store p)"
    and pub: "publish db kv ao id' p = (Ok ad', p')" and ad: "hm_get (pv_temp_ads p) id' = Some ad"
    and ch: "chunk_chain db ao (pv_store p) (Entries ad) chs"
  obtains c bs sig where "pv_head p' = Some c" "ad_to_vec ao ad' = Ok bs" "c = blake2b_cid ao bs"
    "db_get db (pv_store p') c = Ok (Some bs)" "kv_read kv (pv_store p') HEAD_KEY = Ok (Some c)"
    "sign ao (ad\<lparr>PreviousID := map_option IpldLink (pv_head p)\<rparr>) = Ok sig"
    "ad' = ad\<lparr>PreviousID := map_option IpldLink (pv_head p), Signature := IpldBytes sig\<rparr>"
    "chunk_chain db ao (pv_store p') (Entries ad) chs" "addressed db ao (pv_store p')"
    "extends db (pv_store p) (pv_store p')"
proof -
  let ?ad1 = "ad\<lparr>PreviousID := map_option IpldLink (pv_head p)\<rparr>"
  obtain sig where sig: "sign ao ?ad1 = Ok sig"
    using pub ad by (cases "sign ao ?ad1") (auto simp: publish_def Let_def)
  let ?ad2 = "?ad1\<lparr>Signature := IpldBytes sig\<rparr>"
  obtain r d1 where put: "put_obj db (blake2b_cid ao) (ad_to_vec ao) (pv_store p) ?ad2 = (r, d1)"
    by (cases "put_obj db (blake2b_cid ao) (ad_to_vec ao) (pv_store p) ?ad2")
  obtain c where r: "r = Ok c" using pub ad sig put by (cases r) (auto simp: publish_def Let_def)
  obtain w d2 where wr: "kv_write kv d1 HEAD_KEY c = (w, d2)" by (cases "kv_write kv d1 HEAD_KEY c")
  obtain u where w: "w = Ok u" using pub ad sig put r wr by (cases w) (auto simp: publish_def Let_def)
  have p': "ad' = ?ad2" "pv_head p' = Some c" "pv_store p' = d2"
    using pub ad sig put r wr w by (auto simp: publish_def Let_def)
  note st = put_obj_stores [OF laws d put [unfolded r]]
  note kv = kv_write_keeps [OF laws wr [unfolded w]]
  have same: "addressed db ao d2 = addressed db ao d1" "extends db d1 d2"
    by (simp_all add: addressed_def extends_def kv(2))
  obtain bs where bs: "ad_to_vec ao ?ad2 = Ok bs" "c = blake2b_cid ao bs" "db_get db d1 c = Ok (Some bs)"
    using st(1) by blast
  have ext: "extends db (pv_store p) d2" using extends_trans [OF st(3) same(2)] .
  show thesis
    by (rule that) (use p' bs kv sig st(2) same(1) ext chunk_chain_extends [OF ch ext] in simp_all)
qed

lemma publish_local_ok:
  assumes "provider_laws db kv ao" and "addressed db ao (pv_store p)"
    and "finite {c. \<exists>data. db_get mdb store c = Ok (Some data)}"
    and "publish_local mdb ip store db kv ao peer_id server_address listeners rand root file_size p = Some (Ok u, p')"
  shows "\<exists>c bs ad sig chs. pv_head p' = Some c \<and> db_get db (pv_store p') c = Ok (Some bs) \<and> ad_to_vec ao ad = Ok bs \<and>
    PreviousID ad = map_option IpldLink (pv_head p) \<and> ContextID ad = IpldBytes root \<and> IsRm ad = False \<and>
    sign ao (ad\<lparr>Signature := IpldBytes []\<rparr>) = Ok sig \<and> Signature ad = IpldBytes sig \<and>
    chunk_chain db ao (pv_store p') (Entries ad) chs \<and>
    set (concat chs) = {IpldBytes (cid_hash ao x) | x. reachable mdb ip store root x} \<and>
    (\<forall>ch \<in> set chs. length ch \<le> MAX_ENTRIES) \<and>
    provider_new ao kv (pv_store p') = Ok \<lparr>pv_head = Some c, pv_store = pv_store p', pv_temp_ads = []\<rparr> \<and>
    addressed db ao (pv_store p') \<and> extends db (pv_store p) (pv_store p')"
proof -
  obtain las where las: "listeners = Ok las" using assms(4) by (cases listeners) (auto simp: publish_local_def)
  define ad0 where "ad0 = advertisement_new ao root peer_id
    (server_address # map (\<lambda>la. multiaddr_str ao (filter keep_protocol la)) las) False file_size"
  define p1 where "p1 = create_ad rand ad0 p"
  have p1: "hm_get (pv_temp_ads p1) rand = Some ad0" "pv_store p1 = pv_store p" "pv_head p1 = pv_head p" "Entries ad0 = None"
    by (simp_all add: p1_def create_ad_def ad0_def advertisement_new_def)
  obtain dag where dag: "dag_traversal mdb ip store root = Some (Ok dag)"
    using assms(4) las by (auto simp: publish_local_def Let_def split: option.splits result.splits)
  let ?es = "map (\<lambda>b. IpldBytes (cid_hash ao (fst b))) dag"
  obtain r p2 where add: "add_chunks db ao (chunks MAX_ENTRIES ?es) rand p1 = (r, p2)"
    by (cases "add_chunks db ao (chunks MAX_ENTRIES ?es) rand p1")
  note run = assms(4) [unfolded publish_local_def las, simplified, folded ad0_def, unfolded Let_def, folded p1_def]
  obtain v where r: "r = Ok v" using run dag add by (cases r) auto
  obtain q p3 where pub: "publish db kv ao rand p2 = (q, p3)" by (cases "publish db kv ao rand p2")
  obtain ad' where q: "q = Ok ad'" "p3 = p'" using run dag add r pub by (cases q) auto
  obtain e where e: "hm_get (pv_temp_ads p2) rand = Some (ad0\<lparr>Entries := e\<rparr>)"
    "chunk_chain db ao (pv_store p2) e (rev (chunks MAX_ENTRIES ?es))" "addressed db ao (pv_store p2)" "pv_head p2 = pv_head p"
    "extends db (pv_store p) (pv_store p2)"
    using add_chunks_ok [OF assms(1) _ add [unfolded r] p1(1), of "[]"] assms(2) p1 by auto
  have ch: "chunk_chain db ao (pv_store p2) (Entries (ad0\<lparr>Entries := e\<rparr>)) (rev (chunks MAX_ENTRIES ?es))"
    using e(2) by simp
  obtain c bs sig where o': "pv_head p' = Some c" "ad_to_vec ao ad' = Ok bs" "c = blake2b_cid ao bs"
    "db_get db (pv_store p') c = Ok (Some bs)" "kv_read kv (pv_store p') HEAD_KEY = Ok (Some c)"
    "sign ao (ad0\<lparr>Entries := e, PreviousID := map_option IpldLink (pv_head p2)\<rparr>) = Ok sig"
    "ad' = ad0\<lparr>Entries := e, PreviousID := map_option IpldLink (pv_head p2), Signature := IpldBytes sig\<rparr>"
    "chunk_chain db ao (pv_store p') (Entries (ad0\<lparr>Entries := e\<rparr>)) (rev (chunks MAX_ENTRIES ?es))"
    "addressed db ao (pv_store p')" "extends db (pv_store p2) (pv_store p')"
    by (rule publish_ok [OF assms(1) e(3) pub [unfolded q] e(1) ch])
  have "0 < MAX_ENTRIES" by (simp add: MAX_ENTRIES_def)
  then have "set (concat (rev (chunks MAX_ENTRIES ?es))) = set ?es" by (metis concat_chunks set_concat set_rev)
  also have "\<dots> = {IpldBytes (cid_hash ao x) | x. x \<in> fst ` set dag}" by auto
  finally have all: "set (concat (rev (chunks MAX_ENTRIES ?es))) = {IpldBytes (cid_hash ao x) | x. reachable mdb ip store root x}"
    unfolding dag_traversal_ok(1) [OF assms(3) dag] by simp
  have new: "provider_new ao kv (pv_store p') = Ok \<lparr>pv_head = Some c, pv_store = pv_store p', pv_temp_ads = []\<rparr>"
    using o'(5,3) assms(1) by (simp add: provider_new_def provider_laws_def)
  have ad': "PreviousID ad' = map_option IpldLink (pv_head p)" "ContextID ad' = IpldBytes root" "IsRm ad' = False"
    "sign ao (ad'\<lparr>Signature := IpldBytes []\<rparr>) = Ok sig" "Signature ad' = IpldBytes sig" "Entries ad' = e"
    using o'(6) by (simp_all add: o'(7) e(4) ad0_def advertisement_new_def)
  show ?thesis
    by (rule exI [of _ c], rule exI [of _ bs], rule exI [of _ ad'], rule exI [of _ sig],
        rule exI [of _ "rev (chunks MAX_ENTRIES ?es)"])
      (use o'(1,2,4,8,9) extends_trans [OF e(5) o'(10)] ad' all new chunks_bound in auto)
qed

text \<open>
  C10. Publishing a content id succeeds only with an advertisement that is stored under the
  new head, linked to the previous head, signed, and whose chunks, none longer than the
  limit, list exactly the multihashes of the blocks reachable from the root; a provider
  restarted on that store has the same head.\<close>

theorem publish_local_advertises_dag:
  assumes "provider_laws db kv ao" and "addressed db ao (pv_store p)"
    and "finite {c. \<exists>data. db_get mdb store c = Ok (Some data)}"
    and "publish_local mdb ip store db kv ao peer_id server_address listeners rand root file_size p = Some (Ok u, p')"
  shows "\<exists>c bs ad sig chs. pv_head p' = Some c \<and> db_get db (pv_store p') c = Ok (Some bs) \<and> ad_to_vec ao ad = Ok bs \<and>
    PreviousID ad = map_option IpldLink (pv_head p) \<and> ContextID ad = IpldBytes root \<and> IsRm ad = False \<and>
    sign ao (ad\<lparr>Signature := IpldBytes []\<rparr>) = Ok sig \<and> Signature ad = IpldBytes sig \<and>
    chunk_chain db ao (pv_store p') (Entries ad) chs \<and>
    set (concat chs) = {IpldBytes (cid_hash ao x) | x. reachable mdb ip store root x} \<and>
    (\<forall>ch \<in> set chs. length ch \<le> MAX_ENTRIES) \<and>
    provider_new ao kv (pv_store p') = Ok \<lparr>pv_head = Some c, pv_store = pv_store p', pv_temp_ads = []\<rparr>"
  using publish_local_ok [OF assms] by blast

section \<open>Examples\<close>

text \<open>A provider store in memory, and codecs that know one chunk and one advertisement.\<close>

definition demo_pdb :: "((cid \<times> bytes) list \<times> bytes option, string) db_ops" where
  "demo_pdb = \<lparr>db_get = (\<lambda>d c. Ok (map_of (fst d) c)), db_has = (\<lambda>d c. Ok (map_of (fst d) c \<noteq> None)),
     db_put_keyed = (\<lambda>d c b. (Ok (), ((c, b) # fst d, snd d))),
     db_put_many_keyed = (\<lambda>d ks. (Ok (), (rev ks @ fst d, snd d))),
     db_delete = (\<lambda>d c. (Ok (), (filter (\<lambda>p. fst p \<noteq> c) (fst d), snd d)))\<rparr>"

definition demo_kv :: "((cid \<times> bytes) list \<times> bytes option) kv_ops" where
  "demo_kv = \<lparr>kv_read = (\<lambda>d k. Ok (snd d)), kv_write = (\<lambda>d k v. (Ok (), (fst d, Some v)))\<rparr>"

definition demo_ao :: ad_ops where
  "demo_ao = \<lparr>metadata_to_vec = (\<lambda>i n b. b), sha2_256 = (\<lambda>b. b), signed_envelope = (\<lambda>a b c. Ok [12]),
     ad_to_vec = (\<lambda>ad. Ok [11]), chunk_to_vec = (\<lambda>ch. Ok [10]),
     entries_to_vec = (\<lambda>es. if es = [IpldBytes [3]] then Ok [1] else Err ''codec''),
     entries_from_slice = (\<lambda>bs. if bs = [1] then Ok [IpldBytes [3]] else Err ''codec''),
     blake2b_cid = (\<lambda>b. b), cid_hash = (\<lambda>c. c), cid_try_from = Some, multiaddr_str = (\<lambda>m. ''/'')\<rparr>"

definition demo_provider0 :: "((cid \<times> bytes) list \<times> bytes option) provider" where
  "demo_provider0 = \<lparr>pv_head = Some [5], pv_store = ([([5], [5])], Some [5]), pv_temp_ads = []\<rparr>"

lemma demo_provider_laws: "provider_laws demo_pdb demo_kv demo_ao"
  unfolding provider_laws_def lawful_db_def
  by (auto simp: demo_pdb_def demo_kv_def demo_ao_def inj_def map_add_def split: option.splits if_splits)

lemma demo_addressed: "addressed demo_pdb demo_ao (pv_store demo_provider0)"
  by (auto simp: addressed_def demo_pdb_def demo_ao_def demo_provider0_def split: if_splits)

lemma demo_leaf: "dag_traversal mem_db mem_ipld mem_graph [3] = Some (Ok [([3], [])])"
  unfolding dag_traversal_def
  by (subst dag_loop.simps, subst dag_loop.simps) (simp add: picked_def mem_graph_def set_add_def)

lemma demo_add_chunk:
  "hm_get (pv_temp_ads p) i = Some ad \<Longrightarrow>
     \<exists>p'. add_chunk demo_pdb demo_ao [1] i p = (Ok (), p') \<and>
       hm_get (pv_temp_ads p') i = Some (ad\<lparr>Entries := Some (IpldLink [10])\<rparr>)"
  by (simp add: add_chunk_def put_obj_def put_raw_def Let_def demo_pdb_def demo_ao_def)

lemma demo_publish_ad:
  assumes "hm_get (pv_temp_ads p) i = Some ad" "Entries ad = Some (IpldLink [10])" "Metadata ad = IpldBytes m"
  shows "\<exists>ad' p'. publish demo_pdb demo_kv demo_ao i p = (Ok ad', p')"
proof -
  have "sign demo_ao (ad\<lparr>PreviousID := map_option IpldLink h\<rparr>) = Ok [12]" for h
    by (cases h) (simp_all add: sign_def sig_payload_def assms demo_ao_def)
  then show ?thesis
    by (simp add: publish_def Let_def assms put_obj_def put_raw_def demo_pdb_def demo_kv_def demo_ao_def)
qed

lemma demo_publish_at:
  assumes leaf: "dag_traversal mem_db mem_ipld store [3] = Some (Ok [([3], [])])"
  shows "\<exists>p'. publish_local mem_db mem_ipld store demo_pdb demo_kv demo_ao ''peer'' ''/dns/node'' (Ok []) 2 [3] n p =
     Some (Ok (), p')"
proof -
  define ad where "ad = advertisement_new demo_ao [3] ''peer'' [''/dns/node''] False n"
  define p1 where "p1 = create_ad 2 ad p"
  have ad: "hm_get (pv_temp_ads p1) 2 = Some ad" "Metadata ad = IpldBytes (str_bytes ''FleekNetwork'')"
    by (simp_all add: p1_def create_ad_def ad_def advertisement_new_def demo_ao_def)
  obtain p2 where p2: "add_chunk demo_pdb demo_ao [1] 2 p1 = (Ok (), p2)"
    "hm_get (pv_temp_ads p2) 2 = Some (ad\<lparr>Entries := Some (IpldLink [10])\<rparr>)" using demo_add_chunk [OF ad(1)] by blast
  obtain ad' p3 where p3: "publish demo_pdb demo_kv demo_ao 2 p2 = (Ok ad', p3)"
    using demo_publish_ad [OF p2(2)] ad(2) by auto
  have ch: "chunks MAX_ENTRIES [IpldBytes (cid_hash demo_ao [3])] = [[IpldBytes [3]]]"
    by (subst chunks.simps, subst chunks.simps) (simp add: MAX_ENTRIES_def demo_ao_def)
  have es: "entries_to_vec demo_ao [IpldBytes [3]] = Ok [1]" by (simp add: demo_ao_def)
  show ?thesis
    by (simp add: publish_local_def leaf Let_def ch es p2(1) p3 flip: ad_def p1_def)
qed

lemmas demo_publish = demo_publish_at [OF demo_leaf]

theorem publish_local_advertises_dag_witness:
  "\<exists>p' c bs ad. publish_local mem_db mem_ipld mem_graph demo_pdb demo_kv demo_ao ''peer'' ''/dns/node'' (Ok []) 2 [3] 7
      demo_provider0 = Some (Ok (), p') \<and> pv_head p' = Some c \<and>
      db_get demo_pdb (pv_store p') c = Ok (Some bs) \<and> ad_to_vec demo_ao ad = Ok bs \<and> PreviousID ad = Some (IpldLink [5])"
proof -
  obtain p' where run: "publish_local mem_db mem_ipld mem_graph demo_pdb demo_kv demo_ao ''peer'' ''/dns/node'' (Ok []) 2 [3] 7
      demo_provider0 = Some (Ok (), p')" using demo_publish by blast
  have h: "pv_head demo_provider0 = Some [5]" by (simp add: demo_provider0_def)
  from publish_local_advertises_dag [OF demo_provider_laws demo_addressed mem_db_finite run]
  show ?thesis
  proof (elim exE conjE)
    fix c bs ad
    assume "pv_head p' = Some c" "db_get demo_pdb (pv_store p') c = Ok (Some bs)" "ad_to_vec demo_ao ad = Ok bs"
      "PreviousID ad = map_option IpldLink (pv_head demo_provider0)"
    with run h show ?thesis by (intro exI [of _ p'] exI [of _ c] exI [of _ bs] exI [of _ ad]) simp
  qed
qed

section \<open>A publication that fails\<close>

text \<open>
  C35. A publication that fails for any reason, even for an unknown id, forgets the head: the
  next advertisement that is published starts a new chain, and the earlier advertisements
  can no longer be reached from the head. This is what \<open>Provider::publish\<close> does to its caller; the engine of the node
  panics on such a failure.\<close>

theorem failed_publish_forgets_head:
  assumes "publish db kv ao id' p = (r, p')" and "\<not> is_ok r"
  shows "pv_head p' = None \<and> (\<forall>i ad q. publish db kv ao i p' = (Ok ad, q) \<longrightarrow> PreviousID ad = None)"
proof -
  have head: "pv_head p' = None"
    using assms by (auto simp: publish_def Let_def split: option.splits result.splits prod.splits)
  have "PreviousID ad = None" if "publish db kv ao i p' = (Ok ad, q)" for i ad q
    using that head by (auto simp: publish_def Let_def split: option.splits result.splits prod.splits)
  with head show ?thesis by blast
qed

theorem failed_publish_forgets_head_witness:
  "\<exists>r p'. publish demo_pdb demo_kv demo_ao 99 demo_provider0 = (r, p') \<and>
     pv_head demo_provider0 = Some [5] \<and> pv_head p' = None"
proof -
  obtain r p' where run: "publish demo_pdb demo_kv demo_ao 99 demo_provider0 = (r, p')"
    by (cases "publish demo_pdb demo_kv demo_ao 99 demo_provider0")
  then have "\<not> is_ok r" by (auto simp: publish_def demo_provider0_def)
  from failed_publish_forgets_head [OF run this] run show ?thesis by (simp add: demo_provider0_def)
qed

text \<open>
  The signature does not cover the context id, nor where one address ends and the next
  begins: advertisements that differ in these only have the same payload.\<close>

theorem sig_payload_ignores_context:
  assumes "PreviousID ad' = PreviousID ad" and "Entries ad' = Entries ad" and "Provider ad' = Provider ad"
    and "concat (Addresses ad') = concat (Addresses ad)" and "Metadata ad' = Metadata ad" and "IsRm ad' = IsRm ad"
  shows "sig_payload ao ad' = sig_payload ao ad"
proof -
  have "concat (map str_bytes (Addresses ad')) = concat (map str_bytes (Addresses ad))"
    using arg_cong [OF assms(4), of str_bytes] by (simp add: str_bytes_def [abs_def] map_concat o_def)
  with assms show ?thesis by (simp add: sig_payload_def)
qed

theorem sig_payload_ignores_context_witness:
  "sig_payload demo_ao (advertisement_new demo_ao [1] ''p'' [''/a'', ''/b''] False 3) =
     sig_payload demo_ao (advertisement_new demo_ao [2] ''p'' [''/a/b''] False 3) \<and>
   advertisement_new demo_ao [1] ''p'' [''/a'', ''/b''] False 3 \<noteq> advertisement_new demo_ao [2] ''p'' [''/a/b''] False 3"
  using sig_payload_ignores_context [of "advertisement_new demo_ao [1] ''p'' [''/a'', ''/b''] False 3"
      "advertisement_new demo_ao [2] ''p'' [''/a/b''] False 3" demo_ao]
  by (simp add: advertisement_new_def)

end
