(* ===== verification/Index_Engine.thy ===== *)
theory Index_Engine
  imports Index_Provider Network
begin

text \<open>
  The index provider as it runs, \<open>ProviderEngine\<close> of \<open>ursa-index-provider/src/engine.rs\<close>: how it is
  put together with the router that serves its advertisements, the announcements, and a run of
  its command loop. The router holds a clone of the provider; head and store are shared with the
  engine, so what it serves is the state that the engine leaves.
\<close>

section \<open>Construction\<close>

text \<open>The engine reads the indexer's address from its configuration and nothing else.\<close>

record 'd provider_engine =
  en_provider :: "'d provider"
  en_indexer_url :: string
  en_server_address :: string
  en_domain :: "domain_proto list"
  en_commands :: "provider_command list"

definition provider_engine_new ::
  "ad_ops \<Rightarrow> 'd kv_ops \<Rightarrow> 'd \<Rightarrow> string \<Rightarrow> string \<Rightarrow> domain_proto list \<Rightarrow> ('d provider_engine, string) result" where
  "provider_engine_new ao kv provider_store indexer_url server_address domain =
     bind_res (provider_new ao kv provider_store) (\<lambda>p.
       Ok \<lparr>en_provider = p, en_indexer_url = indexer_url, en_server_address = server_address, en_domain = domain, en_commands = []\<rparr>)"

text \<open>
  A clone made when the provider was \<open>p0\<close>, used when it is \<open>p\<close>: the head is behind a shared lock
  and the store is shared, the unfinished advertisements are a copy.
\<close>

definition provider_clone :: "'d provider \<Rightarrow> 'd provider \<Rightarrow> 'd provider" where
  "provider_clone p0 p = \<lparr>pv_head = pv_head p, pv_store = pv_store p, pv_temp_ads = pv_temp_ads p0\<rparr>"

text \<open>
  The replies of the router. The head is sent as JSON, \<open>signed_head_to_json\<close>, an object with a map for
  each field. A handler that panics closes the connection.
\<close>

datatype provider_reply = HeadReply json | BlockReply bytes | ErrorReply nat string | NoRoute | Dropped

definition signed_head_to_json :: "(cid \<Rightarrow> string) \<Rightarrow> (bytes \<Rightarrow> string) \<Rightarrow> signed_head \<Rightarrow> json" where
  "signed_head_to_json cid_to_string b64_encode sh =
     JObject [(''head'', JObject (from_cid_to_map cid_to_string (sh_head sh))),
              (''sig'', JObject (from_bytes_to_map b64_encode (sh_sig sh))),
              (''pubkey'', JObject (from_bytes_to_map b64_encode (sh_pubkey sh)))]"

fun json_field :: "string \<Rightarrow> json \<Rightarrow> ((string \<times> json) list, string) result" where
  "json_field k v =
     (case json_get k v of
        Some (JObject m) \<Rightarrow> Ok m
      | Some _ \<Rightarrow> Err ''invalid type''
      | None \<Rightarrow> Err (''missing field `'' @ k @ ''`''))"

definition signed_head_from_json ::
  "(string \<Rightarrow> (cid, string) result) \<Rightarrow> (string \<Rightarrow> (bytes, string) result) \<Rightarrow> json \<Rightarrow> (signed_head, string) result" where
  "signed_head_from_json cid_from_str b64_decode v =
     bind_res (bind_res (json_field ''head'' v) (from_map_to_cid cid_from_str)) (\<lambda>h.
     bind_res (bind_res (json_field ''sig'' v) (from_map_to_bytes b64_decode)) (\<lambda>s.
     bind_res (bind_res (json_field ''pubkey'' v) (from_map_to_bytes b64_decode)) (\<lambda>k.
       Ok \<lparr>sh_head = h, sh_sig = s, sh_pubkey = k\<rparr>)))"

fun to_reply :: "('a \<Rightarrow> provider_reply) \<Rightarrow> ('a, provider_error) result \<Rightarrow> provider_reply" where
  "to_reply f (Ok x) = f x"
| "to_reply f (Err e) = (case provider_error_response e of (status, text) \<Rightarrow> ErrorReply status text)"
| "to_reply f Panic = Dropped"

text \<open>The two routes; the second one takes one segment of a path, which is not empty.\<close>

definition router ::
  "'k head_ops \<Rightarrow> ('d, string) db_ops \<Rightarrow> (cid \<Rightarrow> string) \<Rightarrow> (bytes \<Rightarrow> string) \<Rightarrow> (string \<Rightarrow> (cid, string) result) \<Rightarrow>
   'd provider \<Rightarrow> string \<Rightarrow> provider_reply" where
  "router ho db cid_to_string b64_encode cid_from_str p path =
     (if path = ''/head'' then to_reply (\<lambda>sh. HeadReply (signed_head_to_json cid_to_string b64_encode sh)) (head_handler ho p)
      else if path \<noteq> [] \<and> hd path = CHR ''/'' \<and> tl path \<noteq> [] \<and> CHR ''/'' \<notin> set (tl path)
        then to_reply BlockReply (get_block_handler db cid_from_str (tl path) p)
      else NoRoute)"

section \<open>Announcements\<close>

text \<open>
  \<open>deliver\<close> is the network service's end of the command channel: an error when it is closed, and
  what arrives on the one-shot channel, \<open>None\<close> when its sender was dropped.
\<close>

definition gossip_announce ::
  "('f network_command \<Rightarrow> (reply option, string) result) \<Rightarrow> peer_id \<Rightarrow> bytes \<Rightarrow> (unit, string) result" where
  "gossip_announce deliver peer data =
     bind_res (deliver (GossipsubMessage peer (GmPublish ''indexer/ingest/mainnet'' data 0))) (\<lambda>answer.
       case answer of
         Some (RMessageId (Ok _)) \<Rightarrow> Ok ()
       | Some (RMessageId (Err e)) \<Rightarrow> Err e
       | _ \<Rightarrow> Err ''channel closed'')"

text \<open>An error of the indexer is only logged; the request is what is returned.\<close>

definition http_announce :: "'d provider_engine \<Rightarrow> bytes \<Rightarrow> string \<times> bytes" where
  "http_announce en data = (en_indexer_url en @ ''/ingest/announce'', data)"

section \<open>Runs\<close>

text \<open>What the engine meets while it handles one command: the block store, the listeners, the id it
  draws and the outcome of gossiping.\<close>

record 'm surroundings =
  sr_store :: 'm
  sr_listeners :: "(multiaddr list, string) result"
  sr_rand :: nat
  sr_gossip :: "bytes \<Rightarrow> (unit, string) result"

fun provider_run ::
  "('m, string) db_ops \<Rightarrow> string ipld_ops \<Rightarrow> ('d, string) db_ops \<Rightarrow> 'd kv_ops \<Rightarrow> ad_ops \<Rightarrow> msg_ops \<Rightarrow> string \<Rightarrow> string \<Rightarrow> domain_proto list \<Rightarrow>
   (provider_command \<times> 'm surroundings) list \<Rightarrow> 'd provider \<Rightarrow> ((announced, string) result list \<times> 'd provider) option" where
  "provider_run mdb ip db kv ao mo peer_id addr domain [] p = Some ([], p)"
| "provider_run mdb ip db kv ao mo peer_id addr domain ((cmd, x) # rest) p =
     (case provider_step mdb ip (sr_store x) db kv ao mo (sr_gossip x) peer_id addr domain (sr_listeners x) (sr_rand x) cmd p of
        None \<Rightarrow> None
      | Some (Panic, p1) \<Rightarrow> Some ([Panic], p1)
      | Some (r, p1) \<Rightarrow>
          map_option (\<lambda>(rs, q). (r # rs, q)) (provider_run mdb ip db kv ao mo peer_id addr domain rest p1))"

section \<open>A typed store\<close>

fun is_bytes :: "ipld \<Rightarrow> bool" where
  "is_bytes (IpldBytes b) = True"
| "is_bytes _ = False"

definition typed_ad :: "advertisement \<Rightarrow> bool" where
  "typed_ad ad \<longleftrightarrow> is_bytes (Signature ad) \<and> is_bytes (ContextID ad) \<and> is_bytes (Metadata ad)"

text \<open>
  The advertisements that are reached from a head, newest first. Every link leads to a block of
  the type that it is read as: \<open>PreviousID\<close> to an advertisement, \<open>Entries\<close> and \<open>Next\<close> to entry chunks,
  whose entries are bytes.
\<close>

fun ad_chain :: "('d, string) db_ops \<Rightarrow> ad_ops \<Rightarrow> 'd \<Rightarrow> cid option \<Rightarrow> advertisement list \<Rightarrow> bool" where
  "ad_chain db ao d h [] \<longleftrightarrow> h = None"
| "ad_chain db ao d h (ad # ads) \<longleftrightarrow>
     (\<exists>c bs prev chs. h = Some c \<and> db_get db d c = Ok (Some bs) \<and> ad_to_vec ao ad = Ok bs \<and> typed_ad ad \<and>
        chunk_chain db ao d (Entries ad) chs \<and> (\<forall>e \<in> set (concat chs). is_bytes e) \<and>
        PreviousID ad = map_option IpldLink prev \<and> ad_chain db ao d prev ads)"

lemma ad_chain_extends: "ad_chain db ao d h ads \<Longrightarrow> extends db d d' \<Longrightarrow> ad_chain db ao d' h ads"
proof (induction ads arbitrary: h)
  case (Cons ad ads)
  then obtain c bs prev chs where "h = Some c" "db_get db d c = Ok (Some bs)" "ad_to_vec ao ad = Ok bs" "typed_ad ad"
    "chunk_chain db ao d (Entries ad) chs" "\<forall>e \<in> set (concat chs). is_bytes e" "PreviousID ad = map_option IpldLink prev"
    "ad_chain db ao d prev ads" by auto
  with Cons.IH [of prev] Cons.prems(2) chunk_chain_extends [of db ao d "Entries ad" chs d'] show ?case
    by (auto simp: extends_def)
qed simp

lemma sign_typed: "sign ao ad = Ok sig \<Longrightarrow> is_bytes (Metadata ad)"
  by (cases "Metadata ad") (auto simp: sign_def sig_payload_def bind_res_Ok_iff)

text \<open>What one command leaves: the blocks that were there, and the head with its chain.\<close>

lemma add_chunks_keeps:
  assumes "provider_laws db kv ao"
  shows "addressed db ao (pv_store p) \<Longrightarrow> add_chunks db ao chs i p = (r, p') \<Longrightarrow> r \<noteq> Panic \<Longrightarrow>
     hm_get (pv_temp_ads p) i = Some ad \<Longrightarrow> chunk_chain db ao (pv_store p) (Entries ad) done' \<Longrightarrow>
     addressed db ao (pv_store p') \<and> extends db (pv_store p) (pv_store p') \<and> pv_head p' = pv_head p"
proof (induction chs arbitrary: p ad done')
  case (Cons es chs)
  show ?case
  proof (cases "entries_to_vec ao es")
    case (Ok bs)
    obtain r1 p1 where call: "add_chunk db ao bs i p = (r1, p1)" by (cases "add_chunk db ao bs i p")
    then obtain u where r1: "r1 = Ok u" using Cons.prems(2,3) Ok by (cases r1) auto
    note st = add_chunk_ok [OF assms Cons.prems(1) Ok call [unfolded r1] Cons.prems(4,5)]
    then obtain e where e: "hm_get (pv_temp_ads p1) i = Some (ad\<lparr>Entries := e\<rparr>)" "chunk_chain db ao (pv_store p1) e (es # done')" by blast
    have rest: "add_chunks db ao chs i p1 = (r, p')" using Cons.prems(2) Ok call r1 by simp
    have "chunk_chain db ao (pv_store p1) (Entries (ad\<lparr>Entries := e\<rparr>)) (es # done')" using e(2) by simp
    from Cons.IH [OF st(2) rest Cons.prems(3) e(1) this] st(3) extends_trans [OF st(4)] show ?thesis by auto
  qed (use Cons.prems in auto)
qed simp

lemma publish_local_err_keeps:
  assumes "provider_laws db kv ao" and "addressed db ao (pv_store p)"
    and "publish_local mdb ip store db kv ao peer_id addr las rand root size' p = Some (Err m, p')"
  shows "addressed db ao (pv_store p') \<and> extends db (pv_store p) (pv_store p') \<and> pv_head p' = pv_head p"
proof (cases las)
  case (Ok ls)
  define ad where "ad = advertisement_new ao root peer_id (addr # map (\<lambda>la. multiaddr_str ao (filter keep_protocol la)) ls) False size'"
  define p1 where "p1 = create_ad rand ad p"
  have p1: "pv_store p1 = pv_store p" "pv_head p1 = pv_head p" "hm_get (pv_temp_ads p1) rand = Some ad" "Entries ad = None"
    by (simp_all add: p1_def create_ad_def ad_def advertisement_new_def)
  note run = assms(3) [unfolded publish_local_def Ok, simplified, folded ad_def, unfolded Let_def, folded p1_def]
  show ?thesis
  proof (cases "dag_traversal mdb ip store root")
    case (Some t)
    show ?thesis
    proof (cases t)
      case (Ok dag)
      let ?chs = "chunks MAX_ENTRIES (map (\<lambda>b. IpldBytes (cid_hash ao (fst b))) dag)"
      obtain r p2 where add: "add_chunks db ao ?chs rand p1 = (r, p2)" by (cases "add_chunks db ao ?chs rand p1")
      with run Some Ok have "r = Err m" "p' = p2" by (cases r; auto split: prod.splits result.splits)+
      with add_chunks_keeps [OF assms(1) _ add, of ad "[]"] assms(2) p1 show ?thesis by simp
    qed (use run Some p1 assms(2) in auto)
  qed (use run in simp)
qed (use assms in \<open>auto simp: publish_local_def\<close>)

text \<open>The roots of the commands that published, newest first, as context ids.\<close>

fun published :: "ad_ops \<Rightarrow> (provider_command \<times> 'm surroundings) list \<Rightarrow> (announced, string) result list \<Rightarrow> ipld list" where
  "published ao ((PutCommand context_id size', x) # cmds) (r # rs) =
     published ao cmds rs @
       (case (r, cid_try_from ao context_id) of
          (Ok (NotPublished e), _) \<Rightarrow> []
        | (Ok _, Some c) \<Rightarrow> [IpldBytes c]
        | _ \<Rightarrow> [])"
| "published ao ((RemoveCommand context_id, x) # cmds) (r # rs) = published ao cmds rs"
| "published ao _ _ = []"

lemma provider_step_chain:
  assumes laws: "provider_laws db kv ao" and d: "addressed db ao (pv_store p)"
    and chain: "ad_chain db ao (pv_store p) (pv_head p) ads"
    and fin: "finite {c. \<exists>data. db_get mdb store c = Ok (Some data)}"
    and run: "provider_step mdb ip store db kv ao mo gossip peer_id addr domain las rand cmd p = Some (r, p')" and r: "r \<noteq> Panic"
  shows "addressed db ao (pv_store p') \<and>
    (\<exists>new. ad_chain db ao (pv_store p') (pv_head p') (new @ ads) \<and> map ContextID new = published ao [(cmd, x)] [r])"
proof -
  obtain context_id size' c where cmd: "cmd = PutCommand context_id size'" "cid_try_from ao context_id = Some c"
    using run r by (cases cmd) (auto simp: provider_step_def provider_put_def split: option.splits)
  let ?pub = "publish_local mdb ip store db kv ao peer_id addr las rand c size' p"
  obtain q where pub: "?pub = Some (q, p')"
    using run cmd by (cases ?pub) (auto simp: provider_step_def provider_put_def split: result.splits)
  show ?thesis
  proof (cases q)
    case (Err e)
    with run cmd pub have "r = Ok (NotPublished e)" by (simp add: provider_step_def provider_put_def)
    with publish_local_err_keeps [OF laws d pub [unfolded Err]] ad_chain_extends [OF chain] cmd show ?thesis
      by (auto intro!: exI [of _ "[]"])
  next
    case Panic
    with run cmd pub r show ?thesis by (simp add: provider_step_def provider_put_def)
  next
    case (Ok u)
    with run cmd pub r have r': "\<exists>a. r = Ok a \<and> (\<forall>e. a \<noteq> NotPublished e)"
      by (auto simp: provider_step_def provider_put_def split: result.splits)
    from publish_local_ok [OF laws d fin pub [unfolded Ok]]
    obtain h bs ad sig chs where ok: "pv_head p' = Some h" "db_get db (pv_store p') h = Ok (Some bs)" "ad_to_vec ao ad = Ok bs"
      "PreviousID ad = map_option IpldLink (pv_head p)" "ContextID ad = IpldBytes c"
      "sign ao (ad\<lparr>Signature := IpldBytes []\<rparr>) = Ok sig" "Signature ad = IpldBytes sig"
      "chunk_chain db ao (pv_store p') (Entries ad) chs" "set (concat chs) = {IpldBytes (cid_hash ao y) | y. reachable mdb ip store c y}"
      "addressed db ao (pv_store p')" "extends db (pv_store p) (pv_store p')" by blast
    have "typed_ad ad" using ok(5,7) sign_typed [OF ok(6)] by (simp add: typed_ad_def)
    moreover have "\<forall>e \<in> set (concat chs). is_bytes e" unfolding ok(9) by auto
    ultimately have "ad_chain db ao (pv_store p') (pv_head p') (ad # ads)"
      using ok(1-4,8) ad_chain_extends [OF chain ok(11)] by auto
    moreover have "published ao [(cmd, x)] [r] = [IpldBytes c]" using r' cmd by (auto split: announced.splits)
    ultimately show ?thesis using ok(5,10) by (intro conjI exI [of _ "[ad]"]) auto
  qed
qed

lemma provider_step_published:
  assumes "provider_step mdb ip store db kv ao mo gossip peer_id addr domain las rand (PutCommand context_id n) p = Some (Ok a, p')"
    and "cid_try_from ao context_id = Some c" and "\<forall>e. a \<noteq> NotPublished e"
  obtains u where "publish_local mdb ip store db kv ao peer_id addr las rand c n p = Some (Ok u, p')"
proof -
  obtain q p1 where pub: "publish_local mdb ip store db kv ao peer_id addr las rand c n p = Some (q, p1)"
    using assms(1,2) by (auto simp: provider_step_def provider_put_def)
  show thesis
    by (rule that [of "()"], cases q) (use pub assms in \<open>auto simp: provider_step_def provider_put_def split: result.splits\<close>)
qed

lemma published_Cons: "published ao ((cmd, x) # cmds) (r # rs) = published ao cmds rs @ published ao [(cmd, y)] [r]"
  by (cases cmd) (auto split: option.splits result.splits announced.splits)

text \<open>
  C21. The store of the index provider is typed. Whatever commands the engine handles, with
  traversals, listeners and gossip that may fail, as long as it does not panic: starting from the
  head, every link leads to a stored block of the type it is read as, and the advertisements that
  are reached are, newest first, one for each command that published, followed by those that
  were there before.\<close>

theorem provider_run_typed:
  assumes "provider_laws db kv ao" and "addressed db ao (pv_store p)" and "ad_chain db ao (pv_store p) (pv_head p) ads"
    and "\<forall>(cmd, x) \<in> set cmds. finite {c. \<exists>data. db_get mdb (sr_store x) c = Ok (Some data)}"
    and "provider_run mdb ip db kv ao mo peer_id addr domain cmds p = Some (rs, p')" and "Panic \<notin> set rs"
  shows "addressed db ao (pv_store p') \<and>
    (\<exists>new. ad_chain db ao (pv_store p') (pv_head p') (new @ ads) \<and> map ContextID new = published ao cmds rs)"
  using assms(2-)
proof (induction cmds arbitrary: p ads rs)
  case Nil
  then show ?case by (auto intro!: exI [of _ "[]"])
next
  case (Cons cx cmds)
  obtain cmd x where cx: "cx = (cmd, x)" by (cases cx)
  let ?step = "provider_step mdb ip (sr_store x) db kv ao mo (sr_gossip x) peer_id addr domain (sr_listeners x) (sr_rand x) cmd p"
  obtain r p1 where step: "?step = Some (r, p1)" using Cons.prems(4) cx by (cases ?step) auto
  have r: "r \<noteq> Panic" using Cons.prems(4,5) cx step by (cases r) auto
  then obtain rs1 where rest: "provider_run mdb ip db kv ao mo peer_id addr domain cmds p1 = Some (rs1, p')" "rs = r # rs1"
    using Cons.prems(4) cx step by (cases r) auto
  have fin: "finite {c. \<exists>data. db_get mdb (sr_store x) c = Ok (Some data)}" using Cons.prems(3) cx by simp
  obtain new where new: "addressed db ao (pv_store p1)" "ad_chain db ao (pv_store p1) (pv_head p1) (new @ ads)"
    "map ContextID new = published ao [(cmd, x)] [r]"
    using provider_step_chain [OF assms(1) Cons.prems(1,2) fin step r, of x] by blast
  have "\<forall>(cmd, x) \<in> set cmds. finite {c. \<exists>data. db_get mdb (sr_store x) c = Ok (Some data)}" "Panic \<notin> set rs1"
    using Cons.prems(3,5) rest(2) by auto
  from Cons.IH [OF new(1,2) this(1) rest(1) this(2)] obtain more where
    "addressed db ao (pv_store p')" "ad_chain db ao (pv_store p') (pv_head p') (more @ new @ ads)"
    "map ContextID more = published ao cmds rs1" by blast
  with new(3) show ?case
    unfolding cx rest(2) published_Cons [of ao cmd x cmds r rs1 x] by (intro conjI exI [of _ "more @ new"]) auto
qed

definition demo_mo :: msg_ops where
  "demo_mo = \<lparr>cid_dag_cbor = (\<lambda>c. []), addrs_to_vec = (\<lambda>as. []), bytes_dag_cbor = (\<lambda>b. [])\<rparr>"

definition demo_empty :: "((cid \<times> bytes) list \<times> bytes option) provider" where
  "demo_empty = \<lparr>pv_head = None, pv_store = ([], None), pv_temp_ads = []\<rparr>"

definition demo_sr :: "(cid \<times> bytes) list surroundings" where
  "demo_sr = \<lparr>sr_store = mem_graph, sr_listeners = Ok [], sr_rand = 2, sr_gossip = (\<lambda>m. Ok ())\<rparr>"

theorem provider_run_typed_witness:
  "\<exists>rs p' ad. provider_run mem_db mem_ipld demo_pdb demo_kv demo_ao demo_mo ''peer'' ''/dns/node'' []
       [(PutCommand [3] 7, demo_sr), (PutCommand [3] 7, demo_sr\<lparr>sr_listeners := Err ''closed''\<rparr>)] demo_empty = Some (rs, p') \<and>
     rs ! 1 = Ok (NotPublished ''closed'') \<and> ContextID ad = IpldBytes [3] \<and> ad_chain demo_pdb demo_ao (pv_store p') (pv_head p') [ad]"
proof -
  let ?cmds = "[(PutCommand [3] 7, demo_sr), (PutCommand [3] 7, demo_sr\<lparr>sr_listeners := Err ''closed''\<rparr>)]"
  obtain p' where pub: "publish_local mem_db mem_ipld mem_graph demo_pdb demo_kv demo_ao ''peer'' ''/dns/node'' (Ok []) 2 [3] 7
      demo_empty = Some (Ok (), p')" using demo_publish by blast
  have d: "addressed demo_pdb demo_ao (pv_store demo_empty)" by (simp add: addressed_def demo_empty_def demo_pdb_def)
  from publish_local_ok [OF demo_provider_laws d mem_db_finite pub] obtain c where c: "pv_head p' = Some c" by blast
  define rs where "rs = [Ok (Gossiped [131]), Ok (NotPublished ''closed'') :: (announced, string) result]"
  have step1: "provider_put mem_db mem_ipld (sr_store demo_sr) demo_pdb demo_kv demo_ao demo_mo (sr_gossip demo_sr) ''peer'' ''/dns/node'' []
      (sr_listeners demo_sr) (sr_rand demo_sr) [3] 7 demo_empty = Some (Ok (Gossiped [131]), p')"
    using pub c by (simp add: provider_put_def demo_sr_def demo_mo_def demo_ao_def create_announce_message_def marshal_cbor_def)
  have step2: "provider_put mem_db mem_ipld m demo_pdb demo_kv demo_ao demo_mo g ''peer'' ''/dns/node'' []
      (Err ''closed'') r [3] 7 p' = Some (Ok (NotPublished ''closed''), p')" for m g r
    by (simp add: provider_put_def publish_local_def demo_ao_def)
  have run: "provider_run mem_db mem_ipld demo_pdb demo_kv demo_ao demo_mo ''peer'' ''/dns/node'' [] ?cmds demo_empty = Some (rs, p')"
    by (simp add: provider_step_def step1 step2 rs_def)
  have "\<forall>(cmd, x) \<in> set ?cmds. finite {c. \<exists>data. db_get mem_db (sr_store x) c = Ok (Some data)}"
    using mem_db_finite by (simp del: mem_db_simps)
  moreover have "ad_chain demo_pdb demo_ao (pv_store demo_empty) (pv_head demo_empty) []" by (simp add: demo_empty_def)
  moreover have "Panic \<notin> set rs" by (simp add: rs_def)
  ultimately obtain new where new: "ad_chain demo_pdb demo_ao (pv_store p') (pv_head p') (new @ [])"
    "map ContextID new = published demo_ao ?cmds rs"
    using provider_run_typed [OF demo_provider_laws d _ _ run, of "[]"] by blast
  then obtain ad where "new = [ad]" "ContextID ad = IpldBytes [3]" by (auto simp: rs_def demo_ao_def)
  with new run show ?thesis by (auto simp: rs_def)
qed

section \<open>What an indexer reads\<close>

text \<open>
  The laws of keys and texts: a signature verifies under the key it was made with, base64 and
  content ids can be read back, and the text of a content id is one segment of a path.
\<close>

definition head_laws ::
  "'k head_ops \<Rightarrow> 'k \<Rightarrow> (cid \<Rightarrow> string) \<Rightarrow> (string \<Rightarrow> (cid, string) result) \<Rightarrow> (bytes \<Rightarrow> string) \<Rightarrow> (string \<Rightarrow> (bytes, string) result) \<Rightarrow> bool" where
  "head_laws ho pk cid_to_string cid_from_str b64_encode b64_decode \<longleftrightarrow>
     (\<forall>m. \<exists>sig. key_sign ho m = Ok sig \<and> pk_verify ho pk m sig) \<and> pk_decode ho (key_public ho) = Some pk \<and>
     (\<forall>c. cid_from_str (cid_to_string c) = Ok c) \<and> (\<forall>b. b64_decode (b64_encode b) = Ok b) \<and>
     (\<forall>c. cid_to_string c \<noteq> [] \<and> CHR ''/'' \<notin> set (cid_to_string c) \<and> cid_to_string c \<noteq> ''head'')"

lemma signed_head_json_roundtrip:
  assumes "head_laws ho pk cid_to_string cid_from_str b64_encode b64_decode"
  shows "signed_head_from_json cid_from_str b64_decode (signed_head_to_json cid_to_string b64_encode sh) = Ok sh"
  using assms by (simp add: head_laws_def signed_head_from_json_def signed_head_to_json_def from_map_to_cid_def
      from_map_to_bytes_def from_cid_to_map_def from_bytes_to_map_def)

lemma published_served:
  assumes "provider_laws db kv ao" and "addressed db ao (pv_store p)"
    and "finite {c. \<exists>data. db_get mdb store c = Ok (Some data)}"
    and "publish_local mdb ip store db kv ao peer_id server_address listeners rand root file_size p = Some (Ok u, p')"
    and "head_laws ho pk cid_to_string cid_from_str b64_encode b64_decode"
  shows "\<exists>v sh c bs ad chs. router ho db cid_to_string b64_encode cid_from_str (provider_clone p0 p') ''/head'' = HeadReply v \<and>
    signed_head_from_json cid_from_str b64_decode v = Ok sh \<and> signed_head_open ho sh = Ok (pk, c) \<and>
    router ho db cid_to_string b64_encode cid_from_str (provider_clone p0 p') (''/'' @ cid_to_string c) = BlockReply bs \<and>
    ad_to_vec ao ad = Ok bs \<and> ContextID ad = IpldBytes root \<and> chunk_chain db ao (pv_store p') (Entries ad) chs \<and>
    set (concat chs) = {IpldBytes (cid_hash ao x) | x. reachable mdb ip store root x}"
proof -
  from publish_local_ok [OF assms(1-4)] obtain c bs ad chs where ok: "pv_head p' = Some c" "db_get db (pv_store p') c = Ok (Some bs)"
    "ad_to_vec ao ad = Ok bs" "ContextID ad = IpldBytes root" "chunk_chain db ao (pv_store p') (Entries ad) chs"
    "set (concat chs) = {IpldBytes (cid_hash ao x) | x. reachable mdb ip store root x}" by blast
  from assms(5) obtain sig where sig: "key_sign ho c = Ok sig" "pk_verify ho pk c sig" unfolding head_laws_def by blast
  define sh where "sh = \<lparr>sh_head = c, sh_sig = sig, sh_pubkey = key_public ho\<rparr>"
  have "router ho db cid_to_string b64_encode cid_from_str (provider_clone p0 p') ''/head'' =
      HeadReply (signed_head_to_json cid_to_string b64_encode sh)"
    using ok(1) sig(1) by (simp add: router_def provider_clone_def head_handler_def signed_head_new_def sh_def)
  moreover have "signed_head_open ho sh = Ok (pk, c)"
    using sig(2) assms(5) by (simp add: signed_head_open_def sh_def head_laws_def)
  moreover have "router ho db cid_to_string b64_encode cid_from_str (provider_clone p0 p') (''/'' @ cid_to_string c) = BlockReply bs"
    using ok(2) assms(5) by (simp add: router_def provider_clone_def get_block_handler_def head_laws_def)
  ultimately show ?thesis using signed_head_json_roundtrip [OF assms(5)] ok(3-6) by blast
qed

text \<open>
  C22. What is published can be fetched. After a publication has succeeded, the router, which
  was given its clone of the provider at any earlier time, answers \<open>/head\<close> with a JSON text that reads back as a
  signed head which opens, under the key of this node, to a content id, and answers the path of that content
  id with the bytes of the advertisement of the content that was published.\<close>

theorem published_head_is_served:
  assumes "provider_laws db kv ao" and "addressed db ao (pv_store p)"
    and "finite {c. \<exists>data. db_get mdb store c = Ok (Some data)}"
    and "publish_local mdb ip store db kv ao peer_id server_address listeners rand root file_size p = Some (Ok u, p')"
    and "head_laws ho pk cid_to_string cid_from_str b64_encode b64_decode"
  shows "\<exists>v sh c bs ad. router ho db cid_to_string b64_encode cid_from_str (provider_clone p0 p') ''/head'' = HeadReply v \<and>
    signed_head_from_json cid_from_str b64_decode v = Ok sh \<and> signed_head_open ho sh = Ok (pk, c) \<and>
    router ho db cid_to_string b64_encode cid_from_str (provider_clone p0 p') (''/'' @ cid_to_string c) = BlockReply bs \<and>
    ad_to_vec ao ad = Ok bs \<and> ContextID ad = IpldBytes root"
  using published_served [OF assms, of p0] by blast

text \<open>A key that signs by appending a byte, and texts that are the bytes as characters of a small alphabet.\<close>

fun demo_unary :: "bytes \<Rightarrow> string" where
  "demo_unary [] = ''z''"
| "demo_unary (b # bs) = replicate (unat b) CHR ''a'' @ CHR ''b'' # demo_unary bs"

fun demo_read :: "8 word \<Rightarrow> string \<Rightarrow> (bytes, string) result" where
  "demo_read n [] = Err ''end''"
| "demo_read n (ch # cs) =
     (if ch = CHR ''z'' then Ok [] else if ch = CHR ''b'' then bind_res (demo_read 0 cs) (\<lambda>bs. Ok (n # bs)) else demo_read (n + 1) cs)"

definition demo_head_ops :: "bytes head_ops" where
  "demo_head_ops = \<lparr>key_sign = (\<lambda>m. Ok (m @ [9])), key_public = [7], pk_decode = Some, pk_verify = (\<lambda>k m s. s = m @ [9])\<rparr>"

lemma demo_read_replicate: "demo_read n (replicate k CHR ''a'' @ cs) = demo_read (n + of_nat k) cs"
  by (induction k arbitrary: n) (simp_all add: add.assoc)

lemma demo_read_unary: "demo_read 0 (demo_unary bs) = Ok bs"
  by (induction bs) (simp_all add: demo_read_replicate)

lemma demo_head_laws: "head_laws demo_head_ops [7] demo_unary (demo_read 0) demo_unary (demo_read 0)"
proof -
  have "demo_unary c \<noteq> [] \<and> CHR ''/'' \<notin> set (demo_unary c) \<and> CHR ''h'' \<notin> set (demo_unary c)" for c
    by (induction c) auto
  then have "demo_unary c \<noteq> [] \<and> CHR ''/'' \<notin> set (demo_unary c) \<and> demo_unary c \<noteq> ''head''" for c
    by (metis list.set_intros(1))
  then show ?thesis by (simp add: head_laws_def demo_read_unary demo_head_ops_def)
qed

theorem published_head_is_served_witness:
  "\<exists>p' v sh c. publish_local mem_db mem_ipld mem_graph demo_pdb demo_kv demo_ao ''peer'' ''/dns/node'' (Ok []) 2 [3] 7
       demo_provider0 = Some (Ok (), p') \<and>
     router demo_head_ops demo_pdb demo_unary demo_unary (demo_read 0) (provider_clone demo_provider0 p') ''/head'' = HeadReply v \<and>
     signed_head_from_json (demo_read 0) (demo_read 0) v = Ok sh \<and> signed_head_open demo_head_ops sh = Ok ([7], c) \<and>
     router demo_head_ops demo_pdb demo_unary demo_unary (demo_read 0) (provider_clone demo_provider0 p') (''/'' @ demo_unary c) =
       BlockReply [11]"
proof -
  obtain p' where run: "publish_local mem_db mem_ipld mem_graph demo_pdb demo_kv demo_ao ''peer'' ''/dns/node'' (Ok []) 2 [3] 7
      demo_provider0 = Some (Ok (), p')" using demo_publish by blast
  have bytes: "ad_to_vec demo_ao ad = Ok [11]" for ad by (simp add: demo_ao_def)
  from published_head_is_served [OF demo_provider_laws demo_addressed mem_db_finite run demo_head_laws, of demo_provider0]
  obtain v sh c bs ad where
    "router demo_head_ops demo_pdb demo_unary demo_unary (demo_read 0) (provider_clone demo_provider0 p') ''/head'' = HeadReply v"
    "signed_head_from_json (demo_read 0) (demo_read 0) v = Ok sh" "signed_head_open demo_head_ops sh = Ok ([7], c)"
    "router demo_head_ops demo_pdb demo_unary demo_unary (demo_read 0) (provider_clone demo_provider0 p') (''/'' @ demo_unary c) =
       BlockReply bs" "ad_to_vec demo_ao ad = Ok bs" by (elim exE conjE)
  with bytes [of ad] run show ?thesis by (intro exI [of _ p'] exI [of _ v] exI [of _ sh] exI [of _ c]) simp
qed

end
