(* ===== verification/Upload.thy ===== *)
theory Upload
  imports Node_Interface Index_Engine
begin

text \<open>
  The way of an upload through a node: the RPC service stores the blocks, the network service takes the content
  id into its summary, the index provider publishes an advertisement, and its router serves it.
\<close>

text \<open>
  C8. Content that was put on a node is announced and can be found. When storing it succeeded
  and the index provider handled the command it was sent without an error, the network service has the root in the
  summary that it shares with its peers, and an indexer that asks the node's router for the head gets a signed head that
  opens to an advertisement of this root, whose chunks list exactly the multihashes of the blocks under
  it in the store of the node.\<close>

theorem uploaded_content_is_advertised:
  assumes "alive ch" and "lawful_filter fo"
    and "put_car (node_env (service_deliver ops fo alive True) ch s env) car n d = (Ok cids, d1, cmds)"
    and "ProviderPut c n' \<in> set cmds"
    and "provider_step (re_db env) (re_ipld env) d1 db kv ao mo gossip peer_id addr domain las rand (PutCommand c n') p = Some (Ok a, p')"
    and "\<forall>e. a \<noteq> NotPublished e" and "cid_try_from ao c = Some c"
    and "provider_laws db kv ao" and "addressed db ao (pv_store p)"
    and "finite {c. \<exists>data. db_get (re_db env) d1 c = Ok (Some data)}"
    and "head_laws ho pk cid_to_string cid_from_str b64_encode b64_decode"
  shows "c = hd cids \<and> n' = n \<and>
    summary_contains fo c (us_cached_content (carry_out (service_deliver ops fo alive True) ch cmds s)) \<and>
    (\<exists>v sh h bs ad chs. router ho db cid_to_string b64_encode cid_from_str (provider_clone p p') ''/head'' = HeadReply v \<and>
       signed_head_from_json cid_from_str b64_decode v = Ok sh \<and> signed_head_open ho sh = Ok (pk, h) \<and>
       router ho db cid_to_string b64_encode cid_from_str (provider_clone p p') (''/'' @ cid_to_string h) = BlockReply bs \<and>
       ad_to_vec ao ad = Ok bs \<and> ContextID ad = IpldBytes c \<and> chunk_chain db ao (pv_store p') (Entries ad) chs \<and>
       set (concat chs) = {IpldBytes (cid_hash ao x) | x. reachable (re_db env) (re_ipld env) d1 c x})"
proof -
  obtain root rest where put: "cids = root # rest" "set cmds \<subseteq> {NetPut root, ProviderPut root n}"
    "summary_contains fo root (us_cached_content (carry_out (service_deliver ops fo alive True) ch cmds s))"
    using service_channel.put_announces_root [OF _ assms(3)] assms(1,2) by force
  with assms(4) have c: "c = root" "n' = n" by auto
  let ?pub = "publish_local (re_db env) (re_ipld env) d1 db kv ao peer_id addr las rand c n' p"
  obtain u where "?pub = Some (Ok u, p')"
    by (rule provider_step_published [OF assms(5,7,6)])
  from published_served [OF assms(8-10) this assms(11), of p] put c show ?thesis by simp
qed

text \<open>A put on an empty node whose service filters exactly.\<close>

theorem uploaded_content_is_advertised_witness:
  "\<exists>p' v sh h. summary_contains exact_filter [3] (us_cached_content
       (carry_out (service_deliver count_ops exact_filter (\<lambda>_. True) True) 1 [NetPut [3], ProviderPut [3] 1] count_service)) \<and>
     router demo_head_ops demo_pdb demo_unary demo_unary (demo_read 0) (provider_clone demo_empty p') ''/head'' = HeadReply v \<and>
     signed_head_from_json (demo_read 0) (demo_read 0) v = Ok sh \<and> signed_head_open demo_head_ops sh = Ok ([7], h) \<and>
     router demo_head_ops demo_pdb demo_unary demo_unary (demo_read 0) (provider_clone demo_empty p') (''/'' @ demo_unary h) =
       BlockReply [11]"
proof -
  let ?env = "node_env (service_deliver count_ops exact_filter (\<lambda>_. True) True) 1 count_service demo_rpc"
  have leaf: "dag_traversal mem_db mem_ipld [([3], [])] [3] = Some (Ok [([3], [])])"
    by (simp add: dag_traversal_def dag_loop.simps picked_def set_add_def)
  obtain p' where pub: "publish_local mem_db mem_ipld [([3], [])] demo_pdb demo_kv demo_ao ''peer'' ''/dns/node'' (Ok []) 2 [3] 1
      demo_empty = Some (Ok (), p')" using demo_publish_at [OF leaf] by blast
  have d: "addressed demo_pdb demo_ao (pv_store demo_empty)" by (simp add: addressed_def demo_empty_def demo_pdb_def)
  have keep: "lawful_filter exact_filter" by (simp add: lawful_filter_def exact_filter_def)
  have put: "put_car ?env [3] 1 [] = (Ok [[3]], [([3], [])], [NetPut [3], ProviderPut [3] 1])"
    using service_channel.net_put_reply [of "\<lambda>_. True" 1 exact_filter count_ops count_service demo_rpc] keep
    by (simp add: put_car_def provide_cid_def) (simp add: node_env_def demo_rpc_def provide_cid_def)
  have cid: "cid_try_from demo_ao [3] = Some [3]" by (simp add: demo_ao_def)
  obtain a where step: "provider_step (re_db demo_rpc) (re_ipld demo_rpc) [([3], [])] demo_pdb demo_kv demo_ao demo_mo
      (\<lambda>m. Ok ()) ''peer'' ''/dns/node'' [] (Ok []) 2 (PutCommand [3] 1) demo_empty = Some (Ok a, p')" "\<forall>e. a \<noteq> NotPublished e"
    using pub cid by (cases "pv_head p'") (simp_all add: provider_step_def provider_put_def create_announce_message_def)
  have fin: "finite {c. \<exists>data. db_get (re_db demo_rpc) [([3], [])] c = Ok (Some data)}"
    using mem_db_finite [of "[([3], [])]"] by (simp del: mem_db_simps)
  have mem: "ProviderPut [3] 1 \<in> set [NetPut [3], ProviderPut [3] 1]" by simp
  note ups = uploaded_content_is_advertised [OF TrueI keep put mem step cid demo_provider_laws d fin demo_head_laws]
  have bytes: "ad_to_vec demo_ao ad = Ok [11]" for ad by (simp add: demo_ao_def)
  from ups show ?thesis
  proof (elim conjE exE)
    fix v sh h bs ad
    assume served: "summary_contains exact_filter [3] (us_cached_content
       (carry_out (service_deliver count_ops exact_filter (\<lambda>_. True) True) 1 [NetPut [3], ProviderPut [3] 1] count_service))"
      "router demo_head_ops demo_pdb demo_unary demo_unary (demo_read 0) (provider_clone demo_empty p') ''/head'' = HeadReply v"
      "signed_head_from_json (demo_read 0) (demo_read 0) v = Ok sh" "signed_head_open demo_head_ops sh = Ok ([7], h)"
      "router demo_head_ops demo_pdb demo_unary demo_unary (demo_read 0) (provider_clone demo_empty p') (''/'' @ demo_unary h) =
         BlockReply bs" "ad_to_vec demo_ao ad = Ok bs"
    from served(6) have "bs = [11]" using bytes [of ad] by simp
    with served(1-5) show ?thesis by (intro exI [of _ p'] exI [of _ v] exI [of _ sh] exI [of _ h] conjI) simp_all
  qed
qed

end
