(* ===== verification/Metrics.thy ===== *)
theory Metrics
  imports Prelude
begin

text \<open>
  The metrics recorders, \<open>ursa-metrics/src/*.rs\<close>: what each event of the swarm and its
  protocols does to the counters, gauges and histograms, and to the table \<open>PEERS\<close> of the
  protocols that identified peers support. The registry of the metrics library is a map from
  a metric and its labels to its value; times are in microseconds.
\<close>

section \<open>Registry\<close>

type_synonym label = "string \<times> string"
type_synonym metric = "string \<times> label list"

record registry =
  mx_counters :: "metric \<Rightarrow> nat"
  mx_gauges :: "metric \<Rightarrow> int"
  mx_histograms :: "(metric \<times> nat) list"
  mx_peers :: "(string, string list) hmap"

definition registry_new :: registry where
  "registry_new = \<lparr>mx_counters = (\<lambda>_. 0), mx_gauges = (\<lambda>_. 0), mx_histograms = [], mx_peers = []\<rparr>"

definition increment_counter :: "string \<Rightarrow> label list \<Rightarrow> registry \<Rightarrow> registry" where
  "increment_counter n ls m = m\<lparr>mx_counters := (mx_counters m)((n, ls) := mx_counters m (n, ls) + 1)\<rparr>"

definition add_gauge :: "string \<Rightarrow> label list \<Rightarrow> int \<Rightarrow> registry \<Rightarrow> registry" where
  "add_gauge n ls d m = m\<lparr>mx_gauges := (mx_gauges m)((n, ls) := mx_gauges m (n, ls) + d)\<rparr>"

definition histogram :: "string \<Rightarrow> label list \<Rightarrow> nat \<Rightarrow> registry \<Rightarrow> registry" where
  "histogram n ls v m = m\<lparr>mx_histograms := mx_histograms m @ [((n, ls), v)]\<rparr>"

section \<open>Recorders\<close>

datatype gossip_event = GossipMessage string | GossipNotSupported string | GossipSubscribed | GossipUnsubscribed

fun record_gossipsub :: "gossip_event \<Rightarrow> registry \<Rightarrow> registry" where
  "record_gossipsub (GossipMessage topic) m = increment_counter ''gossipsub_message_received'' [(''topic'', topic)] m"
| "record_gossipsub (GossipNotSupported peer) m = increment_counter ''gossipsub_peer_not_supported'' [(''peer'', peer)] m"
| "record_gossipsub GossipSubscribed m = m"
| "record_gossipsub GossipUnsubscribed m = m"

datatype id_event = IdentifyReceived string "string list" | IdentifySent | IdentifyError | IdentifyPushed

definition protocol_gauge :: "int \<Rightarrow> string \<Rightarrow> registry \<Rightarrow> registry" where
  "protocol_gauge d protocol m = add_gauge ''identify_supported_protocols'' [(''protocol'', protocol)] d m"

fun record_identify :: "id_event \<Rightarrow> registry \<Rightarrow> registry" where
  "record_identify (IdentifyReceived peer protocols) m =
     (let old = hm_get (mx_peers m) peer;
          m1 = m\<lparr>mx_peers := hm_insert peer protocols (mx_peers m)\<rparr>
      in if old = None then fold (protocol_gauge 1) protocols m1 else m1)"
| "record_identify IdentifySent m = increment_counter ''identify_sent'' [] m"
| "record_identify IdentifyError m = increment_counter ''identify_error'' [] m"
| "record_identify IdentifyPushed m = increment_counter ''identify_pushed'' [] m"

datatype query_result =
    GetRecord "(bool, unit) result"
  | GetClosestPeers "(nat, unit) result"
  | GetProviders "(nat option, unit) result"
  | OtherQuery

datatype inbound_request = FindNode | GetProvider | AddProvider | GetRecordReq | PutRecordReq

datatype kad_event =
    OutboundQueryProgressed query_result nat nat nat "nat option"
  | RoutingUpdated bool "string option" nat
  | InboundRequest inbound_request
  | OtherKad

datatype routing_action = Added | Updated | Evicted

fun action_label :: "routing_action \<Rightarrow> label" where
  "action_label Added = (''action'', ''added'')"
| "action_label Updated = (''action'', ''updated'')"
| "action_label Evicted = (''action'', ''evicted'')"

fun request_label :: "inbound_request \<Rightarrow> label" where
  "request_label FindNode = (''request'', ''find_node'')"
| "request_label GetProvider = (''request'', ''get_providers'')"
| "request_label AddProvider = (''request'', ''add_provider'')"
| "request_label GetRecordReq = (''request'', ''get_record'')"
| "request_label PutRecordReq = (''request'', ''put_record'')"

text \<open>The outcome of a query: a found record, the number of peers or providers, or an error.\<close>

fun record_query :: "query_result \<Rightarrow> registry \<Rightarrow> registry" where
  "record_query (GetRecord (Ok found)) m = (if found then increment_counter ''kad_query_result_get_record_ok'' [] m else m)"
| "record_query (GetRecord _) m = increment_counter ''kad_query_result_get_record_err'' [] m"
| "record_query (GetClosestPeers (Ok n)) m = histogram ''kad_query_result_get_closest_peers_ok'' [] n m"
| "record_query (GetClosestPeers _) m = increment_counter ''kad_query_result_get_closest_peers_err'' [] m"
| "record_query (GetProviders (Ok (Some n))) m = histogram ''kad_query_result_get_providers_ok'' [] n m"
| "record_query (GetProviders (Ok None)) m = m"
| "record_query (GetProviders _) m = increment_counter ''kad_query_result_get_providers_err'' [] m"
| "record_query OtherQuery m = m"

fun ilog2 :: "nat \<Rightarrow> nat" where
  "ilog2 n = (if n < 2 then 0 else 1 + ilog2 (n div 2))"

declare ilog2.simps [simp del]

text \<open>\<open>show\<close> prints the number of the bucket.\<close>

fun record_kad :: "(nat \<Rightarrow> string) \<Rightarrow> kad_event \<Rightarrow> registry \<Rightarrow> registry" where
  "record_kad show_nat (OutboundQueryProgressed result requests successes failures duration) m =
     (let m = histogram ''kad_query_result_num_requests'' [] requests m;
          m = histogram ''kad_query_result_num_success'' [] successes m;
          m = histogram ''kad_query_result_num_failure'' [] failures m;
          m = (case duration of Some d \<Rightarrow> histogram ''kad_query_result_duration'' [] d m | None \<Rightarrow> m)
      in record_query result m)"
| "record_kad show_nat (RoutingUpdated is_new old_peer low) m =
     (let bucket = (''bucket'', show_nat (ilog2 low));
          m = (if old_peer \<noteq> None then increment_counter ''kad_routing_updated'' [action_label Evicted, bucket] m else m)
      in if is_new then increment_counter ''kad_routing_updated'' [action_label Added, bucket] m
         else increment_counter ''kad_routing_updated'' [action_label Updated, bucket] m)"
| "record_kad show_nat (InboundRequest req) m = increment_counter ''kad_inbound_request'' [request_label req] m"
| "record_kad show_nat OtherKad m = m"

datatype ping_failure = PingTimeout | PingUnsupported | PingOther

datatype ping_result = PingPong | PingPing nat | PingErr ping_failure

fun failure_label :: "ping_failure \<Rightarrow> label" where
  "failure_label PingTimeout = (''failure'', ''timeout'')"
| "failure_label PingUnsupported = (''failure'', ''unsupported'')"
| "failure_label PingOther = (''failure'', ''other'')"

fun record_ping :: "ping_result \<Rightarrow> registry \<Rightarrow> registry" where
  "record_ping PingPong m = increment_counter ''ping_pong_received'' [] m"
| "record_ping (PingPing rtt) m = histogram ''ping_rtt'' [] rtt m"
| "record_ping (PingErr f) m = increment_counter ''ping_error'' [failure_label f] m"

datatype relay_event =
    ReservationReqAccepted
  | ReservationReqAcceptFailed
  | ReservationReqDenied
  | ReservationReqDenyFailed
  | ReservationTimedOut
  | CircuitReqReceiveFailed
  | CircuitReqDenied
  | CircuitReqDenyFailed
  | CircuitReqAccepted
  | CircuitReqOutboundConnectFailed
  | CircuitReqAcceptFailed
  | CircuitClosed

fun relay_counter :: "relay_event \<Rightarrow> string" where
  "relay_counter ReservationReqAccepted = ''relay_reservation_req_accepted''"
| "relay_counter ReservationReqAcceptFailed = ''relay_reservation_req_accept_failed''"
| "relay_counter ReservationReqDenied = ''relay_reservation_req_denied''"
| "relay_counter ReservationReqDenyFailed = ''relay_reservation_req_deny_failed''"
| "relay_counter ReservationTimedOut = ''relay_reservation_timed_out''"
| "relay_counter CircuitReqReceiveFailed = ''relay_circuit_req_receive_failed''"
| "relay_counter CircuitReqDenied = ''relay_circuit_req_denied''"
| "relay_counter CircuitReqDenyFailed = ''relay_circuit_req_deny_failed''"
| "relay_counter CircuitReqAccepted = ''relay_circuit_req_accepted''"
| "relay_counter CircuitReqOutboundConnectFailed = ''relay_circuit_req_outbound_connect_failed''"
| "relay_counter CircuitReqAcceptFailed = ''relay_circuit_req_accept_failed''"
| "relay_counter CircuitClosed = ''relay_circuit_closed''"

definition record_relay :: "relay_event \<Rightarrow> registry \<Rightarrow> registry" where
  "record_relay e m = increment_counter (relay_counter e) [] m"

datatype req_res_record = ReqReceived string string string | ResReceived string string | ReqResOther

fun record_request_response :: "req_res_record \<Rightarrow> registry \<Rightarrow> registry" where
  "record_request_response (ReqReceived peer request_id request) m =
     increment_counter ''req-res_request_received'' [(''peer'', peer), (''request_id'', request_id), (''request'', request)]
       (increment_counter ''req-res_total_request_received'' [] m)"
| "record_request_response (ResReceived peer request_id) m =
     increment_counter ''req-res_response_sent'' [(''peer'', peer), (''request_id'', request_id)]
       (increment_counter ''req-res_total_response_sent'' [] m)"
| "record_request_response ReqResOther m = m"

datatype role = Dialer | Listener

fun role_label :: "role \<Rightarrow> label" where
  "role_label Dialer = (''role'', ''dialer'')"
| "role_label Listener = (''role'', ''listener'')"

definition peer_status_label :: "string option \<Rightarrow> label" where
  "peer_status_label peer = (''peer_status'', case peer of Some _ \<Rightarrow> ''known'' | None \<Rightarrow> ''unknown'')"

datatype conn_event =
    SwBehaviour
  | ConnectionEstablished string role nat
  | ConnectionClosed string role nat
  | IncomingConnection
  | IncomingConnectionError string
  | OutgoingConnectionError string "string option"
  | BannedPeer
  | NewListenAddr
  | ExpiredListenAddr
  | ListenerClosed
  | ListenerError
  | Dialing

fun record_swarm :: "conn_event \<Rightarrow> registry \<Rightarrow> registry" where
  "record_swarm SwBehaviour m = m"
| "record_swarm (ConnectionEstablished peer role' num_established) m =
     (let m = (if num_established = 1 then add_gauge ''swarm_connected_peers'' [] 1 m else m)
      in increment_counter ''swarm_connections_established'' [role_label role'] m)"
| "record_swarm (ConnectionClosed peer role' num_established) m =
     (let m = increment_counter ''swarm_connections_closed'' [role_label role'] m
      in if num_established = 0 then
           (let m = add_gauge ''swarm_connected_peers'' [] (- 1) m
            in case hm_get (mx_peers m) peer of
                 Some protocols \<Rightarrow>
                   fold (protocol_gauge (- 1)) protocols (m\<lparr>mx_peers := hm_remove peer (mx_peers m)\<rparr>)
               | None \<Rightarrow> m)
         else m)"
| "record_swarm IncomingConnection m = increment_counter ''swarm_connections_incoming'' [] m"
| "record_swarm (IncomingConnectionError e) m = increment_counter ''swarm_connections_incoming_error'' [(''error'', e)] m"
| "record_swarm (OutgoingConnectionError e peer) m =
     increment_counter ''swarm_outgoing_connection_error'' [(''error'', e), peer_status_label peer] m"
| "record_swarm BannedPeer m = increment_counter ''swarm_connected_to_banned_peer'' [] m"
| "record_swarm NewListenAddr m = increment_counter ''swarm_new_listen_addr'' [] m"
| "record_swarm ExpiredListenAddr m = increment_counter ''swarm_expired_listen_addr'' [] m"
| "record_swarm ListenerClosed m = increment_counter ''swarm_listener_closed'' [] m"
| "record_swarm ListenerError m = increment_counter ''swarm_listener_error'' [] m"
| "record_swarm Dialing m = increment_counter ''swarm_dial_attempt'' [] m"

section \<open>HTTP\<close>

text \<open>The middleware around a request: its path is that of the matched route, if any.\<close>

definition track_metrics ::
  "string option \<Rightarrow> string \<Rightarrow> string \<Rightarrow> nat \<Rightarrow> string \<Rightarrow> registry \<Rightarrow> registry" where
  "track_metrics matched_path uri_path method' latency status m =
     (let path = unwrap_or uri_path matched_path;
          m = increment_counter ''rpc_request_received'' [] m
      in if latency \<noteq> 0
         then histogram ''rpc_response_duration'' [(''method'', method'), (''path'', path), (''status'', status)] latency m
         else m)"

definition metrics_handler :: "(registry \<Rightarrow> string) \<Rightarrow> string \<Rightarrow> registry \<Rightarrow> nat \<times> string" where
  "metrics_handler render bitswap m = (200, if bitswap \<noteq> [] then render m @ bitswap else render m)"

section \<open>Traces\<close>

datatype rec_event =
    RGossip gossip_event
  | RIdentify id_event
  | RKad kad_event
  | RPing ping_result
  | RRelay relay_event
  | RReqRes req_res_record
  | RSwarm conn_event

fun record_event :: "(nat \<Rightarrow> string) \<Rightarrow> rec_event \<Rightarrow> registry \<Rightarrow> registry" where
  "record_event show_nat (RGossip e) m = record_gossipsub e m"
| "record_event show_nat (RIdentify e) m = record_identify e m"
| "record_event show_nat (RKad e) m = record_kad show_nat e m"
| "record_event show_nat (RPing e) m = record_ping e m"
| "record_event show_nat (RRelay e) m = record_relay e m"
| "record_event show_nat (RReqRes e) m = record_request_response e m"
| "record_event show_nat (RSwarm e) m = record_swarm e m"

text \<open>
  What the swarm promises: the number it reports with an event is the number of connections
  to that peer after the event.
\<close>

fun conns :: "rec_event \<Rightarrow> (string \<Rightarrow> nat) \<Rightarrow> string \<Rightarrow> nat" where
  "conns (RSwarm (ConnectionEstablished p r n)) c = c(p := n)"
| "conns (RSwarm (ConnectionClosed p r n)) c = c(p := n)"
| "conns _ c = c"

fun counted :: "rec_event \<Rightarrow> (string \<Rightarrow> nat) \<Rightarrow> bool" where
  "counted (RSwarm (ConnectionEstablished p r n)) c = (n = c p + 1)"
| "counted (RSwarm (ConnectionClosed p r n)) c = (c p = n + 1)"
| "counted _ c = True"

fun consistent :: "(string \<Rightarrow> nat) \<Rightarrow> rec_event list \<Rightarrow> bool" where
  "consistent c [] = True"
| "consistent c (e # es) = (counted e c \<and> consistent (conns e c) es)"

definition connected_gauge :: "registry \<Rightarrow> int" where
  "connected_gauge m = mx_gauges m (''swarm_connected_peers'', [])"

definition supported_gauge :: "registry \<Rightarrow> string \<Rightarrow> int" where
  "supported_gauge m protocol = mx_gauges m (''identify_supported_protocols'', [(''protocol'', protocol)])"

text \<open>
  The peers that are identified after an event: a peer is so from the moment it reports its
  protocols until its last connection is closed. \<open>proto\<close> gives the protocols of a peer.
\<close>

fun identified :: "rec_event \<Rightarrow> string set \<Rightarrow> string set" where
  "identified (RIdentify (IdentifyReceived p ps)) K = insert p K"
| "identified (RSwarm (ConnectionClosed p r n)) K = (if n = 0 then K - {p} else K)"
| "identified _ K = K"

definition supporters :: "(string \<Rightarrow> string list) \<Rightarrow> string set \<Rightarrow> string \<Rightarrow> nat" where
  "supporters proto K protocol = card {p \<in> K. protocol \<in> set (proto p)}"

definition reports :: "(string \<Rightarrow> string list) \<Rightarrow> rec_event \<Rightarrow> bool" where
  "reports proto e \<longleftrightarrow> (\<forall>p ps. e = RIdentify (IdentifyReceived p ps) \<longrightarrow> ps = proto p \<and> distinct ps)"

section \<open>Effect of the recorders on the gauges\<close>

lemma increment_counter_fields [simp]:
  "mx_gauges (increment_counter n ls m) = mx_gauges m" "mx_peers (increment_counter n ls m) = mx_peers m"
  by (simp_all add: increment_counter_def)

lemma histogram_fields [simp]:
  "mx_gauges (histogram n ls v m) = mx_gauges m" "mx_peers (histogram n ls v m) = mx_peers m"
  by (simp_all add: histogram_def)

lemma add_gauge_peers [simp]: "mx_peers (add_gauge n ls d m) = mx_peers m"
  by (simp add: add_gauge_def)

lemma protocol_gauges [simp]:
  "mx_peers (fold (protocol_gauge d) ps m) = mx_peers m"
  "connected_gauge (fold (protocol_gauge d) ps m) = connected_gauge m"
  "supported_gauge (fold (protocol_gauge d) ps m) q = supported_gauge m q + d * int (count_list ps q)"
  by (induction ps arbitrary: m)
    (simp_all add: protocol_gauge_def add_gauge_def connected_gauge_def supported_gauge_def algebra_simps)

lemma query_fields [simp]: "mx_gauges (record_query r m) = mx_gauges m" "mx_peers (record_query r m) = mx_peers m"
  by (cases "(r, m)" rule: record_query.cases; simp)+

text \<open>Only identifications and closed or opened connections touch the gauges and the table.\<close>

fun gauged :: "rec_event \<Rightarrow> bool" where
  "gauged (RIdentify (IdentifyReceived p ps)) = True"
| "gauged (RSwarm (ConnectionEstablished p r n)) = True"
| "gauged (RSwarm (ConnectionClosed p r n)) = True"
| "gauged _ = False"

lemma ungauged_gossip [simp]:
  "mx_gauges (record_gossipsub g m) = mx_gauges m" "mx_peers (record_gossipsub g m) = mx_peers m"
  by (cases g; simp)+

lemma ungauged_kad [simp]: "mx_gauges (record_kad sh k m) = mx_gauges m" "mx_peers (record_kad sh k m) = mx_peers m"
  by (cases k; simp add: Let_def split: option.split)+

lemma ungauged_ping [simp]: "mx_gauges (record_ping g m) = mx_gauges m" "mx_peers (record_ping g m) = mx_peers m"
  by (cases g; simp)+

lemma ungauged_reqres [simp]:
  "mx_gauges (record_request_response g m) = mx_gauges m" "mx_peers (record_request_response g m) = mx_peers m"
  by (cases g; simp)+

lemma record_event_ungauged:
  assumes "\<not> gauged e"
  shows "mx_gauges (record_event sh e m) = mx_gauges m" "mx_peers (record_event sh e m) = mx_peers m"
  using assms by (cases e rule: gauged.cases; simp add: record_relay_def)+

text \<open>The invariant of the gauges: \<open>c\<close> counts the connections per peer, \<open>K\<close> are the identified peers.\<close>

definition gauge_inv :: "(string \<Rightarrow> string list) \<Rightarrow> (string \<Rightarrow> nat) \<Rightarrow> string set \<Rightarrow> registry \<Rightarrow> bool" where
  "gauge_inv proto c K m \<longleftrightarrow>
     hm_inv (mx_peers m) \<and> finite {p. 0 < c p} \<and> connected_gauge m = int (card {p. 0 < c p}) \<and>
     finite K \<and> (\<forall>p \<in> K. distinct (proto p)) \<and>
     (\<forall>q. supported_gauge m q = int (supporters proto K q)) \<and>
     (\<forall>p. hm_get (mx_peers m) p = (if p \<in> K then Some (proto p) else None))"

lemma gauge_inv_new: "gauge_inv proto (\<lambda>_. 0) {} registry_new"
  by (simp add: gauge_inv_def registry_new_def connected_gauge_def supported_gauge_def supporters_def)

lemma count_list_distinct: "distinct xs \<Longrightarrow> count_list xs q = (if q \<in> set xs then 1 else 0)"
  by (induction xs) auto

lemma supporters_insert:
  assumes "finite K" and "p \<notin> K"
  shows "supporters proto (insert p K) q = supporters proto K q + (if q \<in> set (proto p) then 1 else 0)"
proof -
  have "{x \<in> insert p K. q \<in> set (proto x)} =
      (if q \<in> set (proto p) then insert p {x \<in> K. q \<in> set (proto x)} else {x \<in> K. q \<in> set (proto x)})" by auto
  with assms show ?thesis by (simp add: supporters_def)
qed

lemma gauge_inv_identify:
  assumes "gauge_inv proto c K m" and "distinct (proto p)"
  shows "gauge_inv proto c (insert p K) (record_identify (IdentifyReceived p (proto p)) m)"
proof (cases "p \<in> K")
  case False
  with assms show ?thesis
    by (auto simp: gauge_inv_def supporters_insert hm_get_insert count_list_distinct)
      (simp_all add: connected_gauge_def supported_gauge_def)
next
  case True
  with assms show ?thesis
    by (auto simp: gauge_inv_def hm_get_insert connected_gauge_def supported_gauge_def insert_absorb)
qed

lemma card_connected_open: "finite {p. 0 < c p} \<Longrightarrow>
    card {q. 0 < (c(p := c p + 1)) q} = card {q. 0 < c q} + (if c p = (0::nat) then 1 else 0)"
proof -
  assume fin: "finite {p. 0 < c p}"
  have "{q. 0 < (c(p := c p + 1)) q} = insert p {q. 0 < c q}" by auto
  with fin show ?thesis by (simp add: card_insert_if)
qed

lemma card_connected_close: "finite {p. 0 < c p} \<Longrightarrow> c p = n + 1 \<Longrightarrow>
    card {q. 0 < c q} = card {q. 0 < (c(p := n)) q} + (if n = (0::nat) then 1 else 0)"
proof -
  assume fin: "finite {p. 0 < c p}" and n: "c p = n + 1"
  show ?thesis
  proof (cases "n = 0")
    case True
    then have "{q. 0 < c q} = insert p {q. 0 < (c(p := n)) q}" using n by auto
    moreover have "finite {q. 0 < (c(p := n)) q}" using fin by (rule finite_subset [rotated]) (use n in auto)
    ultimately show ?thesis using True by simp
  next
    case False
    then have "{q. 0 < (c(p := n)) q} = {q. 0 < c q}" using n by auto
    with False show ?thesis by simp
  qed
qed

lemma gauge_inv_open:
  assumes "gauge_inv proto c K m" and "n = c p + 1"
  shows "gauge_inv proto (c(p := n)) K (record_swarm (ConnectionEstablished p r n) m)"
proof -
  have fin: "finite {p. 0 < c p}" using assms(1) by (simp add: gauge_inv_def)
  have "finite {q. 0 < (c(p := n)) q}"
    by (rule finite_subset [of _ "insert p {q. 0 < c q}"]) (use fin in auto)
  with assms card_connected_open [OF fin, of p] show ?thesis
    by (auto simp: gauge_inv_def connected_gauge_def supported_gauge_def add_gauge_def)
qed

lemma gauge_inv_close:
  assumes "gauge_inv proto c K m" and "c p = n + 1"
  shows "gauge_inv proto (c(p := n)) (if n = 0 then K - {p} else K) (record_swarm (ConnectionClosed p r n) m)"
proof -
  have inv: "finite {p. 0 < c p}" "hm_inv (mx_peers m)" "finite K" using assms(1) by (simp_all add: gauge_inv_def)
  have fin: "finite {q. 0 < (c(p := n)) q}" using inv(1) by (rule finite_subset [rotated]) (use assms(2) in auto)
  let ?m = "add_gauge ''swarm_connected_peers'' [] (- 1) (increment_counter ''swarm_connections_closed'' [role_label r] m)"
  have g: "connected_gauge ?m = connected_gauge m - 1" "supported_gauge ?m q = supported_gauge m q" for q
    by (simp_all add: connected_gauge_def supported_gauge_def add_gauge_def)
  have sum: "supporters proto K q = supporters proto (K - {p}) q + (if q \<in> set (proto p) then 1 else 0)" if "p \<in> K" for q
    using supporters_insert [of "K - {p}" p proto q] inv(3) that by (simp add: insert_absorb)
  have upd: "connected_gauge (x\<lparr>mx_peers := ps\<rparr>) = connected_gauge x" "supported_gauge (x\<lparr>mx_peers := ps\<rparr>) q = supported_gauge x q"
    for x ps q by (simp_all add: connected_gauge_def supported_gauge_def)
  note card = card_connected_close [OF inv(1) assms(2)]
  consider "n = 0" "p \<in> K" | "n = 0" "p \<notin> K" | "n \<noteq> 0" by blast
  then show ?thesis
  proof cases
    case 1
    with assms(1) fin card sum show ?thesis
      by (auto simp: gauge_inv_def g upd hm_get_remove count_list_distinct)
  next
    case 2
    with assms(1) fin card show ?thesis by (simp add: gauge_inv_def g)
  next
    case 3
    with assms(1) fin card show ?thesis
      by (simp add: gauge_inv_def) (simp add: connected_gauge_def supported_gauge_def)
  qed
qed

lemma record_event_inv:
  assumes "gauge_inv proto c K m" and "counted e c" and "reports proto e"
  shows "gauge_inv proto (conns e c) (identified e K) (record_event sh e m)"
proof (cases "gauged e")
  case True
  then consider (id) p ps where "e = RIdentify (IdentifyReceived p ps)"
    | (est) p r n where "e = RSwarm (ConnectionEstablished p r n)"
    | (closed) p r n where "e = RSwarm (ConnectionClosed p r n)"
    by (cases e rule: gauged.cases) auto
  then show ?thesis
  proof cases
    case id
    with assms(3) have "ps = proto p" "distinct (proto p)" by (auto simp: reports_def)
    with id gauge_inv_identify [OF assms(1), of p] show ?thesis by simp
  next
    case est
    with assms gauge_inv_open show ?thesis by simp
  next
    case closed
    with assms gauge_inv_close show ?thesis by simp
  qed
next
  case False
  have "conns e c = c" "identified e K = K" using False by (cases e rule: gauged.cases; simp)+
  with assms(1) record_event_ungauged [OF False] show ?thesis
    by (simp add: gauge_inv_def connected_gauge_def supported_gauge_def)
qed

lemma record_events_inv:
  "gauge_inv proto c K m \<Longrightarrow> consistent c es \<Longrightarrow> list_all (reports proto) es \<Longrightarrow>
     gauge_inv proto (fold conns es c) (fold identified es K) (fold (record_event sh) es m)"
  by (induction es arbitrary: c K m) (simp_all add: record_event_inv)

text \<open>
  C36. As long as the swarm counts connections right, and every peer reports the same
  protocols each time and none of them twice, the gauges are exact after any sequence of events: one is the number
  of peers with a connection, the other, for each protocol, the number of identified peers
  that support it, where a peer is identified until its last connection is closed.\<close>

theorem gauges_track_peers:
  assumes "consistent (\<lambda>_. 0) es" and "list_all (reports proto) es"
    and "m = fold (record_event show_nat) es registry_new"
  shows "connected_gauge m = int (card {p. 0 < fold conns es (\<lambda>_. 0) p}) \<and>
    supported_gauge m q = int (card {p \<in> fold identified es {}. q \<in> set (proto p)})"
  using record_events_inv [OF gauge_inv_new assms(1,2), of show_nat] unfolding assms(3) by (simp add: gauge_inv_def supporters_def)

text \<open>
  A protocol that a peer lists twice is counted twice: the gauge goes up once for each entry of the list.\<close>

theorem repeated_protocol_counts_twice:
  assumes "hm_get (mx_peers m) p = None" and "m' = record_event show_nat (RIdentify (IdentifyReceived p [a, a])) m"
  shows "supported_gauge m' a = supported_gauge m a + 2"
  using assms(1) unfolding assms(2) by (simp add: supported_gauge_def protocol_gauge_def add_gauge_def)

text \<open>
  A peer that identifies itself again with other protocols spoils the gauge for good:
  the table is overwritten but the gauge is not, so when the peer leaves, the protocol it
  had first stays counted and the one it had last is subtracted without having been counted.\<close>

theorem changed_protocols_corrupt_gauge:
  assumes "hm_get (mx_peers m) p = None" and "a \<noteq> b"
    and "m' = fold (record_event show_nat)
      [RIdentify (IdentifyReceived p [a]), RIdentify (IdentifyReceived p [b]), RSwarm (ConnectionClosed p r 0)] m"
  shows "hm_get (mx_peers m') p = None \<and>
    supported_gauge m' a = supported_gauge m a + 1 \<and> supported_gauge m' b = supported_gauge m b - 1"
  using assms(1,2) unfolding assms(3)
  by (simp add: supported_gauge_def protocol_gauge_def add_gauge_def)

theorem gauges_track_peers_witness:
  "supported_gauge (fold (record_event (\<lambda>n. [])) [RSwarm (ConnectionEstablished ''p'' Dialer 1),
     RIdentify (IdentifyReceived ''p'' [''kad'']), RIdentify (IdentifyReceived ''p'' [''kad''])] registry_new) ''kad'' = 1"
proof -
  let ?es = "[RSwarm (ConnectionEstablished ''p'' Dialer 1), RIdentify (IdentifyReceived ''p'' [''kad'']),
    RIdentify (IdentifyReceived ''p'' [''kad''])]"
  have "consistent (\<lambda>_. 0) ?es" "list_all (reports (\<lambda>_. [''kad''])) ?es" by (simp_all add: reports_def)
  from gauges_track_peers [OF this refl, of "\<lambda>n. []" "''kad''"]
  have "supported_gauge (fold (record_event (\<lambda>n. [])) ?es registry_new) ''kad'' =
      int (card {p \<in> fold identified ?es {}. ''kad'' \<in> set [''kad'']})" by blast
  also have "\<dots> = 1" by simp
  finally show ?thesis .
qed

theorem changed_protocols_corrupt_gauge_witness:
  "supported_gauge (fold (record_event (\<lambda>n. [])) [RIdentify (IdentifyReceived ''p'' [''a'']),
     RIdentify (IdentifyReceived ''p'' [''b'']), RSwarm (ConnectionClosed ''p'' Dialer 0)] registry_new) ''b'' = - 1"
proof -
  have "hm_get (mx_peers registry_new) ''p'' = None" by (simp add: registry_new_def)
  from changed_protocols_corrupt_gauge [OF this _ refl, of "''a''" "''b''" "\<lambda>n. []" Dialer]
  show ?thesis by (simp add: supported_gauge_def [of registry_new] registry_new_def [THEN arg_cong, of mx_gauges])
qed

end
