(* ===== verification/Proxy.thy ===== *)
theory Proxy
  imports Files
begin

text \<open>
  The caching proxy's pass-through, \<open>ursa-proxy/src\<close>: a list of servers, each of which forwards
  GET requests to one upstream. The parsers of URIs and addresses and the HTTP client are
  fields of \<open>proxy_ops\<close>.
\<close>

record proxy_server_config =
  px_proxy_pass :: string
  px_listen_addr :: "string option"
  px_listen_port :: "u16 option"

type_synonym proxy_config = "proxy_server_config list"

record proxy_ops =
  po_uri :: "string \<Rightarrow> (string, string) result"
  po_get :: "string \<Rightarrow> (nat \<times> bytes, string) result"
  po_ip :: "string \<Rightarrow> string option"
  po_bind :: "string \<times> u16 \<Rightarrow> bool"
  po_parse :: "bytes \<Rightarrow> (proxy_config, string) result"

datatype proxy_body = UpstreamBody bytes | TextBody string

text \<open>A text without a status is answered with 200.\<close>

definition proxy_pass :: "proxy_ops \<Rightarrow> proxy_server_config \<Rightarrow> string \<Rightarrow> (nat \<times> proxy_body, string) result" where
  "proxy_pass po config path =
     (let endpoint = ''http://'' @ px_proxy_pass config @ ''/'' @ path in
      case po_uri po endpoint of
        Err e \<Rightarrow> Ok (200, TextBody e)
      | Panic \<Rightarrow> Panic
      | Ok uri \<Rightarrow>
          (case po_get po uri of
             Ok (status, body) \<Rightarrow> if status = 200 then Ok (200, UpstreamBody body) else Ok (status, UpstreamBody body)
           | Err e \<Rightarrow> Ok (500, TextBody e)
           | Panic \<Rightarrow> Panic))"

section \<open>Starting\<close>

definition bind_addr :: "proxy_ops \<Rightarrow> proxy_server_config \<Rightarrow> (string \<times> u16, string) result" where
  "bind_addr po server =
     (case po_ip po (unwrap_or ''0.0.0.0'' (px_listen_addr server)) of
        None \<Rightarrow> Err ''Invalid binding address''
      | Some ip \<Rightarrow> Ok (ip, unwrap_or 0 (px_listen_port server)))"

text \<open>
  The servers that run when all of them were spawned. An invalid address returns early, which
  drops the set and aborts the servers spawned before; an address that is taken panics.
\<close>

fun spawn_servers :: "proxy_ops \<Rightarrow> proxy_config \<Rightarrow> ((string \<times> u16) list, string) result" where
  "spawn_servers po [] = Ok []"
| "spawn_servers po (server # rest) =
     bind_res (bind_addr po server) (\<lambda>a.
       if po_bind po a then bind_res (spawn_servers po rest) (\<lambda>as. Ok (a # as)) else Panic)"

definition start_servers :: "proxy_ops \<Rightarrow> proxy_config \<Rightarrow> ((string \<times> u16) list, string) result" where
  "start_servers po config = spawn_servers po config"

definition proxy_load_config :: "proxy_ops \<Rightarrow> path \<Rightarrow> fsys \<Rightarrow> (proxy_config, string) result" where
  "proxy_load_config po path fs =
     (if \<not> fs_exists path fs then Err ''Could not find config file''
      else bind_res (fs_read_string path fs) (\<lambda>toml. map_err (\<lambda>_. ''Failed to deserialize'') (po_parse po toml)))"

definition proxy_main :: "proxy_ops \<Rightarrow> path \<Rightarrow> fsys \<Rightarrow> ((string \<times> u16) list, string) result" where
  "proxy_main po path fs = bind_res (proxy_load_config po path fs) (\<lambda>config. unwrap (start_servers po config))"

text \<open>
  The proxy answers with the status and the body of the upstream, whatever the status is,
  and with 500 when the upstream cannot be reached. An endpoint that is no URI is reported
  with status 200, as if the error message were the content.\<close>

theorem proxy_pass_answers:
  assumes "\<And>t. po_uri po t \<noteq> Panic" and "\<And>u. po_get po u \<noteq> Panic"
  shows "proxy_pass po config path =
    Ok (case po_uri po (''http://'' @ px_proxy_pass config @ ''/'' @ path) of
          Ok uri \<Rightarrow> (case po_get po uri of Ok (status, body) \<Rightarrow> (status, UpstreamBody body) | Err e \<Rightarrow> (500, TextBody e))
        | Err e \<Rightarrow> (200, TextBody e))"
  using assms by (auto simp: proxy_pass_def Let_def split: result.splits prod.splits)

lemma spawn_servers_all:
  "spawn_servers po config = Ok as \<longleftrightarrow> map (bind_addr po) config = map Ok as \<and> list_all (po_bind po) as"
proof (induction config arbitrary: "as")
  case (Cons c cs)
  then show ?case by (cases "bind_addr po c"; cases "as") (auto simp: bind_res_Ok_iff)
qed auto

definition proxy_ops0 :: proxy_ops where
  "proxy_ops0 = \<lparr>po_uri = (\<lambda>t. if CHR '' '' \<in> set t then Err ''invalid uri character'' else Ok t),
     po_get = (\<lambda>u. Ok (404, [1])), po_ip = Some, po_bind = (\<lambda>_. True), po_parse = (\<lambda>_. Err [])\<rparr>"

theorem proxy_pass_answers_witness:
  "proxy_pass proxy_ops0 \<lparr>px_proxy_pass = ''up'', px_listen_addr = None, px_listen_port = None\<rparr> ''a b'' =
     Ok (200, TextBody ''invalid uri character'') \<and>
   proxy_pass proxy_ops0 \<lparr>px_proxy_pass = ''up'', px_listen_addr = None, px_listen_port = None\<rparr> ''a'' =
     Ok (404, UpstreamBody [1])"
proof -
  have "po_uri proxy_ops0 t \<noteq> Panic" "po_get proxy_ops0 u \<noteq> Panic" for t u by (simp_all add: proxy_ops0_def)
  from proxy_pass_answers [of proxy_ops0, OF this] show ?thesis by (simp add: proxy_ops0_def)
qed

end
