(* ===== verification/Tracker_Process.thy ===== *)
theory Tracker_Process
  imports Tracker
begin

text \<open>
  The tracker as a process, \<open>main\<close> of \<open>ursa-tracker/src/main.rs\<close>: how it starts and which requests reach which
  handler; and the tests beside its handlers, as runs of the model with their assertions.
\<close>

section \<open>Start and routes\<close>

text \<open>Every failure of the start is a panic: the database, the token of the lookup service and the port.\<close>

definition tracker_main ::
  "(string \<Rightarrow> ('d, string) result) \<Rightarrow> string option \<Rightarrow> (string \<times> nat \<Rightarrow> 'd \<Rightarrow> string \<Rightarrow> (unit, string) result) \<Rightarrow> (unit, string) result" where
  "tracker_main open_db token serve =
     bind_res (unwrap (open_db ''tracker_db'')) (\<lambda>d.
       case token of None \<Rightarrow> Panic | Some t \<Rightarrow> unwrap (serve (''0.0.0.0'', 4000) d t))"

datatype tracker_reply = NodeReply nat tracker_body | ServicesReply nat "discovery_chunk list" | StatusReply nat | ConnectionClosed

text \<open>The routes; a handler that panics closes the connection. \<open>body\<close> is the registration, or the status with which
  the library rejects a body that is none.\<close>

definition tracker_serve ::
  "('f, 'j) tracker_env \<Rightarrow> ('d, 'j) tracker_db \<Rightarrow> string \<Rightarrow> string \<Rightarrow> string \<Rightarrow> bytes option \<Rightarrow> string \<Rightarrow> nat \<Rightarrow>
   nat + tracker_registration \<Rightarrow> 'd \<Rightarrow> tracker_reply \<times> 'd" where
  "tracker_serve env db token verb path forwarded_for req_ip now body d =
     (if path = ''/register'' then
        (if verb \<noteq> ''POST'' then (StatusReply 405, d)
         else case body of
           Inl status \<Rightarrow> (StatusReply status, d)
         | Inr registration \<Rightarrow>
             (case registration_handler env db token forwarded_for req_ip now registration d of
                (Ok (status, b), d1) \<Rightarrow> (NodeReply status b, d1)
              | (_, d1) \<Rightarrow> (ConnectionClosed, d1)))
      else if path = ''/http_sd'' then
        (if verb \<notin> {''GET'', ''HEAD''} then (StatusReply 405, d)
         else case http_sd_handler env db now d of
           Ok (status, services) \<Rightarrow> (ServicesReply status services, d)
         | _ \<Rightarrow> (ConnectionClosed, d))
      else (StatusReply 404, d))"

text \<open>
  A registration that was answered with 200 shows in the next answer of \<open>/http_sd\<close>, within a
  month, and only registrations change the database.\<close>

theorem tracker_serves_registered:
  assumes "tracker_laws env db" and "parseable env db d"
    and "tracker_serve env db token ''POST'' ''/register'' fwd ip t (Inr reg) d = (NodeReply 200 (JsonNode n), d1)"
    and "t \<le> now" and "now < t + one_month" and "now < 2 ^ 63"
  shows "\<exists>cs. tracker_serve env db token ''GET'' ''/http_sd'' fwd' ip' now body d1 = (ServicesReply 200 cs, d1) \<and> chunk_of_node n \<in> set cs"
proof -
  have "registration_handler env db token fwd ip t reg d = (Ok (200, JsonNode n), d1)"
    using assms(3) by (auto simp: tracker_serve_def split: prod.splits result.splits)
  from registration_discoverable [OF assms(1,2) this _ assms(4-6), of "[]"] show ?thesis by (auto simp: tracker_serve_def)
qed

lemma tracker_serve_reads: "verb \<noteq> ''POST'' \<Longrightarrow> snd (tracker_serve env db token verb path fwd ip now body d) = d"
  by (auto simp: tracker_serve_def split: result.splits)

section \<open>Tests\<close>

definition make_registration ::
  "('f, 'j) tracker_env \<Rightarrow> ('d, 'j) tracker_db \<Rightarrow> string \<Rightarrow> nat \<Rightarrow> string option \<Rightarrow> string \<Rightarrow> 'd \<Rightarrow> (nat \<times> tracker_body, string) result \<times> 'd" where
  "make_registration env db token now addr id' d =
     registration_handler env db token None ''127.0.0.1'' now
       \<lparr>tg_id = id', tg_agent = [], tg_addr = addr, tg_p2p_port = Some 6009, tg_http_port = Some 4069, tg_telemetry = None\<rparr> d"

fun answered_200 :: "(nat \<times> tracker_body, string) result \<times> 'd \<Rightarrow> bool" where
  "answered_200 (Ok (status, b), d) = (status = 200)"
| "answered_200 _ = False"

definition local_node_registration where
  "local_node_registration env db token now id' d = answered_200 (make_registration env db token now None id' d)"

definition remote_node_registration where
  "remote_node_registration env db token now id' d = answered_200 (make_registration env db token now (Some ''8.8.8.8'') id' d)"

definition dns_node_registration where
  "dns_node_registration env db token now id' d = answered_200 (make_registration env db token now (Some ''google.com'') id' d)"

definition prometheus_http_sd where
  "prometheus_http_sd env db token now id' d =
     (case make_registration env db token now None id' d of
        (Ok (status, b), d1) \<Rightarrow> status = 200 \<and>
          (case http_sd_handler env db now d1 of
             Ok (status, services) \<Rightarrow> status = 200 \<and> length services = 1
           | _ \<Rightarrow> False)
      | _ \<Rightarrow> False)"

text \<open>On an empty database with a lookup service that answers, all of them pass.\<close>

lemma tracker_tests_pass:
  "local_node_registration tracker_env0 tracker_db0 [] 1000 ''p'' []"
  "remote_node_registration tracker_env0 tracker_db0 [] 1000 ''p'' []"
  "dns_node_registration tracker_env0 tracker_db0 [] 1000 ''p'' []"
  "prometheus_http_sd tracker_env0 tracker_db0 [] 1000 ''p'' []"
  by (simp_all add: local_node_registration_def remote_node_registration_def dns_node_registration_def prometheus_http_sd_def
      make_registration_def registration_handler_def request_ip_def get_ip_info_def lookup_ip_def locate_def geohash_def
      http_sd_handler_def tracker_env0_def tracker_db0_def node_from_info_def u64_sub_def one_month_def Let_def)

text \<open>
  The last test depends on what the database holds: with another node of the last month in it, it fails.\<close>

theorem prometheus_test_needs_fresh_database:
  assumes "tracker_laws env db" and "parseable env db d" and "now < 2 ^ 63"
    and "(k, j) \<in> set (entries (tdb_iter db d))" and "k \<noteq> id'" and "tk_node_parse env j = Some other" and "nd_id other \<noteq> id'"
    and "nd_last_registered other \<le> now" and "now < nd_last_registered other + one_month"
  shows "\<not> prometheus_http_sd env db token now id' d"
proof
  assume pass: "prometheus_http_sd env db token now id' d"
  obtain r d1 where mk: "make_registration env db token now None id' d = (r, d1)"
    by (cases "make_registration env db token now None id' d")
  obtain b cs where run: "make_registration env db token now None id' d = (Ok (200, b), d1)"
    "http_sd_handler env db now d1 = Ok (200, cs)" "length cs = 1"
    using pass mk by (cases r; cases "http_sd_handler env db now d1") (auto simp: prometheus_http_sd_def)
  obtain n where b: "b = JsonNode n"
    using run(1) by (cases b) (auto simp: make_registration_def registration_handler_def Let_def split: result.splits prod.splits)
  note reg = run(1) [unfolded make_registration_def b]
  obtain addr geo tz country where n: "n = node_from_info now \<lparr>tg_id = id', tg_agent = [], tg_addr = None, tg_p2p_port = Some 6009,
      tg_http_port = Some 4069, tg_telemetry = None\<rparr> addr geo tz country"
    and w: "tdb_write db d id' (tk_node_json env n) = (Ok (), d1)" using registration_ok_cases [OF reg] by auto
  have d1: "parseable env db d1" "n \<in> set (registered env db d1)" using parseable_write [OF assms(1,2) w] by simp_all
  have "(k, j) \<in> set (entries (tdb_iter db d1))" using assms(1,4,5) w unfolding tracker_laws_def by auto
  then have other: "other \<in> set (registered env db d1)" using assms(6) by (auto simp: registered_def mem_map_filter intro!: bexI [of _ "(k, j)"])
  let ?recent = "filter (\<lambda>n. u64_sub (now mod 2 ^ 64) (nd_last_registered n) < one_month) (registered env db d1)"
  have "nd_last_registered n = now" "nd_id n = id'" using assms(3) by (simp_all add: n node_from_info_def)
  then have "n \<in> set ?recent" "other \<in> set ?recent" "n \<noteq> other"
    using d1(2) other assms(3,7-9) age_recent_iff [of now now] age_recent_iff [of now "nd_last_registered other"]
    by (auto simp: one_month_def)
  then have "2 \<le> card (set ?recent)" by (metis List.finite_set card_2_iff card_mono empty_subsetI insert_subset)
  moreover have "length ?recent = 1" using run(2,3) http_sd_parseable [OF d1(1), of now] by auto
  ultimately show False using card_length [of ?recent] by simp
qed

end
