(* ===== verification/Spec2Isabelle.thy ===== *)
theory Spec2Isabelle
  imports Cache_Tests Gateway_Process Network_Props Summary_Tests Test_Plans Node_Process App_Client Upload
    Codec Metrics Proxy Tracker_Process
begin

text \<open>
  Ursa is a content delivery network: nodes store and exchange content-addressed blocks over
  libp2p, agree on transactions of an EVM application through Narwhal consensus, announce
  their content to an indexer, and are reached through gateways that cache what they fetch.
  This development models the Rust crates under \<open>src/crates\<close> and proves how they behave.
  Each definition keeps the name of the function it translates, with a prefix where a name
  would clash.

  \<^bold>\<open>Conventions.\<close> A function that can fail returns \<open>Ok\<close>, \<open>Err\<close> or \<open>Panic\<close> (\<open>Prelude.result\<close>);
  \<open>unwrap\<close>, \<open>expect\<close>, \<open>todo!\<close> and out-of-range indexing are \<open>Panic\<close>. State is passed explicitly; what
  runs concurrently is a step relation over all interleavings. Fixed-width integers are words,
  or natural numbers with the wrap-around of a release build written out. Code outside the
  repository (databases, libp2p, the EVM, Narwhal, serde, HTTP libraries) is a record of
  functions given as an argument; the laws that a theorem needs of it are a named hypothesis,
  and a witness shows each of them satisfied by a concrete instance. Loops that may not end
  return an option through \<open>partial_function\<close>, and that they do end is proved: the traversals of
  the block store on every finite store, the search for missing blocks on every acyclic one.
  No fuel is used. The eviction and clean-up loops of the cache are total by a measure.

  \<^bold>\<open>Theories.\<close>

  \<^item> \<open>Prelude\<close>, \<open>Ordered_Map\<close>, \<open>Text\<close>, \<open>Files\<close>: results, hash maps, the \<open>BTreeMap\<close> of the cache with its
    interface as a locale, decimal and address formatting, a file system in which every operation
    can fail, UTF-8 and paths; the locale \<open>restartable\<close> states what it means that a start leaves
    behind what later starts read.
  \<^item> \<open>Lru\<close>, \<open>Tlrfu\<close> (\<open>ursa-gateway/src/cache\<close>): the doubly linked list in a hash map and the cache of
    bounded size with frequencies, ages and expiry times. The list refines a sequence; the cache
    never exceeds its size, evicts by frequency and age, and drops exactly what has expired.
  \<^item> \<open>Resolver\<close>, \<open>Gateway_Config\<close>, \<open>Gateway\<close>, \<open>Gateway_Daemon\<close> (\<open>ursa-gateway/src\<close>): finding a provider at the
    indexer, configuration and command line, the handlers with the main worker as a step relation,
    the configuration file and the shutdown. Only complete answers are cached and only under their
    own content id; a shutdown completes in every run that does not neglect the program's own actions, whatever clients do.
  \<^item> \<open>Fairness\<close>: runs with weakly fair actions and the rule by which one leads from a condition to another, for the shutdown.
  \<^item> \<open>Telemetry\<close>, \<open>Gateway_Process\<close>, \<open>Node_Process\<close>, \<open>Tracker_Process\<close> (\<open>ursa-telemetry/src\<close> and the \<open>main\<close>
    functions): logging, and each process from its command line on, with routes, the wait for ctrl-c and the
    outcome of every error. The level that is logged, what a first start and a subcommand do, and that
    waiting ends within half a second of an interrupt.
  \<^item> \<open>Cache_Tests\<close>, \<open>Summary_Tests\<close>: the unit tests of the caches, of the mock clock and of the summaries, as runs of the
    model with their assertions; all of them hold.
  \<^item> \<open>Store\<close> (\<open>ursa-store/src\<close>): traversal of a DAG, missing blocks, sizes of CAR files.
  \<^item> \<open>Network\<close>, \<open>Network_Setup\<close>, \<open>Network_Props\<close>, \<open>Codec\<close> (\<open>ursa-network/src\<close>): the service with every
    handler and command, how it is configured and put together, and the messages between nodes.
    No caller that waits for a block is forgotten; the service comes up exactly on the stated
    configurations; messages within the limits are read back as they were written.
  \<^item> \<open>Abci\<close>, \<open>Application\<close>, \<open>Engine\<close>, \<open>Consensus_Start\<close> (\<open>ursa-application\<close>, \<open>ursa-consensus\<close>): the contract of
    an ABCI application as a locale, the application as its interpretation, the engine that drives
    it, and how both are started. A run of the engine executes the ledger of its certificates;
    queries see the committed state; the engine reads the store of the worker it started.
  \<^item> \<open>Index_Provider\<close> (\<open>ursa-index-provider/src\<close>): advertisements, the chain of heads, the commands of the
    engine and its handlers. A publication lists exactly the multihashes under its root. \<open>Index_Engine\<close> has
    the engine with its router, announcements and runs: the store stays typed, and what is published is served.
  \<^item> \<open>App_Client\<close> (\<open>ursa-application/src/bin/client.rs\<close>): the command-line client, and its requests through endpoint,
    engine and application. Reading the counter is a call on the committed state; of a contract that counts, \<open>get\<close> prints the old
    number until the block of the increments is committed, and then that number plus the increments.
  \<^item> \<open>Sync_Plan\<close>, \<open>Test_Plans\<close> (\<open>test-plans\<close>): instances that meet at barriers, with the locale \<open>coordinated\<close> that says when
    all of them end, and the two testground plans as its interpretations: every run completes.
  \<^item> \<open>Node_Interface\<close>, \<open>Upload\<close>: the commands between the RPC service and the network service, whose contract is the
    locale \<open>command_channel\<close>, and the way of an upload through RPC service, network service and index
    provider to the advertisement that an indexer reads.
  \<^item> \<open>Rpc_Service\<close>, \<open>Rpc_Server\<close> (\<open>ursa-rpc-service/src\<close>, \<open>ursa/src/ursa/rpc_commands.rs\<close>): fetching, providing
    and storing content, requests that meet at the origin as a step relation, and the way of a
    call from the client to the handler and back, which is shown to change nothing but errors.
  \<^item> \<open>Identity\<close>, \<open>Node\<close> (\<open>ursa/src\<close>): key files and the configuration file, both interpretations of
    \<open>restartable\<close>, the command line and the start of a node. A restarted node has the same identity
    and configuration.
  \<^item> \<open>Tracker\<close>, \<open>Metrics\<close>, \<open>Proxy\<close> (\<open>ursa-tracker/src\<close>, \<open>ursa-metrics/src\<close>, \<open>ursa-proxy/src\<close>): registration and
    discovery of nodes, the recorders of events, forwarding of requests.

  This theory joins the node and the tracker: a node that started and registered is discovered
  at the port it was configured with, whatever other nodes register afterwards.

  Some theorems state behaviour that the code hardly intends: a second request for content
  that is being fetched deadlocks, a block that fails half-way is published by the next engine on the same application, a body that breaks off reaches the
  client of a gateway as a complete response,
  a dropped caller ends the network service, a key file that cannot be read is replaced.

  \<^bold>\<open>Not modelled.\<close> The integration tests in the \<open>tests\<close> directories start real nodes and databases; docker and
  dashboard files deploy or watch the program. Layers of the HTTP servers that only trace, measure, compress or set
  headers are left out, as is the text of log messages throughout. Futures of requests run to their end: that a
  server drops one because its client went away is not modelled.
\<close>

section \<open>From the configuration of a node to its discovery\<close>

text \<open>
  C25. A node that starts and registers with the tracker can be found there: for a month after
  the tracker answered, and whatever other nodes register in the meantime and however the tracker
  answers them, discovery lists a target at the port that the node's server was
  configured with, by file or command line, under the node's peer id and agent.\<close>

theorem started_node_discoverable:
  assumes "node_start kl na gen config fs = (Ok run, fs')" and "nr_registration run = Some (url, reg)"
    and "tracker_laws env db" and "parseable env db d"
    and "registration_handler env db token fwd ip t reg d = (Ok (200, JsonNode n), d')"
    and "tg_id reg \<notin> (\<lambda>(fwd, ip, t, reg). tg_id reg) ` set later"
    and "t \<le> now" and "now < t + one_month" and "now < 2 ^ 63"
  shows "\<exists>cs c. http_sd_handler env db now (registrations env db token later d') = Ok (200, cs) \<and> c \<in> set cs \<and>
    dc_targets c = [nd_addr n @ '':'' @ dec (unat (nr_server_port run))] \<and>
    hm_get (dc_labels c) ''id'' = Some (na_peer_id na (nr_keypair run)) \<and>
    hm_get (dc_labels c) ''agent'' = Some (''ursa/'' @ na_version na)"
proof -
  have reg: "node_registration na (nr_keypair run) (uc_network config) (uc_server config) = Ok reg"
    using node_start_Ok(1,2) [OF assms(1)] assms(2) by (auto simp: is_ok_iff split: if_splits)
  then have fields: "tg_id reg = na_peer_id na (nr_keypair run)" "tg_agent reg = ''ursa/'' @ na_version na"
      "tg_http_port reg = Some (nr_server_port run)"
    using node_start_Ok(6) [OF assms(1)] by (auto simp: node_registration_def split: list.splits)
  obtain addr geo tz country where n: "n = node_from_info t reg addr geo tz country"
    using registration_ok_cases [OF assms(5)] by blast
  have "dc_targets (chunk_of_node n) = [nd_addr n @ '':'' @ dec (unat (nr_server_port run))] \<and>
      hm_get (dc_labels (chunk_of_node n)) ''id'' = Some (na_peer_id na (nr_keypair run)) \<and>
      hm_get (dc_labels (chunk_of_node n)) ''agent'' = Some (''ursa/'' @ na_version na)"
    using fields by (simp add: n chunk_of_node_def node_from_info_def hm_get_insert Let_def)
  with registration_discoverable [OF assms(3-9)] show ?thesis by blast
qed

definition registration1 :: tracker_registration where
  "registration1 = \<lparr>tg_id = ''P1'', tg_agent = ''ursa/0.1.0'', tg_addr = None, tg_p2p_port = Some 6009,
     tg_http_port = Some 80, tg_telemetry = Some True\<rparr>"

definition node1 :: tracked_node where
  "node1 = node_from_info 1000 registration1 ''1.2.3.4'' ''u0'' [] ''CH''"

theorem started_node_discoverable_witness:
  "\<exists>cs c. http_sd_handler tracker_env0 tracker_db0 2000
       (registrations tracker_env0 tracker_db0 [] [(None, ''1.2.3.4'', 1500, registration0)] [(''P1'', node1)]) = Ok (200, cs) \<and> c \<in> set cs \<and>
     dc_targets c = [''1.2.3.4:80'']"
proof -
  have "choose_identity key_lib0 node_ops0 False net_config_default fs_started =
      (Ok \<lparr>im_name = ''default'', im_identity = True, im_dir = ''~/.ursa/keystore''\<rparr>, fs_started)"
    using started_identity .
  note start = node_start0 [OF this, of 80, unfolded im_current_def, simplified]
  have reg: "nr_registration (run0 True 80) = Some (''https://tracker.ursa.earth/register'', registration1)"
    by (simp add: run0_def registration1_def node_ops0_def)
  have r: "parseable tracker_env0 tracker_db0 []" by (simp add: parseable_def tracker_db0_def)
  have h: "registration_handler tracker_env0 tracker_db0 [] None ''1.2.3.4'' 1000 registration1 [] =
      (Ok (200, JsonNode node1), [(''P1'', node1)])"
    by (simp add: registration_handler_def registration1_def node1_def request_ip_def get_ip_info_def lookup_ip_def
        locate_def geohash_def tracker_env0_def tracker_db0_def node_from_info_def Let_def)
  have "nd_addr node1 @ '':'' @ dec (unat (nr_server_port (run0 True 80))) = ''1.2.3.4:80''"
    by (simp add: node1_def node_from_info_def registration1_def run0_def dec_def digits.simps)
  moreover have "tg_id registration1 \<notin> (\<lambda>(fwd, ip, t, reg). tg_id reg) ` set [(None, ''1.2.3.4'', 1500, registration0)]"
    by (simp add: registration0_def registration1_def)
  ultimately show ?thesis
    using started_node_discoverable [OF start reg tracker_laws0 r h, of "[(None, ''1.2.3.4'', 1500, registration0)]" 2000]
    by (auto simp: one_month_def simp del: registrations.simps)
qed

end
